(* ===== verification/Prelude.thy ===== *)
theory Prelude
  imports Main "HOL-Library.Word" "HOL-Library.Code_Target_Nat"
begin

unbundle bit_operations_syntax

section \<open>Prelude: the Rust vocabulary shared by the components\<close>

text \<open>
  What every component uses of the Rust language and its standard library:
  \<open>Result\<close> with its two constructors and the combinators the sources call on
  it, machine integers as words with Rust's saturating and checked operations,
  and strings as lists of bytes with the slicing, splitting and number parsing
  functions of \<open>str\<close>.  The lemma collections \<open>result_simps\<close> (equations for
  results) and \<open>sat_simps\<close> (saturating arithmetic read through \<open>unat\<close>) carry
  the component proofs.
\<close>

named_theorems result_simps \<open>how the combinators on results compute\<close>
named_theorems sat_simps \<open>saturating word arithmetic, read as natural numbers\<close>

subsection \<open>Machine integers\<close>

type_synonym u8 = "8 word"
type_synonym u16 = "16 word"
type_synonym u32 = "32 word"
type_synonym u64 = "64 word"
type_synonym u128 = "128 word"

definition saturating_add :: "'w::len word \<Rightarrow> 'w word \<Rightarrow> 'w word" where
  "saturating_add a b = (if unat a + unat b < 2 ^ LENGTH('w) then a + b else - 1)"

definition saturating_sub :: "'w::len word \<Rightarrow> 'w word \<Rightarrow> 'w word" where
  "saturating_sub a b = (if b \<le> a then a - b else 0)"

definition saturating_mul :: "'w::len word \<Rightarrow> 'w word \<Rightarrow> 'w word" where
  "saturating_mul a b = (if unat a * unat b < 2 ^ LENGTH('w) then a * b else - 1)"

definition checked_add :: "'w::len word \<Rightarrow> 'w word \<Rightarrow> 'w word option" where
  "checked_add a b = (if unat a + unat b < 2 ^ LENGTH('w) then Some (a + b) else None)"

lemma unat_max_word: "unat (- 1 :: 'w::len word) = 2 ^ LENGTH('w) - 1"
  by (simp add: unsigned_minus_1_eq_mask mask_eq_exp_minus_1)

lemma unat_saturating_add [sat_simps]:
  fixes a b :: "'w::len word"
  shows "unat (saturating_add a b) = min (unat a + unat b) (2 ^ LENGTH('w) - 1)"
proof (cases "unat a + unat b < 2 ^ LENGTH('w)")
  case True
  then have "unat (a + b) = unat a + unat b"
    by (simp add: unat_word_ariths(1))
  with True show ?thesis by (simp add: saturating_add_def)
next
  case False
  then show ?thesis by (simp add: saturating_add_def unat_max_word)
qed

lemma unat_saturating_sub [sat_simps]:
  fixes a b :: "'w::len word"
  shows "unat (saturating_sub a b) = unat a - unat b"
  by (simp add: saturating_sub_def unat_sub word_le_nat_alt)

lemma unat_saturating_mul [sat_simps]:
  fixes a b :: "'w::len word"
  shows "unat (saturating_mul a b) = min (unat a * unat b) (2 ^ LENGTH('w) - 1)"
proof (cases "unat a * unat b < 2 ^ LENGTH('w)")
  case True
  then have "unat (a * b) = unat a * unat b"
    by (simp add: unat_word_ariths(2))
  with True show ?thesis by (simp add: saturating_mul_def)
next
  case False
  then show ?thesis by (simp add: saturating_mul_def unat_max_word)
qed

lemma checked_add_Some:
  "checked_add a b = Some c \<Longrightarrow> unat c = unat a + unat b"
  by (auto simp: checked_add_def unat_word_ariths(1) split: if_splits)

lemma unat_min_word [sat_simps]: "unat (min a b) = min (unat a) (unat b)"
  by (simp add: min_def word_le_nat_alt)

subsection \<open>Results\<close>

datatype ('e, 'a) result = Err (the_err: 'e) | Ok (the_ok: 'a)

primrec is_ok :: "('e, 'a) result \<Rightarrow> bool" where
  "is_ok (Ok _) = True"
| "is_ok (Err _) = False"

primrec map_err :: "('e \<Rightarrow> 'f) \<Rightarrow> ('e, 'a) result \<Rightarrow> ('f, 'a) result" where
  "map_err f (Ok x) = Ok x"
| "map_err f (Err e) = Err (f e)"

primrec map_ok :: "('a \<Rightarrow> 'b) \<Rightarrow> ('e, 'a) result \<Rightarrow> ('e, 'b) result" where
  "map_ok f (Ok x) = Ok (f x)"
| "map_ok f (Err e) = Err e"

text \<open>\<open>and_then\<close> is also the \<open>?\<close> operator at the end of a statement.\<close>

primrec and_then :: "('e, 'a) result \<Rightarrow> ('a \<Rightarrow> ('e, 'b) result) \<Rightarrow> ('e, 'b) result" where
  "and_then (Ok x) f = f x"
| "and_then (Err e) f = Err e"

text \<open>\<open>Result::and\<close>: the first error, else the second result.\<close>

primrec result_and :: "('e, 'a) result \<Rightarrow> ('e, 'b) result \<Rightarrow> ('e, 'b) result" where
  "result_and (Ok _) r = r"
| "result_and (Err e) r = Err e"

definition ok_or :: "'a option \<Rightarrow> 'e \<Rightarrow> ('e, 'a) result" where
  "ok_or opt e = (case opt of None \<Rightarrow> Err e | Some x \<Rightarrow> Ok x)"

text \<open>\<open>iter.map(f).collect::<Result<Vec<_>, _>>()\<close> stops at the first error.\<close>

fun collect_results :: "('a \<Rightarrow> ('e, 'b) result) \<Rightarrow> 'a list \<Rightarrow> ('e, 'b list) result" where
  "collect_results f [] = Ok []"
| "collect_results f (x # xs) =
     (case f x of Err e \<Rightarrow> Err e
      | Ok y \<Rightarrow> map_ok (\<lambda>ys. y # ys) (collect_results f xs))"

text \<open>
  A call on \<open>&mut self\<close> returns its result with the new state.  The two ways such a call can end,
  as an elimination rule that walks through a chain of calls.
\<close>

lemma case_runE:
  assumes "(case m of (Err e, s) \<Rightarrow> F e s | (Ok x, s) \<Rightarrow> G x s) = y"
  obtains (Err) e s where "m = (Err e, s)" and "F e s = y"
  | (Ok) x s where "m = (Ok x, s)" and "G x s = y"
  using assms by (auto split: prod.splits result.splits)

lemma case_run2E:
  assumes "(case m of (Err e, s, x) \<Rightarrow> F e s x | (Ok v, s, x) \<Rightarrow> G v s x) = y"
  obtains (Err) e s x where "m = (Err e, s, x)" and "F e s x = y"
  | (Ok) v s x where "m = (Ok v, s, x)" and "G v s x = y"
  using assms by (auto split: prod.splits result.splits)

lemma case_resultE:
  assumes "(case m of Err e \<Rightarrow> F e | Ok x \<Rightarrow> G x) = y"
  obtains (Err) e where "m = Err e" and "F e = y" | (Ok) x where "m = Ok x" and "G x = y"
  using assms by (auto split: result.splits)

lemma case_callE:
  assumes "(case m of (r, s) \<Rightarrow> F r s) = y"
  obtains r s where "m = (r, s)" and "F r s = y"
  using assms by (auto split: prod.splits)

lemma case_optionE:
  assumes "(case m of None \<Rightarrow> F | Some x \<Rightarrow> G x) = y"
  obtains (None) "m = None" and "F = y" | (Some) x where "m = Some x" and "G x = y"
  using assms by (auto split: option.splits)

lemma case_ifE:
  assumes "(if b then F else G) = y"
  obtains (True) "b" and "F = y" | (False) "\<not> b" and "G = y"
  using assms by (auto split: if_splits)

lemmas run_elims = case_runE case_resultE case_optionE case_ifE

lemma is_ok_iff: "is_ok r \<longleftrightarrow> (\<exists>x. r = Ok x)"
  by (cases r) auto

lemma not_is_ok_iff: "\<not> is_ok r \<longleftrightarrow> (\<exists>e. r = Err e)"
  by (cases r) auto

lemma and_then_Ok [result_simps]: "and_then r f = Ok y \<longleftrightarrow> (\<exists>x. r = Ok x \<and> f x = Ok y)"
  by (cases r) auto

lemma map_err_Ok [result_simps]: "map_err f r = Ok y \<longleftrightarrow> r = Ok y"
  by (cases r) auto

lemma map_err_Err [result_simps]: "map_err f r = Err e \<longleftrightarrow> (\<exists>e'. r = Err e' \<and> e = f e')"
  by (cases r) auto

lemma map_ok_Ok [result_simps]: "map_ok f r = Ok y \<longleftrightarrow> (\<exists>x. r = Ok x \<and> y = f x)"
  by (cases r) auto

lemma result_and_Ok [result_simps]: "result_and r s = Ok y \<longleftrightarrow> (\<exists>x. r = Ok x) \<and> s = Ok y"
  by (cases r) auto

lemma ok_or_Ok [result_simps]: "ok_or opt e = Ok x \<longleftrightarrow> opt = Some x"
  by (auto simp: ok_or_def split: option.splits)

lemma collect_results_Ok [result_simps]:
  "collect_results f xs = Ok ys \<longleftrightarrow> list_all2 (\<lambda>x y. f x = Ok y) xs ys"
proof (induction xs arbitrary: ys)
  case Nil
  then show ?case by auto
next
  case (Cons x xs)
  then show ?case
    by (cases ys; cases "f x"; auto simp: map_ok_Ok)
qed

lemma collect_results_member:
  "collect_results f xs = Ok ys \<Longrightarrow> x \<in> set xs \<Longrightarrow> \<exists>y\<in>set ys. f x = Ok y"
  by (induction xs arbitrary: ys) (auto simp: map_ok_Ok split: result.splits)

subsection \<open>Characters\<close>

text \<open>
  A Rust \<open>String\<close> is UTF-8; the model keeps its bytes (\<open>string\<close> is a list of
  8-bit \<open>char\<close>s), so \<open>length\<close> is \<open>str::len\<close>.  A test "all characters are ASCII
  of some kind" is the same on bytes and on characters, since every byte of a
  multi-byte character is above 127.  Where a source counts or classifies
  Unicode characters it goes through \<open>utf8_chars\<close> below.
\<close>

definition ord :: "char \<Rightarrow> nat" where
  "ord c = of_char c"

definition is_ascii_digit :: "char \<Rightarrow> bool" where
  "is_ascii_digit c \<longleftrightarrow> 48 \<le> ord c \<and> ord c \<le> 57"

definition is_ascii_lowercase :: "char \<Rightarrow> bool" where
  "is_ascii_lowercase c \<longleftrightarrow> 97 \<le> ord c \<and> ord c \<le> 122"

definition is_ascii_uppercase :: "char \<Rightarrow> bool" where
  "is_ascii_uppercase c \<longleftrightarrow> 65 \<le> ord c \<and> ord c \<le> 90"

definition is_ascii_alphanumeric :: "char \<Rightarrow> bool" where
  "is_ascii_alphanumeric c \<longleftrightarrow> is_ascii_digit c \<or> is_ascii_lowercase c \<or> is_ascii_uppercase c"

definition is_ascii_hexdigit :: "char \<Rightarrow> bool" where
  "is_ascii_hexdigit c \<longleftrightarrow>
     is_ascii_digit c \<or> (97 \<le> ord c \<and> ord c \<le> 102) \<or> (65 \<le> ord c \<and> ord c \<le> 70)"

definition is_ascii_control :: "char \<Rightarrow> bool" where
  "is_ascii_control c \<longleftrightarrow> ord c < 32 \<or> ord c = 127"

definition is_ascii :: "char \<Rightarrow> bool" where
  "is_ascii c \<longleftrightarrow> ord c < 128"

definition to_ascii_lowercase :: "char \<Rightarrow> char" where
  "to_ascii_lowercase c = (if is_ascii_uppercase c then char_of (ord c + 32) else c)"

lemmas char_class_defs =
  ord_def is_ascii_digit_def is_ascii_lowercase_def is_ascii_uppercase_def
  is_ascii_alphanumeric_def is_ascii_hexdigit_def is_ascii_control_def is_ascii_def
  to_ascii_lowercase_def

text \<open>The characters (code points) of a string, decoded from its bytes.\<close>

fun utf8_chars :: "string \<Rightarrow> nat list" where
  "utf8_chars [] = []"
| "utf8_chars [a] = [ord a]"
| "utf8_chars [a, b] =
     (if ord a < 128 then ord a # utf8_chars [b]
      else [(ord a - 192) * 64 + (ord b - 128)])"
| "utf8_chars [a, b, c] =
     (if ord a < 128 then ord a # utf8_chars [b, c]
      else if ord a < 224 then ((ord a - 192) * 64 + (ord b - 128)) # utf8_chars [c]
      else [(ord a - 224) * 4096 + (ord b - 128) * 64 + (ord c - 128)])"
| "utf8_chars (a # b # c # d # s) =
     (if ord a < 128 then ord a # utf8_chars (b # c # d # s)
      else if ord a < 224 then ((ord a - 192) * 64 + (ord b - 128)) # utf8_chars (c # d # s)
      else if ord a < 240
      then ((ord a - 224) * 4096 + (ord b - 128) * 64 + (ord c - 128)) # utf8_chars (d # s)
      else ((ord a - 240) * 262144 + (ord b - 128) * 4096 + (ord c - 128) * 64 + (ord d - 128))
           # utf8_chars s)"

text \<open>\<open>char::is_control\<close> (category Cc) and \<open>char::is_whitespace\<close> on code points.\<close>

definition is_control :: "nat \<Rightarrow> bool" where
  "is_control c \<longleftrightarrow> c < 32 \<or> (127 \<le> c \<and> c < 160)"

definition is_whitespace :: "nat \<Rightarrow> bool" where
  "is_whitespace c \<longleftrightarrow>
     (9 \<le> c \<and> c \<le> 13) \<or> (8192 \<le> c \<and> c \<le> 8202) \<or>
     c \<in> set [32, 133, 160, 5760, 8232, 8233, 8239, 8287, 12288]"

subsection \<open>String slicing\<close>

definition starts_with :: "string \<Rightarrow> string \<Rightarrow> bool" where
  "starts_with s p \<longleftrightarrow> take (length p) s = p"

definition ends_with :: "string \<Rightarrow> string \<Rightarrow> bool" where
  "ends_with s p \<longleftrightarrow> starts_with (rev s) (rev p)"

definition strip_prefix :: "string \<Rightarrow> string \<Rightarrow> string option" where
  "strip_prefix p s = (if starts_with s p then Some (drop (length p) s) else None)"

definition strip_suffix :: "string \<Rightarrow> string \<Rightarrow> string option" where
  "strip_suffix p s = map_option rev (strip_prefix (rev p) (rev s))"

definition split_once :: "char \<Rightarrow> string \<Rightarrow> (string \<times> string) option" where
  "split_once c s =
     (if c \<in> set s
      then Some (takeWhile (\<lambda>x. x \<noteq> c) s, tl (dropWhile (\<lambda>x. x \<noteq> c) s)) else None)"

definition rsplit_once :: "char \<Rightarrow> string \<Rightarrow> (string \<times> string) option" where
  "rsplit_once c s = map_option (\<lambda>(a, b). (rev b, rev a)) (split_once c (rev s))"

text \<open>\<open>str::split(c)\<close>: at least one piece, also for the empty string.\<close>

fun split_on :: "char \<Rightarrow> string \<Rightarrow> string list" where
  "split_on c [] = [[]]"
| "split_on c (x # s) =
     (if x = c then [] # split_on c s
      else case split_on c s of [] \<Rightarrow> [[x]] | w # ws \<Rightarrow> (x # w) # ws)"

lemma split_on_nonempty [simp]: "split_on c s \<noteq> []"
  by (cases s) (auto split: list.splits)

lemma split_once_Some:
  "split_once c s = Some (a, b) \<longleftrightarrow> s = a @ c # b \<and> c \<notin> set a"
proof
  assume "split_once c s = Some (a, b)"
  then have c: "c \<in> set s" and a: "a = takeWhile (\<lambda>x. x \<noteq> c) s"
    and b: "b = tl (dropWhile (\<lambda>x. x \<noteq> c) s)"
    by (auto simp: split_once_def split: if_splits)
  from c have "dropWhile (\<lambda>x. x \<noteq> c) s \<noteq> []" by (auto simp: dropWhile_eq_Nil_conv)
  then obtain y ys where d: "dropWhile (\<lambda>x. x \<noteq> c) s = y # ys"
    by (cases "dropWhile (\<lambda>x. x \<noteq> c) s") auto
  then have "y = c" by (simp add: dropWhile_eq_Cons_conv)
  with a b d show "s = a @ c # b \<and> c \<notin> set a"
    using takeWhile_dropWhile_id [of "\<lambda>x. x \<noteq> c" s] by (auto dest: set_takeWhileD)
next
  assume "s = a @ c # b \<and> c \<notin> set a"
  then show "split_once c s = Some (a, b)"
    by (auto simp: split_once_def takeWhile_append2 dropWhile_append2 takeWhile_tail
      takeWhile_append dropWhile_append)
qed

lemma rsplit_once_Some:
  "rsplit_once c s = Some (a, b) \<longleftrightarrow> s = a @ c # b \<and> c \<notin> set b"
proof -
  have "rsplit_once c s = Some (a, b) \<longleftrightarrow> split_once c (rev s) = Some (rev b, rev a)"
    by (auto simp: rsplit_once_def split: option.splits)
  also have "\<dots> \<longleftrightarrow> rev s = rev b @ c # rev a \<and> c \<notin> set b"
    by (simp add: split_once_Some)
  also have "\<dots> \<longleftrightarrow> s = a @ c # b \<and> c \<notin> set b"
    using rev_swap [of s "rev b @ c # rev a"] by simp
  finally show ?thesis .
qed

lemma strip_prefix_Some: "strip_prefix p s = Some t \<longleftrightarrow> s = p @ t"
  by (auto simp: strip_prefix_def starts_with_def)
    (metis append_take_drop_id)

lemma strip_suffix_Some: "strip_suffix p s = Some t \<longleftrightarrow> s = t @ p"
proof -
  have "strip_suffix p s = Some t \<longleftrightarrow> strip_prefix (rev p) (rev s) = Some (rev t)"
    by (auto simp: strip_suffix_def)
  also have "\<dots> \<longleftrightarrow> s = t @ p"
    by (auto simp: strip_prefix_Some) (metis rev_append rev_rev_ident)
  finally show ?thesis .
qed

subsection \<open>Numbers in strings\<close>

definition digit_value :: "char \<Rightarrow> nat" where
  "digit_value c = ord c - 48"

text \<open>
  \<open>str::parse\<close> for an unsigned type: an optional plus sign, then decimal
  digits only; the empty string, a lone sign and a value above the type's
  maximum are errors.
\<close>

definition digits_value :: "string \<Rightarrow> nat" where
  "digits_value s = foldl (\<lambda>n c. n * 10 + digit_value c) 0 s"

definition parse_unsigned :: "nat \<Rightarrow> string \<Rightarrow> nat option" where
  "parse_unsigned maximum s =
     (let d = (case s of c # t \<Rightarrow> if c = CHR ''+'' then t else s | [] \<Rightarrow> [])
      in if d \<noteq> [] \<and> list_all is_ascii_digit d \<and> digits_value d \<le> maximum
         then Some (digits_value d) else None)"

definition parse_u8 :: "string \<Rightarrow> nat option" where
  "parse_u8 = parse_unsigned 255"

definition parse_u16 :: "string \<Rightarrow> nat option" where
  "parse_u16 = parse_unsigned 65535"

text \<open>\<open>to_string\<close> of an unsigned integer.\<close>

fun nat_to_string :: "nat \<Rightarrow> string" where
  "nat_to_string n =
     (if n < 10 then [char_of (48 + n)]
      else nat_to_string (n div 10) @ [char_of (48 + n mod 10)])"

declare nat_to_string.simps [simp del]

text \<open>\<open>format!("{:x}")\<close> of an unsigned integer.\<close>

definition hex_digit :: "nat \<Rightarrow> char" where
  "hex_digit d = char_of (if d < 10 then 48 + d else 87 + d)"

fun nat_to_hex :: "nat \<Rightarrow> string" where
  "nat_to_hex n =
     (if n < 16 then [hex_digit n] else nat_to_hex (n div 16) @ [hex_digit (n mod 16)])"

declare nat_to_hex.simps [simp del]

lemma parse_unsigned_bound: "parse_unsigned m s = Some n \<Longrightarrow> n \<le> m"
  by (auto simp: parse_unsigned_def Let_def split: if_splits)

lemma parse_unsigned_chars:
  assumes "parse_unsigned m s = Some n" and "c \<in> set s"
  shows "c = CHR ''+'' \<or> is_ascii_digit c"
proof (cases s)
  case (Cons d t)
  then have "list_all is_ascii_digit (if d = CHR ''+'' then t else s)"
    using assms(1) by (simp add: parse_unsigned_def Let_def split: if_splits)
  then show ?thesis using assms(2) Cons by (auto simp: list_all_iff split: if_splits)
qed (use assms in simp)

lemma parse_u16_bound: "parse_u16 s = Some n \<Longrightarrow> n \<le> 65535"
  by (auto simp: parse_u16_def dest: parse_unsigned_bound)

lemma parse_u8_bound: "parse_u8 s = Some n \<Longrightarrow> n \<le> 255"
  by (auto simp: parse_u8_def dest: parse_unsigned_bound)

text \<open>\<open>str::as_bytes\<close>, and \<open>format!("{byte:02x}")\<close> over the bytes.\<close>

definition as_bytes :: "string \<Rightarrow> u8 list" where
  "as_bytes s = map (\<lambda>c. word_of_nat (of_char c)) s"

definition hex_bytes :: "u8 list \<Rightarrow> string" where
  "hex_bytes bs = concat (map (\<lambda>b. [hex_digit (unat b div 16), hex_digit (unat b mod 16)]) bs)"

lemma as_bytes_append [simp]: "as_bytes (s @ t) = as_bytes s @ as_bytes t"
  by (simp add: as_bytes_def)

lemma unat_as_byte: "unat (word_of_nat (of_char c) :: u8) = of_char c"
  by (simp add: unat_of_nat take_bit_eq_mod)

lemma as_bytes_inject [simp]: "as_bytes s = as_bytes t \<longleftrightarrow> s = t"
proof -
  have "inj (\<lambda>c. word_of_nat (of_char c) :: u8)"
    by (rule injI) (metis unat_as_byte of_char_eq_iff)
  then show ?thesis by (simp add: as_bytes_def inj_map_eq_map)
qed

subsection \<open>Collections\<close>

text \<open>
  \<open>all_unique\<close> inserts every value into a hash set and fails at the first one
  already present; that is \<open>distinct\<close>.  \<open>windows(2)\<close> is the list of adjacent
  pairs.
\<close>

fun windows2 :: "'a list \<Rightarrow> ('a \<times> 'a) list" where
  "windows2 (x # y # xs) = (x, y) # windows2 (y # xs)"
| "windows2 _ = []"

text \<open>Byte order of strings, as \<open>Ord for str\<close>.\<close>

fun str_less :: "string \<Rightarrow> string \<Rightarrow> bool" where
  "str_less [] [] = False"
| "str_less [] (_ # _) = True"
| "str_less (_ # _) [] = False"
| "str_less (x # xs) (y # ys) = (ord x < ord y \<or> (x = y \<and> str_less xs ys))"

lemma str_less_irrefl [simp]: "\<not> str_less s s"
  by (induction s) auto

end
