(* ===== verification/Ip_Addr.thy ===== *)
theory Ip_Addr
  imports Prelude
begin

section \<open>IP addresses and prefixes\<close>

text \<open>
  The part of \<open>std::net\<close> the networking sources use: \<open>IpAddr\<close> with its parser
  and printer, and the address-set reading of a prefix against which the
  overlap tests of the components are proved.  The parser follows the grammar
  of the standard library: four decimal octets without leading zeros, or eight
  groups of at most four hexadecimal digits with one \<open>::\<close> and an optional
  embedded IPv4 tail.
\<close>

datatype IpAddr = V4 u32 | V6 u128

primrec is_ipv4 :: "IpAddr \<Rightarrow> bool" where
  "is_ipv4 (V4 _) = True"
| "is_ipv4 (V6 _) = False"

abbreviation is_ipv6 :: "IpAddr \<Rightarrow> bool" where
  "is_ipv6 a \<equiv> \<not> is_ipv4 a"

definition is_unspecified :: "IpAddr \<Rightarrow> bool" where
  "is_unspecified a = (case a of V4 v \<Rightarrow> v = 0 | V6 v \<Rightarrow> v = 0)"

definition is_multicast :: "IpAddr \<Rightarrow> bool" where
  "is_multicast a = (case a of V4 v \<Rightarrow> drop_bit 28 v = 14 | V6 v \<Rightarrow> drop_bit 120 v = 255)"

subsection \<open>Parsing\<close>

definition radix_digit :: "nat \<Rightarrow> char \<Rightarrow> nat option" where
  "radix_digit radix c =
     (let d = (if is_ascii_digit c then Some (ord c - 48)
               else if 97 \<le> ord c \<and> ord c \<le> 122 then Some (ord c - 87)
               else if 65 \<le> ord c \<and> ord c \<le> 90 then Some (ord c - 55) else None)
      in case d of Some n \<Rightarrow> if n < radix then Some n else None | None \<Rightarrow> None)"

definition read_number :: "nat \<Rightarrow> nat \<Rightarrow> bool \<Rightarrow> nat \<Rightarrow> string \<Rightarrow> (nat \<times> string) option" where
  "read_number radix max_digits allow_zero_prefix bound s =
     (let ds = takeWhile (\<lambda>c. radix_digit radix c \<noteq> None) s;
          v = foldl (\<lambda>n c. n * radix + the (radix_digit radix c)) 0 ds
      in if ds = [] \<or> max_digits < length ds \<or>
            (\<not> allow_zero_prefix \<and> hd ds = CHR ''0'' \<and> 1 < length ds) \<or> bound < v
         then None else Some (v, drop (length ds) s))"

definition read_separator :: "char \<Rightarrow> nat \<Rightarrow> string \<Rightarrow> string option" where
  "read_separator sep index s =
     (if index = 0 then Some s
      else case s of c # t \<Rightarrow> if c = sep then Some t else None | [] \<Rightarrow> None)"

fun read_octets :: "nat \<Rightarrow> nat \<Rightarrow> string \<Rightarrow> (nat list \<times> string) option" where
  "read_octets 0 index s = Some ([], s)"
| "read_octets (Suc left) index s =
     (case read_separator CHR ''.'' index s of None \<Rightarrow> None
      | Some s1 \<Rightarrow> (case read_number 10 3 False 255 s1 of None \<Rightarrow> None
         | Some (v, s2) \<Rightarrow>
             map_option (\<lambda>(vs, s3). (v # vs, s3)) (read_octets left (Suc index) s2)))"

fun read_groups :: "nat \<Rightarrow> nat \<Rightarrow> string \<Rightarrow> nat list \<times> bool \<times> string" where
  "read_groups 0 index s = ([], False, s)"
| "read_groups (Suc left) index s =
     (case (if left = 0 then None
            else Option.bind (read_separator CHR '':'' index s) (read_octets 4 0)) of
        Some (os, s1) \<Rightarrow>
          ([os ! 0 * 256 + os ! 1, os ! 2 * 256 + os ! 3], True, s1)
      | None \<Rightarrow>
          (case Option.bind (read_separator CHR '':'' index s) (read_number 16 4 True 65535) of
             None \<Rightarrow> ([], False, s)
           | Some (g, s1) \<Rightarrow>
               (case read_groups left (Suc index) s1 of (gs, v4, s2) \<Rightarrow> (g # gs, v4, s2))))"

definition read_ipv6 :: "string \<Rightarrow> (nat list \<times> string) option" where
  "read_ipv6 s =
     (case read_groups 8 0 s of (head, head_ipv4, s1) \<Rightarrow>
        if length head = 8 then Some (head, s1)
        else if head_ipv4 then None
        else case s1 of
          c # d # s2 \<Rightarrow>
            if c = CHR '':'' \<and> d = CHR '':''
            then (case read_groups (7 - length head) 0 s2 of (tail, _, s3) \<Rightarrow>
                    Some (head @ replicate (8 - length head - length tail) 0 @ tail, s3))
            else None
        | _ \<Rightarrow> None)"

definition of_pieces :: "nat \<Rightarrow> nat list \<Rightarrow> nat" where
  "of_pieces base ps = foldl (\<lambda>n p. n * base + p) 0 ps"

definition parse_ipv6 :: "string \<Rightarrow> u128 option" where
  "parse_ipv6 s =
     (case read_ipv6 s of
        Some (gs, rest) \<Rightarrow> if rest = [] then Some (word_of_nat (of_pieces 65536 gs)) else None
      | None \<Rightarrow> None)"

definition parse_ip :: "string \<Rightarrow> IpAddr option" where
  "parse_ip s =
     (case read_octets 4 0 s of
        Some (os, rest) \<Rightarrow> if rest = [] then Some (V4 (word_of_nat (of_pieces 256 os))) else None
      | None \<Rightarrow> map_option V6 (parse_ipv6 s))"

subsection \<open>Printing\<close>

definition octets :: "u32 \<Rightarrow> nat list" where
  "octets a = map (\<lambda>k. unat (drop_bit k a) mod 256) [24, 16, 8, 0]"

definition segments :: "u128 \<Rightarrow> nat list" where
  "segments a = map (\<lambda>k. unat (drop_bit k a) mod 65536) [112, 96, 80, 64, 48, 32, 16, 0]"

fun join :: "char \<Rightarrow> string list \<Rightarrow> string" where
  "join c [] = []"
| "join c [w] = w"
| "join c (w # ws) = w @ c # join c ws"

definition ipv4_to_string :: "u32 \<Rightarrow> string" where
  "ipv4_to_string a = join CHR ''.'' (map nat_to_string (octets a))"

text \<open>The longest run of zero segments, the first one on a tie: (start, length).\<close>

fun zero_span :: "nat \<Rightarrow> nat list \<Rightarrow> nat \<times> nat \<Rightarrow> nat \<times> nat \<Rightarrow> nat \<times> nat" where
  "zero_span i [] current longest = longest"
| "zero_span i (g # gs) (start, len) longest =
     (if g = 0
      then let start' = (if len = 0 then i else start); current = (start', Suc len)
           in zero_span (Suc i) gs current (if snd longest < Suc len then current else longest)
      else zero_span (Suc i) gs (0, 0) longest)"

definition ipv6_to_string :: "u128 \<Rightarrow> string" where
  "ipv6_to_string a =
     (let gs = segments a; hex = (\<lambda>ps. join CHR '':'' (map nat_to_hex ps))
      in if drop_bit 32 a = 0xffff
         then ''::ffff:'' @ ipv4_to_string (ucast a)
         else case zero_span 0 gs (0, 0) (0, 0) of (start, len) \<Rightarrow>
           if 1 < len then hex (take start gs) @ ''::'' @ hex (drop (start + len) gs)
           else hex gs)"

definition ip_to_string :: "IpAddr \<Rightarrow> string" where
  "ip_to_string a = (case a of V4 v \<Rightarrow> ipv4_to_string v | V6 v \<Rightarrow> ipv6_to_string v)"

subsection \<open>Prefixes as sets of addresses\<close>

text \<open>
  A prefix with \<open>k\<close> host bits and base \<open>b\<close> stands for the addresses that agree
  with \<open>b\<close> above the lowest \<open>k\<close> bits.
\<close>

definition prefix_range :: "nat \<Rightarrow> 'w::len word \<Rightarrow> 'w word set" where
  "prefix_range k b = {a. drop_bit k a = drop_bit k b}"

lemma prefix_range_self [simp, intro]: "b \<in> prefix_range k b"
  by (simp add: prefix_range_def)

lemma drop_bit_mono_eq:
  fixes x y :: "'w::len word"
  assumes "drop_bit j x = drop_bit j y" and "j \<le> k"
  shows "drop_bit k x = drop_bit k y"
proof -
  from assms(2) obtain d where k: "k = d + j" by (metis add.commute le_Suc_ex)
  have "drop_bit k x = drop_bit d (drop_bit j x)"
    by (simp add: k drop_bit_drop_bit)
  also have "\<dots> = drop_bit d (drop_bit j y)"
    by (simp only: assms(1))
  also have "\<dots> = drop_bit k y"
    by (simp add: k drop_bit_drop_bit)
  finally show ?thesis .
qed

lemma prefix_range_meet:
  fixes x y :: "'w::len word"
  shows "prefix_range j x \<inter> prefix_range k y \<noteq> {} \<longleftrightarrow>
    drop_bit (max j k) x = drop_bit (max j k) y"
proof
  assume "prefix_range j x \<inter> prefix_range k y \<noteq> {}"
  then obtain a where "drop_bit j a = drop_bit j x" and "drop_bit k a = drop_bit k y"
    by (auto simp: prefix_range_def)
  then have "drop_bit (max j k) a = drop_bit (max j k) x"
    and "drop_bit (max j k) a = drop_bit (max j k) y"
    by (auto intro: drop_bit_mono_eq)
  then show "drop_bit (max j k) x = drop_bit (max j k) y" by simp
next
  assume eq: "drop_bit (max j k) x = drop_bit (max j k) y"
  show "prefix_range j x \<inter> prefix_range k y \<noteq> {}"
  proof (cases "j \<le> k")
    case True
    with eq have "x \<in> prefix_range k y" by (simp add: prefix_range_def max_def)
    then show ?thesis by blast
  next
    case False
    with eq have "y \<in> prefix_range j x" by (simp add: prefix_range_def max_def)
    then show ?thesis by blast
  qed
qed

text \<open>Comparing under a left-shifted all-ones mask is comparing the upper bits.\<close>

lemma masked_eq_iff:
  fixes x y :: "'w::len word"
  shows "x AND push_bit k (- 1) = y AND push_bit k (- 1) \<longleftrightarrow> drop_bit k x = drop_bit k y"
proof
  assume eq: "x AND push_bit k (- 1) = y AND push_bit k (- 1)"
  show "drop_bit k x = drop_bit k y"
  proof (rule bit_eqI)
    fix n
    have "bit (x AND push_bit k (- 1)) (k + n) = bit (y AND push_bit k (- 1)) (k + n)"
      by (simp only: eq)
    then show "bit (drop_bit k x) n = bit (drop_bit k y) n"
      by (auto simp: bit_simps dest: bit_imp_le_length)
  qed
next
  assume eq: "drop_bit k x = drop_bit k y"
  show "x AND push_bit k (- 1) = y AND push_bit k (- 1)"
  proof (rule bit_eqI)
    fix n
    have "bit (drop_bit k x) (n - k) = bit (drop_bit k y) (n - k)"
      by (simp only: eq)
    then show "bit (x AND push_bit k (- 1)) n = bit (y AND push_bit k (- 1)) n"
      by (auto simp: bit_simps)
  qed
qed

end
