(* ===== verification/Net_State.thy ===== *)
theory Net_State
  imports Prelude
begin

section \<open>The connection state machine and its operations\<close>

text \<open>
  \<open>state.rs\<close>: the ten connection states, the error codes every networking
  component reports, and the transition table.  \<open>operation.rs\<close>: one
  user-visible operation with its deadline and its event log.  The lemmas show
  that the log is a faithful history of the state machine, that cancellation
  and timeout always end in \<open>Disconnected\<close>, and that no path of the table
  reaches a connected state without authentication, policy and tunnel set-up.
\<close>

datatype NetworkState =
    Disconnected | Authenticating | FetchingConfig | PreparingTunnel | ConnectingPrimary
  | ConnectedPrimary | DegradedFallback | Reconnecting | Disconnecting | Error

datatype NetworkErrorCode =
    UnsupportedSchemaVersion | UnsupportedProtocolVersion | InvalidConfiguration
  | AuthenticationFailed | PermissionDenied | PolicySignatureInvalid | RouteDiscoveryFailed
  | RouteConflict | RouteJournalCorrupted | RouteJournalUnavailable | RouteRollbackFailed
  | TunnelStartFailed | PrimaryTransportUnavailable | FallbackTransportUnavailable
  | OperationCancelled | OperationTimedOut | SidecarUnavailable | InvalidStateTransition

type_synonym 'a net_result = "(NetworkErrorCode, 'a) result"

fun can_transition_to :: "NetworkState \<Rightarrow> NetworkState \<Rightarrow> bool" where
  "can_transition_to Disconnected next = (next = Authenticating)"
| "can_transition_to Authenticating next = (next \<in> {FetchingConfig, Disconnecting, Error})"
| "can_transition_to FetchingConfig next = (next \<in> {PreparingTunnel, Disconnecting, Error})"
| "can_transition_to PreparingTunnel next = (next \<in> {ConnectingPrimary, Disconnecting, Error})"
| "can_transition_to ConnectingPrimary next =
     (next \<in> {ConnectedPrimary, DegradedFallback, Disconnecting, Error})"
| "can_transition_to ConnectedPrimary next =
     (next \<in> {DegradedFallback, Reconnecting, Disconnecting, Error})"
| "can_transition_to DegradedFallback next = (next \<in> {Reconnecting, Disconnecting, Error})"
| "can_transition_to Reconnecting next =
     (next \<in> {ConnectedPrimary, DegradedFallback, Disconnecting, Error})"
| "can_transition_to Disconnecting next = (next = Disconnected)"
| "can_transition_to Error next = (next = Disconnected)"

text \<open>A method on \<open>&mut self\<close> takes the old value and returns the result with the new one.\<close>

definition transition_to :: "NetworkState \<Rightarrow> NetworkState \<Rightarrow> unit net_result \<times> NetworkState" where
  "transition_to self next =
     (if \<not> can_transition_to self next then (Err InvalidStateTransition, self)
      else (Ok (), next))"

subsection \<open>Operations\<close>

record NetworkStateEvent =
  ev_sequence :: u64
  ev_operation_id :: string
  ev_state :: NetworkState
  ev_reason :: "NetworkErrorCode option"

record NetworkOperation =
  op_id :: string
  op_state :: NetworkState
  op_deadline_ms :: u64
  op_next_sequence :: u64
  op_events :: "NetworkStateEvent list"

definition valid_operation_id :: "string \<Rightarrow> bool" where
  "valid_operation_id v \<longleftrightarrow>
     v \<noteq> [] \<and> length v \<le> 128 \<and>
     list_all (\<lambda>(i, c). is_ascii_alphanumeric c \<or> (0 < i \<and> c \<in> set ''._:-'')) (enumerate 0 v)"

definition op_record :: "NetworkErrorCode option \<Rightarrow> NetworkOperation \<Rightarrow> NetworkOperation" where
  "op_record reason op =
     op\<lparr>op_events := op_events op @
          [\<lparr>ev_sequence = op_next_sequence op, ev_operation_id = op_id op,
            ev_state = op_state op, ev_reason = reason\<rparr>],
        op_next_sequence := saturating_add (op_next_sequence op) 1\<rparr>"

definition op_new :: "string \<Rightarrow> u64 \<Rightarrow> u64 \<Rightarrow> NetworkOperation net_result" where
  "op_new operation_id started_at_ms timeout_ms =
     (if \<not> valid_operation_id operation_id \<or> timeout_ms = 0 then Err InvalidConfiguration
      else Ok (op_record None
        \<lparr>op_id = operation_id, op_state = Disconnected,
         op_deadline_ms = saturating_add started_at_ms timeout_ms,
         op_next_sequence = 1, op_events = []\<rparr>))"

definition op_transition ::
  "NetworkState \<Rightarrow> NetworkErrorCode option \<Rightarrow> NetworkOperation \<Rightarrow> unit net_result \<times> NetworkOperation" where
  "op_transition next reason op =
     (case transition_to (op_state op) next of
        (Err e, _) \<Rightarrow> (Err e, op)
      | (Ok _, s) \<Rightarrow> (Ok (), op_record reason (op\<lparr>op_state := s\<rparr>)))"

definition op_terminate :: "NetworkErrorCode \<Rightarrow> NetworkOperation \<Rightarrow> unit net_result \<times> NetworkOperation" where
  "op_terminate reason op =
     (case op_state op of
        Disconnected \<Rightarrow> (Ok (), op)
      | Error \<Rightarrow> op_transition Disconnected (Some reason) op
      | Disconnecting \<Rightarrow> op_transition Disconnected (Some reason) op
      | _ \<Rightarrow> (case op_transition Disconnecting (Some reason) op of
                (Err e, op') \<Rightarrow> (Err e, op')
              | (Ok _, op') \<Rightarrow> op_transition Disconnected (Some reason) op'))"

definition op_cancel :: "string \<Rightarrow> NetworkOperation \<Rightarrow> unit net_result \<times> NetworkOperation" where
  "op_cancel operation_id op =
     (if operation_id \<noteq> op_id op then (Err OperationCancelled, op)
      else op_terminate OperationCancelled op)"

definition op_check_timeout :: "u64 \<Rightarrow> NetworkOperation \<Rightarrow> bool net_result \<times> NetworkOperation" where
  "op_check_timeout now_ms op =
     (if now_ms < op_deadline_ms op \<or> op_state op = Disconnected then (Ok False, op)
      else case op_terminate OperationTimedOut op of
        (Err e, op') \<Rightarrow> (Err e, op')
      | (Ok _, op') \<Rightarrow> (Ok True, op'))"

lemmas op_defs = op_transition_def op_terminate_def op_cancel_def op_check_timeout_def

subsection \<open>The transition table\<close>

lemma transition_to_Ok: "transition_to s n = (Ok u, s') \<longleftrightarrow> can_transition_to s n \<and> s' = n"
  by (auto simp: transition_to_def)

lemma transition_to_Err:
  "transition_to s n = (Err e, s') \<longleftrightarrow> \<not> can_transition_to s n \<and> e = InvalidStateTransition \<and> s' = s"
  by (auto simp: transition_to_def)

text \<open>Every state has a way down: one transition or two end in \<open>Disconnected\<close>.\<close>

lemma down_transition:
  "s \<noteq> Disconnected \<Longrightarrow>
     can_transition_to s Disconnected \<or>
     (can_transition_to s Disconnecting \<and> can_transition_to Disconnecting Disconnected)"
  by (cases s) auto

text \<open>A path of the table: adjacent states are allowed transitions.\<close>

fun state_path :: "NetworkState list \<Rightarrow> bool" where
  "state_path (s # t # ss) = (can_transition_to s t \<and> state_path (t # ss))"
| "state_path _ = True"

definition connected :: "NetworkState \<Rightarrow> bool" where
  "connected s \<longleftrightarrow> s = ConnectedPrimary \<or> s = DegradedFallback"

lemma state_path_append:
  "state_path (xs @ [s]) \<Longrightarrow> can_transition_to s t \<Longrightarrow> state_path (xs @ [s, t])"
  by (induction xs rule: state_path.induct) auto

lemma dead_end:
  assumes "state_path (s # p)" and "s = Disconnecting \<or> s = Error" and "Disconnected \<notin> set p"
  shows "p = []"
  using assms by (cases p) auto

text \<open>The only way forward from a set-up state on a path that ends connected.\<close>

fun setup_next :: "NetworkState \<Rightarrow> NetworkState" where
  "setup_next Disconnected = Authenticating"
| "setup_next Authenticating = FetchingConfig"
| "setup_next FetchingConfig = PreparingTunnel"
| "setup_next _ = ConnectingPrimary"

lemma setup_step:
  assumes path: "state_path (x # p @ [s])" and nd: "Disconnected \<notin> set p" and c: "connected s"
    and x: "x \<in> {Disconnected, Authenticating, FetchingConfig, PreparingTunnel}"
  shows "\<exists>p'. p = setup_next x # p' \<and> state_path (setup_next x # p' @ [s]) \<and> Disconnected \<notin> set p'"
proof (cases p)
  case Nil
  with path x c show ?thesis by (auto simp: connected_def)
next
  case (Cons t p')
  with path have t: "can_transition_to x t" and rest: "state_path (t # p' @ [s])"
    by auto
  have "t \<noteq> Disconnecting \<and> t \<noteq> Error"
    using dead_end [OF rest] nd c Cons by (auto simp: connected_def)
  with t x have "t = setup_next x" by auto
  with Cons rest nd show ?thesis by auto
qed

text \<open>
  Claim C39. No path of the transition table reaches a connected state without passing, since the
  last \<open>Disconnected\<close>, through authentication, configuration, tunnel preparation and the primary
  connection attempt, in this order.
\<close>

theorem connected_only_after_setup:
  assumes "state_path (Disconnected # p @ [s])" and "Disconnected \<notin> set p" and "connected s"
  shows "take 4 p = [Authenticating, FetchingConfig, PreparingTunnel, ConnectingPrimary]"
proof -
  from setup_step [OF assms] obtain p1 where p1: "p = Authenticating # p1"
    "state_path (Authenticating # p1 @ [s])" "Disconnected \<notin> set p1" by auto
  from setup_step [OF p1(2,3) assms(3)] obtain p2 where p2: "p1 = FetchingConfig # p2"
    "state_path (FetchingConfig # p2 @ [s])" "Disconnected \<notin> set p2" by auto
  from setup_step [OF p2(2,3) assms(3)] obtain p3 where p3: "p2 = PreparingTunnel # p3"
    "state_path (PreparingTunnel # p3 @ [s])" "Disconnected \<notin> set p3" by auto
  from setup_step [OF p3(2,3) assms(3)] obtain p4 where "p3 = ConnectingPrimary # p4" by auto
  with p1(1) p2(1) p3(1) show ?thesis by simp
qed

theorem connected_only_after_setup_witness:
  "state_path (Disconnected # [Authenticating, FetchingConfig, PreparingTunnel, ConnectingPrimary]
     @ [DegradedFallback]) \<and>
   take 4 [Authenticating, FetchingConfig, PreparingTunnel, ConnectingPrimary] =
     [Authenticating, FetchingConfig, PreparingTunnel, ConnectingPrimary]"
  using connected_only_after_setup
    [of "[Authenticating, FetchingConfig, PreparingTunnel, ConnectingPrimary]" DegradedFallback]
  by (simp add: connected_def)

subsection \<open>The event log\<close>

text \<open>The operations a caller can reach: a new one, changed by any sequence of public calls.\<close>

inductive op_reachable :: "NetworkOperation \<Rightarrow> bool" where
  op_start: "op_new i started timeout = Ok op \<Longrightarrow> op_reachable op"
| op_move: "op_reachable op \<Longrightarrow> op_reachable (snd (op_transition next reason op))"
| op_stop: "op_reachable op \<Longrightarrow> op_reachable (snd (op_cancel i op))"
| op_tick: "op_reachable op \<Longrightarrow> op_reachable (snd (op_check_timeout now op))"

definition op_log_ok :: "NetworkOperation \<Rightarrow> bool" where
  "op_log_ok op \<longleftrightarrow>
     (\<exists>es e. op_events op = es @ [e] \<and> ev_state e = op_state op \<and>
        state_path (map ev_state es @ [op_state op]) \<and>
        ev_state (hd (op_events op)) = Disconnected) \<and>
     list_all (\<lambda>e. ev_operation_id e = op_id op) (op_events op) \<and>
     map (unat \<circ> ev_sequence) (op_events op) =
       map (\<lambda>i. min (Suc i) (2 ^ 64 - 1)) [0..<length (op_events op)] \<and>
     unat (op_next_sequence op) = min (Suc (length (op_events op))) (2 ^ 64 - 1)"

lemma op_log_ok_record:
  assumes ok: "op_log_ok op" and t: "can_transition_to (op_state op) next"
  shows "op_log_ok (op_record reason (op\<lparr>op_state := next\<rparr>))"
proof -
  from ok obtain es e where es: "op_events op = es @ [e]" "ev_state e = op_state op"
    "state_path (map ev_state es @ [op_state op])"
    by (auto simp: op_log_ok_def)
  have "state_path (map ev_state es @ [op_state op, next])"
    by (rule state_path_append [OF es(3) t])
  moreover have "unat (saturating_add (op_next_sequence op) 1) =
      min (Suc (Suc (length (op_events op)))) (2 ^ 64 - 1)"
    using ok by (simp add: op_log_ok_def sat_simps)
  ultimately show ?thesis
    using ok es by (auto simp: op_log_ok_def op_record_def hd_append)
qed

lemma op_log_ok_new: "op_new i started timeout = Ok op \<Longrightarrow> op_log_ok op"
  by (auto simp: op_new_def op_record_def op_log_ok_def sat_simps split: if_splits)

lemma op_log_ok_transition: "op_log_ok op \<Longrightarrow> op_log_ok (snd (op_transition next reason op))"
  by (auto simp: op_transition_def transition_to_def op_log_ok_record)

lemma op_transition_Disconnected:
  "op_state op \<in> {Error, Disconnecting} \<Longrightarrow>
     op_transition Disconnected reason op = (Ok (), op_record reason (op\<lparr>op_state := Disconnected\<rparr>))"
  by (auto simp: op_transition_def transition_to_def)

lemma op_state_record [simp]: "op_state (op_record reason op) = op_state op"
  by (simp add: op_record_def)

lemma op_id_record [simp]: "op_id (op_record reason op) = op_id op"
  by (simp add: op_record_def)

lemma op_terminate_cases:
  "op_terminate reason op =
     (Ok (), if op_state op = Disconnected then op
             else if op_state op \<in> {Error, Disconnecting}
             then op_record (Some reason) (op\<lparr>op_state := Disconnected\<rparr>)
             else op_record (Some reason)
                    ((op_record (Some reason) (op\<lparr>op_state := Disconnecting\<rparr>))\<lparr>op_state := Disconnected\<rparr>))"
  by (cases "op_state op")
    (auto simp: op_terminate_def op_transition_def transition_to_def)

lemma op_log_ok_terminate: "op_log_ok op \<Longrightarrow> op_log_ok (snd (op_terminate reason op))"
proof -
  assume ok: "op_log_ok op"
  show ?thesis
  proof (cases "op_state op \<in> {Disconnected, Error, Disconnecting}")
    case True
    with ok show ?thesis by (auto simp: op_terminate_cases intro!: op_log_ok_record)
  next
    case False
    then have "can_transition_to (op_state op) Disconnecting" by (cases "op_state op") auto
    with ok have "op_log_ok (op_record (Some reason) (op\<lparr>op_state := Disconnecting\<rparr>))"
      by (rule op_log_ok_record)
    with False show ?thesis
      by (auto simp: op_terminate_cases intro!: op_log_ok_record)
  qed
qed

lemma op_reachable_log_ok: "op_reachable op \<Longrightarrow> op_log_ok op"
proof (induction rule: op_reachable.induct)
  case (op_start i started timeout op)
  then show ?case by (rule op_log_ok_new)
next
  case (op_move op nxt reason)
  from op_move.IH show ?case by (rule op_log_ok_transition)
next
  case (op_stop op i)
  then show ?case by (auto simp: op_cancel_def op_log_ok_terminate)
next
  case (op_tick op now)
  then show ?case
    using op_log_ok_terminate [of op OperationTimedOut]
    by (auto simp: op_check_timeout_def op_terminate_cases)
qed

text \<open>
  Claim C40. However an operation is driven, its event log is the history of the state machine: it
  starts in \<open>Disconnected\<close>, adjacent events are allowed transitions, the last event carries the
  current state, every event names this operation, and the sequence numbers count from one
  (saturating at the largest 64-bit value instead of wrapping).
\<close>

theorem event_log_is_history:
  assumes "op_reachable op"
  shows "state_path (map ev_state (op_events op)) \<and>
    ev_state (hd (op_events op)) = Disconnected \<and>
    op_events op \<noteq> [] \<and> ev_state (last (op_events op)) = op_state op \<and>
    list_all (\<lambda>e. ev_operation_id e = op_id op) (op_events op) \<and>
    map (unat \<circ> ev_sequence) (op_events op) =
      map (\<lambda>i. min (Suc i) (2 ^ 64 - 1)) [0..<length (op_events op)]"
  using op_reachable_log_ok [OF assms] by (auto simp: op_log_ok_def)

theorem event_log_is_history_witness:
  "state_path (map ev_state (op_events
     (snd (op_cancel ''op.1'' (snd (op_transition Authenticating None
        (the_ok (op_new ''op.1'' 1000 500))))))))"
proof -
  have "\<exists>op. op_new ''op.1'' 1000 500 = Ok op"
    by (simp add: op_new_def valid_operation_id_def char_class_defs enumerate_eq_zip)
  then have "op_reachable (the_ok (op_new ''op.1'' 1000 500))"
    by (auto intro: op_start)
  then have "op_reachable (snd (op_cancel ''op.1'' (snd (op_transition Authenticating None
        (the_ok (op_new ''op.1'' 1000 500))))))"
    by (intro op_stop op_move)
  then show ?thesis using event_log_is_history by blast
qed

text \<open>
  Cancelling an operation by its own identifier and checking it after its deadline never
  fail and always leave it \<open>Disconnected\<close>; before the deadline, or once disconnected, the check
  changes nothing, and a foreign identifier is refused without effect.
\<close>

theorem cancel_and_timeout_disconnect:
  "(\<exists>op'. op_cancel (op_id op) op = (Ok (), op') \<and> op_state op' = Disconnected) \<and>
   (i \<noteq> op_id op \<longrightarrow> op_cancel i op = (Err OperationCancelled, op)) \<and>
   (if now < op_deadline_ms op \<or> op_state op = Disconnected
    then op_check_timeout now op = (Ok False, op)
    else \<exists>op'. op_check_timeout now op = (Ok True, op') \<and> op_state op' = Disconnected)"
  by (auto simp: op_cancel_def op_check_timeout_def op_terminate_cases)

theorem cancel_and_timeout_disconnect_witness:
  "\<exists>op'. op_check_timeout 7
     \<lparr>op_id = ''op.1'', op_state = Reconnecting, op_deadline_ms = 5, op_next_sequence = 3,
      op_events = []\<rparr> = (Ok True, op') \<and> op_state op' = Disconnected"
  using cancel_and_timeout_disconnect [of "\<lparr>op_id = ''op.1'', op_state = Reconnecting,
      op_deadline_ms = 5, op_next_sequence = 3, op_events = []\<rparr>" "''op.2''" 7] by simp

end
