(* ===== verification/Route_Net.thy ===== *)
theory Route_Net
  imports Ip_Addr Net_State
begin

section \<open>Route plans and their conflicts\<close>

text \<open>
  The data of \<open>networking/route.rs\<close> and the checks a plan passes before any
  route is touched: \<open>IpNetwork::parse\<close> and \<open>overlaps\<close>, \<open>validate_plan\<close>,
  \<open>RouteConflictPolicy\<close> and \<open>reject_conflicts\<close>.  The overlap test is proved to
  decide whether the two prefixes share an address, and the two checks are
  proved to establish what the orchestrator relies on.  The two one-byte fields
  of \<open>IpNetwork\<close> are natural numbers: the only arithmetic on them is
  \<open>bits - prefix\<close> behind the test \<open>prefix <= bits\<close>.
\<close>

record RouteSpec =
  rs_destination :: string
  rs_interface :: string

record ExistingRoute =
  er_destination :: string
  er_interface :: string
  er_gateway :: "string option"

subsection \<open>Networks\<close>

record IpNetwork =
  net_bits :: nat
  net_network :: u128
  net_prefix :: nat

definition IpNetwork_mask :: "nat \<Rightarrow> nat \<Rightarrow> u128" where
  "IpNetwork_mask bits prefix = (if prefix = 0 then 0 else push_bit (bits - prefix) (- 1))"

definition IpNetwork_masked :: "u128 \<Rightarrow> nat \<Rightarrow> nat \<Rightarrow> u128" where
  "IpNetwork_masked v bits prefix = v AND IpNetwork_mask bits prefix"

definition IpNetwork_parse :: "string \<Rightarrow> IpNetwork net_result" where
  "IpNetwork_parse s =
     (case rsplit_once CHR ''/'' s of None \<Rightarrow> Err InvalidConfiguration
      | Some (address, prefix) \<Rightarrow>
     (case parse_ip address of None \<Rightarrow> Err InvalidConfiguration
      | Some address \<Rightarrow>
     (case parse_u8 prefix of None \<Rightarrow> Err InvalidConfiguration
      | Some prefix \<Rightarrow>
        let (bits, v) = (case address of V4 a \<Rightarrow> (32, ucast a) | V6 a \<Rightarrow> (128, a))
        in if bits < prefix then Err InvalidConfiguration
           else Ok \<lparr>net_bits = bits, net_network = IpNetwork_masked v bits prefix,
                    net_prefix = prefix\<rparr>)))"

definition IpNetwork_overlaps :: "IpNetwork \<Rightarrow> IpNetwork \<Rightarrow> bool" where
  "IpNetwork_overlaps a b \<longleftrightarrow>
     (if net_bits a \<noteq> net_bits b then False
      else let prefix = (if net_prefix a < net_prefix b then net_prefix a else net_prefix b)
           in IpNetwork_masked (net_network a) (net_bits a) prefix =
              IpNetwork_masked (net_network b) (net_bits a) prefix)"

text \<open>The masked value by integer division, for evaluation.\<close>

lemma IpNetwork_masked_code [code]:
  "IpNetwork_masked v bits prefix =
     (if prefix = 0 then 0 else word_of_int (uint v div 2 ^ (bits - prefix) * 2 ^ (bits - prefix)))"
proof (cases "prefix = 0")
  case False
  let ?k = "bits - prefix"
  have "v AND push_bit ?k (- 1) = push_bit ?k (drop_bit ?k v)"
    by (rule bit_eqI) (auto simp: bit_simps dest: bit_imp_le_length)
  also have "\<dots> = word_of_int (push_bit ?k (drop_bit ?k (uint v)))"
    by (rule bit_eqI) (auto simp: bit_simps dest: bit_imp_le_length)
  finally show ?thesis
    using False by (simp add: IpNetwork_masked_def IpNetwork_mask_def push_bit_eq_mult drop_bit_eq_div)
qed (simp add: IpNetwork_masked_def IpNetwork_mask_def)

subsection \<open>Plans\<close>

fun validate_plan_routes :: "IpNetwork list \<Rightarrow> RouteSpec list \<Rightarrow> unit net_result" where
  "validate_plan_routes parsed [] = Ok ()"
| "validate_plan_routes parsed (route # routes) =
     (if rs_interface route = [] then Err InvalidConfiguration
      else case IpNetwork_parse (rs_destination route) of Err e \<Rightarrow> Err e
      | Ok network \<Rightarrow>
          if list_ex (\<lambda>existing. IpNetwork_overlaps existing network) parsed
          then Err InvalidConfiguration
          else validate_plan_routes (parsed @ [network]) routes)"

definition validate_plan :: "string \<Rightarrow> string \<Rightarrow> RouteSpec list \<Rightarrow> unit net_result" where
  "validate_plan transaction_id profile_id routes =
     (if transaction_id = [] \<or> profile_id = [] \<or> routes = [] then Err InvalidConfiguration
      else validate_plan_routes [] routes)"

subsection \<open>Conflicts with the routes of the system\<close>

definition valid_macos_utun :: "string \<Rightarrow> bool" where
  "valid_macos_utun s \<longleftrightarrow>
     5 \<le> length s \<and> length s \<le> 15 \<and> starts_with s ''utun'' \<and>
     (length s = 5 \<or> s ! 4 \<noteq> CHR ''0'') \<and> list_all is_ascii_digit (drop 4 s)"

text \<open>The hash set of trusted interfaces is a list without repetition.\<close>

record RouteConflictPolicy =
  mihomo_tun_interfaces :: "string list"

definition with_mihomo_tun_interfaces :: "string list \<Rightarrow> RouteConflictPolicy net_result" where
  "with_mihomo_tun_interfaces values =
     (let interfaces = remdups values
      in if 1 < length values \<or> length interfaces \<noteq> length values \<or>
            list_ex (\<lambda>i. \<not> valid_macos_utun i) interfaces
         then Err InvalidConfiguration
         else Ok \<lparr>mihomo_tun_interfaces = interfaces\<rparr>)"

definition permits_trusted_mihomo_covering_route ::
  "RouteConflictPolicy \<Rightarrow> ExistingRoute \<Rightarrow> IpNetwork \<Rightarrow> IpNetwork \<Rightarrow> bool" where
  "permits_trusted_mihomo_covering_route policy existing existing_network desired \<longleftrightarrow>
     er_interface existing \<in> set (mihomo_tun_interfaces policy) \<and>
     net_prefix existing_network < net_prefix desired"

fun reject_existing ::
  "RouteConflictPolicy \<Rightarrow> IpNetwork list \<Rightarrow> ExistingRoute list \<Rightarrow> unit net_result" where
  "reject_existing policy desired [] = Ok ()"
| "reject_existing policy desired (route # routes) =
     (case IpNetwork_parse (er_destination route) of Err e \<Rightarrow> Err e
      | Ok existing \<Rightarrow>
          if net_prefix existing = 0 then reject_existing policy desired routes
          else if list_ex (\<lambda>candidate. IpNetwork_overlaps candidate existing \<and>
                 \<not> permits_trusted_mihomo_covering_route policy route existing candidate) desired
          then Err RouteConflict
          else reject_existing policy desired routes)"

definition reject_conflicts ::
  "ExistingRoute list \<Rightarrow> RouteSpec list \<Rightarrow> RouteConflictPolicy \<Rightarrow> unit net_result" where
  "reject_conflicts existing desired policy =
     and_then (collect_results (\<lambda>route. IpNetwork_parse (rs_destination route)) desired)
       (\<lambda>networks. reject_existing policy networks existing)"

subsection \<open>The addresses of a network\<close>

text \<open>A family and an address; \<open>net_wf\<close> is what \<open>IpNetwork::parse\<close> returns.\<close>

definition net_addresses :: "IpNetwork \<Rightarrow> (nat \<times> u128) set" where
  "net_addresses n = Pair (net_bits n) ` prefix_range (net_bits n - net_prefix n) (net_network n)"

definition net_wf :: "IpNetwork \<Rightarrow> bool" where
  "net_wf n \<longleftrightarrow> (net_bits n = 32 \<or> net_bits n = 128) \<and> net_prefix n \<le> net_bits n \<and>
     drop_bit (net_bits n) (net_network n) = 0"

lemma drop_bit_length_word [simp]: "drop_bit 128 (w :: u128) = 0"
  by (rule bit_eqI) (auto simp: bit_simps dest: bit_imp_le_length)

lemma drop_bit_ucast_zero [simp]: "drop_bit 32 (ucast (a :: u32) :: u128) = 0"
  by (rule bit_eqI) (auto simp: bit_simps dest: bit_imp_le_length)

lemma IpNetwork_parse_wf: "IpNetwork_parse s = Ok n \<Longrightarrow> net_wf n"
  by (auto simp: IpNetwork_parse_def net_wf_def IpNetwork_masked_def split: option.splits IpAddr.splits if_splits)

text \<open>Comparing under the mask of a network is comparing the bits above the host part.\<close>

lemma IpNetwork_mask_eq:
  assumes "drop_bit bits x = 0" and "drop_bit bits y = 0" and "p \<le> bits"
  shows "IpNetwork_masked x bits p = IpNetwork_masked y bits p \<longleftrightarrow>
    drop_bit (bits - p) x = drop_bit (bits - p) y"
  using assms masked_eq_iff [of x "bits - p" y]
  by (cases "p = 0") (simp_all add: IpNetwork_mask_def IpNetwork_masked_def)

lemma net_addresses_meet:
  "net_addresses a \<inter> net_addresses b \<noteq> {} \<longleftrightarrow>
     net_bits a = net_bits b \<and>
     prefix_range (net_bits a - net_prefix a) (net_network a) \<inter>
     prefix_range (net_bits b - net_prefix b) (net_network b) \<noteq> {}"
  by (auto simp: net_addresses_def)

lemma max_diff_min: "p \<le> b \<Longrightarrow> q \<le> b \<Longrightarrow> max (b - p) (b - q) = b - (if p < q then p else q)"
  for b p q :: nat
  by auto

lemma overlaps_iff_meet:
  assumes "net_wf a" and "net_wf b"
  shows "IpNetwork_overlaps a b \<longleftrightarrow> net_addresses a \<inter> net_addresses b \<noteq> {}"
proof (cases "net_bits a = net_bits b")
  case True
  let ?p = "if net_prefix a < net_prefix b then net_prefix a else net_prefix b"
  have "IpNetwork_overlaps a b \<longleftrightarrow>
      drop_bit (net_bits a - ?p) (net_network a) = drop_bit (net_bits a - ?p) (net_network b)"
    using assms True IpNetwork_mask_eq [of "net_bits a" "net_network a" "net_network b" ?p]
    by (simp add: IpNetwork_overlaps_def Let_def net_wf_def)
  with assms True show ?thesis
    by (simp add: net_addresses_meet prefix_range_meet max_diff_min net_wf_def)
next
  case False
  then show ?thesis by (simp add: IpNetwork_overlaps_def net_addresses_meet)
qed

text \<open>
  Claim C22. On the networks the parser returns, the masked comparison of \<open>IpNetwork::overlaps\<close>
  answers exactly whether the two prefixes have an address of the same family in common.
\<close>

theorem overlaps_decides_common_address:
  assumes "IpNetwork_parse s = Ok a" and "IpNetwork_parse t = Ok b"
  shows "IpNetwork_overlaps a b \<longleftrightarrow> (\<exists>x. x \<in> net_addresses a \<and> x \<in> net_addresses b)"
  using overlaps_iff_meet [OF IpNetwork_parse_wf [OF assms(1)] IpNetwork_parse_wf [OF assms(2)]]
  by auto

theorem overlaps_decides_common_address_witness:
  "\<exists>a b. IpNetwork_parse ''10.64.0.0/16'' = Ok a \<and> IpNetwork_parse ''10.64.1.0/24'' = Ok b \<and>
     (IpNetwork_overlaps a b \<longleftrightarrow> (\<exists>x. x \<in> net_addresses a \<and> x \<in> net_addresses b))"
proof -
  have "is_ok (IpNetwork_parse ''10.64.0.0/16'')" and "is_ok (IpNetwork_parse ''10.64.1.0/24'')"
    by code_simp+
  then obtain a b where "IpNetwork_parse ''10.64.0.0/16'' = Ok a" "IpNetwork_parse ''10.64.1.0/24'' = Ok b"
    by (auto simp: is_ok_iff)
  with overlaps_decides_common_address show ?thesis by blast
qed

subsection \<open>What an accepted plan guarantees\<close>

definition addresses_of :: "string \<Rightarrow> (nat \<times> u128) set" where
  "addresses_of destination =
     (case IpNetwork_parse destination of Ok n \<Rightarrow> net_addresses n | Err _ \<Rightarrow> {})"

definition route_ok :: "RouteSpec \<Rightarrow> bool" where
  "route_ok r \<longleftrightarrow> rs_interface r \<noteq> [] \<and> is_ok (IpNetwork_parse (rs_destination r))"

definition routes_disjoint :: "RouteSpec \<Rightarrow> RouteSpec \<Rightarrow> bool" where
  "routes_disjoint r q \<longleftrightarrow> addresses_of (rs_destination r) \<inter> addresses_of (rs_destination q) = {}"

lemma net_addresses_nonempty: "net_addresses n \<noteq> {}"
  by (auto simp: net_addresses_def)

lemma overlaps_addresses_of:
  assumes "IpNetwork_parse s = Ok a" and "IpNetwork_parse t = Ok b"
  shows "IpNetwork_overlaps a b \<longleftrightarrow> addresses_of s \<inter> addresses_of t \<noteq> {}"
  using overlaps_iff_meet [OF IpNetwork_parse_wf [OF assms(1)] IpNetwork_parse_wf [OF assms(2)]]
    assms by (simp add: addresses_of_def)

lemma validate_plan_routes_Ok:
  assumes "list_all net_wf parsed"
  shows "validate_plan_routes parsed rs = Ok () \<longleftrightarrow>
    list_all route_ok rs \<and>
    (\<forall>n\<in>set parsed. \<forall>r\<in>set rs. net_addresses n \<inter> addresses_of (rs_destination r) = {}) \<and>
    sorted_wrt routes_disjoint rs"
  using assms
proof (induction rs arbitrary: parsed)
  case Nil
  then show ?case by simp
next
  case (Cons r rs)
  show ?case
  proof (cases "IpNetwork_parse (rs_destination r)")
    case (Err e)
    then show ?thesis by (simp add: route_ok_def)
  next
    case (Ok n)
    then have wf: "net_wf n" and adr: "addresses_of (rs_destination r) = net_addresses n"
      by (auto simp: IpNetwork_parse_wf addresses_of_def)
    have "list_ex (\<lambda>m. IpNetwork_overlaps m n) parsed \<longleftrightarrow>
        (\<exists>m\<in>set parsed. net_addresses m \<inter> net_addresses n \<noteq> {})"
      using Cons.prems wf by (auto simp: list_ex_iff list_all_iff overlaps_iff_meet)
    moreover have "list_all net_wf (parsed @ [n])" using Cons.prems wf by simp
    ultimately show ?thesis
      using Ok adr Cons.IH [of "parsed @ [n]"]
      by (cases "rs_interface r = []"; cases "\<exists>m\<in>set parsed. net_addresses m \<inter> net_addresses n \<noteq> {}")
        (simp_all add: route_ok_def routes_disjoint_def ball_Un, blast+)
  qed
qed

text \<open>
  Claim C23. \<open>validate_plan\<close> accepts exactly the plans with non-empty identifiers and at least one
  route in which every route has an interface and a readable destination and no two destinations
  share an address.
\<close>

theorem validate_plan_accepts_disjoint_plans:
  "validate_plan transaction_id profile_id routes = Ok () \<longleftrightarrow>
     transaction_id \<noteq> [] \<and> profile_id \<noteq> [] \<and> routes \<noteq> [] \<and>
     list_all route_ok routes \<and> sorted_wrt routes_disjoint routes"
  by (auto simp: validate_plan_def validate_plan_routes_Ok)

lemma IpNetwork_parse_error: "IpNetwork_parse s = Err e \<Longrightarrow> e = InvalidConfiguration"
  by (auto simp: IpNetwork_parse_def split: if_splits option.splits prod.splits)

lemma validate_plan_routes_error: "validate_plan_routes parsed rs = Err e \<Longrightarrow> e = InvalidConfiguration"
  by (induction parsed rs rule: validate_plan_routes.induct)
    (auto split: if_splits result.splits dest: IpNetwork_parse_error)

lemma prefix_range_mono: "j \<le> k \<Longrightarrow> drop_bit k x = drop_bit k y \<Longrightarrow> prefix_range j x \<subseteq> prefix_range k y"
  by (auto simp: prefix_range_def dest: drop_bit_mono_eq)

text \<open>Overlapping prefixes are nested: the shorter one covers the longer one.\<close>

lemma overlap_covers:
  assumes "net_wf a" and "net_wf b" and "IpNetwork_overlaps a b" and "net_prefix b \<le> net_prefix a"
  shows "net_addresses a \<subseteq> net_addresses b"
proof -
  have bits: "net_bits a = net_bits b"
    and meet: "prefix_range (net_bits a - net_prefix a) (net_network a) \<inter>
      prefix_range (net_bits a - net_prefix b) (net_network b) \<noteq> {}"
    using assms(1-3) by (auto simp: overlaps_iff_meet net_addresses_meet)
  have "max (net_bits a - net_prefix a) (net_bits a - net_prefix b) = net_bits a - net_prefix b"
    using assms(4) by simp
  with meet have "drop_bit (net_bits a - net_prefix b) (net_network a) =
      drop_bit (net_bits a - net_prefix b) (net_network b)"
    by (simp add: prefix_range_meet)
  then have "prefix_range (net_bits a - net_prefix a) (net_network a) \<subseteq>
      prefix_range (net_bits a - net_prefix b) (net_network b)"
    by (rule prefix_range_mono [rotated]) (use assms(4) in simp)
  with bits show ?thesis by (auto simp: net_addresses_def)
qed

definition route_tolerated :: "RouteConflictPolicy \<Rightarrow> ExistingRoute \<Rightarrow> RouteSpec \<Rightarrow> bool" where
  "route_tolerated policy e r \<longleftrightarrow>
     addresses_of (er_destination e) \<inter> addresses_of (rs_destination r) = {} \<or>
     er_interface e \<in> set (mihomo_tun_interfaces policy) \<and>
     addresses_of (rs_destination r) \<subseteq> addresses_of (er_destination e)"

lemma reject_existing_Ok:
  assumes "reject_existing policy networks existing = Ok ()"
    and "e \<in> set existing" and "n \<in> set networks" and "net_wf n"
  shows "\<exists>m. IpNetwork_parse (er_destination e) = Ok m \<and>
    (net_prefix m = 0 \<or> net_addresses m \<inter> net_addresses n = {} \<or>
     er_interface e \<in> set (mihomo_tun_interfaces policy) \<and> net_addresses n \<subseteq> net_addresses m)"
  using assms
proof (induction existing)
  case Nil
  then show ?case by simp
next
  case (Cons r existing)
  from Cons.prems(1) obtain m where m: "IpNetwork_parse (er_destination r) = Ok m"
    by (auto split: result.splits)
  note wf = IpNetwork_parse_wf [OF m]
  from Cons.prems(1) m have rest: "reject_existing policy networks existing = Ok ()"
    by (auto split: if_splits)
  show ?case
  proof (cases "e = r")
    case False
    with Cons rest show ?thesis by auto
  next
    case True
    have "net_prefix m = 0 \<or> \<not> IpNetwork_overlaps n m \<or>
        permits_trusted_mihomo_covering_route policy r m n"
      using Cons.prems(1,3) m by (auto simp: list_ex_iff split: if_splits)
    with overlap_covers [OF Cons.prems(4) wf]
    have "net_prefix m = 0 \<or> \<not> IpNetwork_overlaps n m \<or>
        er_interface r \<in> set (mihomo_tun_interfaces policy) \<and> net_addresses n \<subseteq> net_addresses m"
      by (auto simp: permits_trusted_mihomo_covering_route_def)
    with True m overlaps_iff_meet [OF Cons.prems(4) wf] show ?thesis
      by (simp add: Int_commute)
  qed
qed

text \<open>
  Claim C24. When \<open>reject_conflicts\<close> lets a plan pass, every route of the system is a default route,
  shares no address with any planned route, or belongs to the trusted TUN interface and covers the
  planned route entirely; every destination, existing or planned, could be read.
\<close>

theorem accepted_plan_has_no_conflict:
  assumes "reject_conflicts existing desired policy = Ok ()"
    and "e \<in> set existing" and "r \<in> set desired"
  shows "\<exists>m. IpNetwork_parse (er_destination e) = Ok m \<and>
    is_ok (IpNetwork_parse (rs_destination r)) \<and>
    (net_prefix m = 0 \<or> route_tolerated policy e r)"
proof -
  from assms(1) obtain networks where nets:
    "collect_results (\<lambda>q. IpNetwork_parse (rs_destination q)) desired = Ok networks"
    and ok: "reject_existing policy networks existing = Ok ()"
    by (auto simp: reject_conflicts_def and_then_Ok)
  from nets assms(3) obtain n where n: "n \<in> set networks" "IpNetwork_parse (rs_destination r) = Ok n"
    by (auto dest: collect_results_member)
  from reject_existing_Ok [OF ok assms(2) n(1) IpNetwork_parse_wf [OF n(2)]]
  obtain m where "IpNetwork_parse (er_destination e) = Ok m" "net_prefix m = 0 \<or>
      net_addresses m \<inter> net_addresses n = {} \<or>
      er_interface e \<in> set (mihomo_tun_interfaces policy) \<and> net_addresses n \<subseteq> net_addresses m"
    by blast
  with n(2) show ?thesis by (simp add: route_tolerated_def addresses_of_def)
qed

theorem accepted_plan_has_no_conflict_witness:
  "\<exists>m. IpNetwork_parse ''8.0.0.0/5'' = Ok m \<and> is_ok (IpNetwork_parse ''10.64.0.0/16'') \<and>
     (net_prefix m = 0 \<or> route_tolerated \<lparr>mihomo_tun_interfaces = [''utun1024'']\<rparr>
        \<lparr>er_destination = ''8.0.0.0/5'', er_interface = ''utun1024'', er_gateway = None\<rparr>
        \<lparr>rs_destination = ''10.64.0.0/16'', rs_interface = ''utun7''\<rparr>)"
proof -
  let ?e = "\<lparr>er_destination = ''8.0.0.0/5'', er_interface = ''utun1024'', er_gateway = None\<rparr>"
  let ?r = "\<lparr>rs_destination = ''10.64.0.0/16'', rs_interface = ''utun7''\<rparr>"
  have "reject_conflicts [?e] [?r] \<lparr>mihomo_tun_interfaces = [''utun1024'']\<rparr> = Ok ()"
    by code_simp
  from accepted_plan_has_no_conflict [OF this, of ?e ?r] show ?thesis by simp
qed

end
