(* ===== verification/Route.thy ===== *)
theory Route
  imports Route_Net "HOL-Library.Multiset"
begin

section \<open>Transactional routes\<close>

text \<open>
  \<open>networking/route.rs\<close>: the journalled route transactions of
  \<open>RouteOrchestrator\<close>.  The two traits are records of operations on a state of
  their own (\<open>RoutePlatform\<close>, \<open>RouteJournal\<close>); the laws an implementation
  promises are the locales \<open>route_platform\<close> and \<open>route_journal\<close>, and the
  orchestrator is verified once, inside \<open>route_orchestrator\<close>, for every pair of
  implementations.  A failing operation is an \<open>Err\<close> at any point the adapter
  chooses; a crash is the case in which every later operation fails, so what is
  proved for all outcomes of the operations holds at every crash point.
\<close>

datatype RouteTransactionState = Prepared | Applied | RolledBack

record RouteJournalEntry =
  je_transaction_id :: string
  je_profile_id :: string
  je_desired_routes :: "RouteSpec list"
  je_applied_routes :: "RouteSpec list"
  je_pending_route :: "RouteSpec option"
  je_previous_routes :: "ExistingRoute list"
  je_state :: RouteTransactionState

record 'p RoutePlatform =
  list_routes :: "'p \<Rightarrow> ExistingRoute list net_result \<times> 'p"
  add_route :: "RouteSpec \<Rightarrow> 'p \<Rightarrow> unit net_result \<times> 'p"
  remove_route :: "RouteSpec \<Rightarrow> 'p \<Rightarrow> unit net_result \<times> 'p"

record 'j RouteJournal =
  entries :: "'j \<Rightarrow> RouteJournalEntry list net_result \<times> 'j"
  save :: "RouteJournalEntry \<Rightarrow> 'j \<Rightarrow> unit net_result \<times> 'j"

record ('p, 'j) RouteOrchestrator =
  ro_platform :: 'p
  ro_journal :: 'j
  ro_conflict_policy :: RouteConflictPolicy

definition ro_new :: "'p \<Rightarrow> 'j \<Rightarrow> ('p, 'j) RouteOrchestrator" where
  "ro_new platform journal =
     \<lparr>ro_platform = platform, ro_journal = journal,
      ro_conflict_policy = \<lparr>mihomo_tun_interfaces = []\<rparr>\<rparr>"

definition ro_with_conflict_policy ::
  "'p \<Rightarrow> 'j \<Rightarrow> RouteConflictPolicy \<Rightarrow> ('p, 'j) RouteOrchestrator" where
  "ro_with_conflict_policy platform journal policy =
     \<lparr>ro_platform = platform, ro_journal = journal, ro_conflict_policy = policy\<rparr>"

text \<open>The calls through \<open>self.platform\<close> and \<open>self.journal\<close>.\<close>

definition ro_list ::
  "'p RoutePlatform \<Rightarrow> ('p, 'j) RouteOrchestrator \<Rightarrow>
     ExistingRoute list net_result \<times> ('p, 'j) RouteOrchestrator" where
  "ro_list P orc = (case list_routes P (ro_platform orc) of (r, p) \<Rightarrow> (r, orc\<lparr>ro_platform := p\<rparr>))"

definition ro_add ::
  "'p RoutePlatform \<Rightarrow> RouteSpec \<Rightarrow> ('p, 'j) RouteOrchestrator \<Rightarrow>
     unit net_result \<times> ('p, 'j) RouteOrchestrator" where
  "ro_add P route orc =
     (case add_route P route (ro_platform orc) of (r, p) \<Rightarrow> (r, orc\<lparr>ro_platform := p\<rparr>))"

definition ro_remove ::
  "'p RoutePlatform \<Rightarrow> RouteSpec \<Rightarrow> ('p, 'j) RouteOrchestrator \<Rightarrow>
     unit net_result \<times> ('p, 'j) RouteOrchestrator" where
  "ro_remove P route orc =
     (case remove_route P route (ro_platform orc) of (r, p) \<Rightarrow> (r, orc\<lparr>ro_platform := p\<rparr>))"

definition ro_entries ::
  "'j RouteJournal \<Rightarrow> ('p, 'j) RouteOrchestrator \<Rightarrow>
     RouteJournalEntry list net_result \<times> ('p, 'j) RouteOrchestrator" where
  "ro_entries J orc = (case entries J (ro_journal orc) of (r, j) \<Rightarrow> (r, orc\<lparr>ro_journal := j\<rparr>))"

definition ro_save ::
  "'j RouteJournal \<Rightarrow> RouteJournalEntry \<Rightarrow> ('p, 'j) RouteOrchestrator \<Rightarrow>
     unit net_result \<times> ('p, 'j) RouteOrchestrator" where
  "ro_save J entry orc = (case save J entry (ro_journal orc) of (r, j) \<Rightarrow> (r, orc\<lparr>ro_journal := j\<rparr>))"

subsection \<open>Rolling back\<close>

text \<open>The \<open>while let\<close> loop of \<open>rollback_entry\<close>, and the final transition.\<close>

function rollback_applied ::
  "'p RoutePlatform \<Rightarrow> 'j RouteJournal \<Rightarrow> RouteJournalEntry \<Rightarrow> ('p, 'j) RouteOrchestrator \<Rightarrow>
     unit net_result \<times> ('p, 'j) RouteOrchestrator" where
  "rollback_applied P J entry orc =
     (if je_applied_routes entry = []
      then (case ro_save J (entry\<lparr>je_state := RolledBack\<rparr>) orc of
              (Err _, orc) \<Rightarrow> (Err RouteRollbackFailed, orc)
            | (Ok u, orc) \<Rightarrow> (Ok u, orc))
      else (case ro_remove P (last (je_applied_routes entry)) orc of
              (Err _, orc) \<Rightarrow> (Err RouteRollbackFailed, orc)
            | (Ok _, orc) \<Rightarrow>
                (let entry = entry\<lparr>je_applied_routes := butlast (je_applied_routes entry)\<rparr>
                 in case ro_save J entry orc of
                      (Err _, orc) \<Rightarrow> (Err RouteRollbackFailed, orc)
                    | (Ok _, orc) \<Rightarrow> rollback_applied P J entry orc)))"
  by pat_completeness auto

termination
  by (relation "measure (\<lambda>(P, J, entry, orc). length (je_applied_routes entry))") auto

declare rollback_applied.simps [simp del]

definition rollback_entry ::
  "'p RoutePlatform \<Rightarrow> 'j RouteJournal \<Rightarrow> RouteJournalEntry \<Rightarrow> ('p, 'j) RouteOrchestrator \<Rightarrow>
     unit net_result \<times> ('p, 'j) RouteOrchestrator" where
  "rollback_entry P J entry orc =
     (case je_pending_route entry of
        None \<Rightarrow> rollback_applied P J entry orc
      | Some route \<Rightarrow>
          (let entry = entry\<lparr>je_pending_route := None\<rparr>
           in case ro_remove P route orc of
                (Err _, orc) \<Rightarrow> (Err RouteRollbackFailed, orc)
              | (Ok _, orc) \<Rightarrow>
                  (case ro_save J entry orc of
                     (Err _, orc) \<Rightarrow> (Err RouteRollbackFailed, orc)
                   | (Ok _, orc) \<Rightarrow> rollback_applied P J entry orc)))"

definition rollback_failed_apply ::
  "'p RoutePlatform \<Rightarrow> 'j RouteJournal \<Rightarrow> RouteJournalEntry \<Rightarrow> NetworkErrorCode \<Rightarrow>
     ('p, 'j) RouteOrchestrator \<Rightarrow> unit net_result \<times> ('p, 'j) RouteOrchestrator" where
  "rollback_failed_apply P J entry original_error orc =
     (case rollback_entry P J entry orc of
        (Ok _, orc) \<Rightarrow> (Err original_error, orc)
      | (Err _, orc) \<Rightarrow> (Err RouteRollbackFailed, orc))"

definition ro_rollback ::
  "'p RoutePlatform \<Rightarrow> 'j RouteJournal \<Rightarrow> string \<Rightarrow> ('p, 'j) RouteOrchestrator \<Rightarrow>
     unit net_result \<times> ('p, 'j) RouteOrchestrator" where
  "ro_rollback P J transaction_id orc =
     (case ro_entries J orc of
        (Err e, orc) \<Rightarrow> (Err e, orc)
      | (Ok es, orc) \<Rightarrow>
          (case find (\<lambda>entry. je_transaction_id entry = transaction_id) es of
             None \<Rightarrow> (Ok (), orc)
           | Some entry \<Rightarrow>
               if je_state entry = RolledBack then (Ok (), orc)
               else rollback_entry P J entry orc))"

fun rollback_entries ::
  "'p RoutePlatform \<Rightarrow> 'j RouteJournal \<Rightarrow> RouteJournalEntry list \<Rightarrow> ('p, 'j) RouteOrchestrator \<Rightarrow>
     unit net_result \<times> ('p, 'j) RouteOrchestrator" where
  "rollback_entries P J [] orc = (Ok (), orc)"
| "rollback_entries P J (entry # es) orc =
     (case rollback_entry P J entry orc of
        (Err e, orc) \<Rightarrow> (Err e, orc)
      | (Ok _, orc) \<Rightarrow> rollback_entries P J es orc)"

definition recover_stale ::
  "'p RoutePlatform \<Rightarrow> 'j RouteJournal \<Rightarrow> ('p, 'j) RouteOrchestrator \<Rightarrow>
     unit net_result \<times> ('p, 'j) RouteOrchestrator" where
  "recover_stale P J orc =
     (case ro_entries J orc of
        (Err e, orc) \<Rightarrow> (Err e, orc)
      | (Ok es, orc) \<Rightarrow>
          rollback_entries P J (filter (\<lambda>entry. je_state entry \<in> {Prepared, Applied}) es) orc)"

subsection \<open>Applying\<close>

text \<open>The loop of \<open>apply\<close> over the desired routes, and the final transition to \<open>Applied\<close>.\<close>

fun apply_routes ::
  "'p RoutePlatform \<Rightarrow> 'j RouteJournal \<Rightarrow> RouteSpec list \<Rightarrow> RouteJournalEntry \<Rightarrow>
     ('p, 'j) RouteOrchestrator \<Rightarrow> unit net_result \<times> ('p, 'j) RouteOrchestrator" where
  "apply_routes P J [] entry orc =
     (let entry = entry\<lparr>je_state := Applied\<rparr>
      in case ro_save J entry orc of
           (Err e, orc) \<Rightarrow> rollback_failed_apply P J entry e orc
         | (Ok _, orc) \<Rightarrow> (Ok (), orc))"
| "apply_routes P J (route # routes) entry orc =
     (case ro_save J (entry\<lparr>je_pending_route := Some route\<rparr>) orc of
        (Err _, orc) \<Rightarrow>
          rollback_failed_apply P J (entry\<lparr>je_pending_route := None\<rparr>) RouteJournalUnavailable orc
      | (Ok _, orc) \<Rightarrow>
     (case ro_add P route orc of
        (Err e, orc) \<Rightarrow>
          (case ro_save J (entry\<lparr>je_pending_route := None\<rparr>) orc of
             (Err _, orc) \<Rightarrow>
               rollback_failed_apply P J (entry\<lparr>je_pending_route := None\<rparr>) RouteJournalUnavailable orc
           | (Ok _, orc) \<Rightarrow> rollback_failed_apply P J (entry\<lparr>je_pending_route := None\<rparr>) e orc)
      | (Ok _, orc) \<Rightarrow>
     (let entry = entry\<lparr>je_applied_routes := je_applied_routes entry @ [route],
                        je_pending_route := None\<rparr>
      in case ro_save J entry orc of
        (Err _, orc) \<Rightarrow> rollback_failed_apply P J entry RouteRollbackFailed orc
      | (Ok _, orc) \<Rightarrow> apply_routes P J routes entry orc)))"

definition ro_apply ::
  "'p RoutePlatform \<Rightarrow> 'j RouteJournal \<Rightarrow> string \<Rightarrow> string \<Rightarrow> RouteSpec list \<Rightarrow>
     ('p, 'j) RouteOrchestrator \<Rightarrow> unit net_result \<times> ('p, 'j) RouteOrchestrator" where
  "ro_apply P J transaction_id profile_id desired_routes orc =
     (case validate_plan transaction_id profile_id desired_routes of
        Err e \<Rightarrow> (Err e, orc)
      | Ok _ \<Rightarrow>
     (case ro_entries J orc of
        (Err e, orc) \<Rightarrow> (Err e, orc)
      | (Ok es, orc) \<Rightarrow>
     (case find (\<lambda>entry. je_transaction_id entry = transaction_id) es of
        Some existing \<Rightarrow>
          if je_profile_id existing = profile_id \<and> je_desired_routes existing = desired_routes \<and>
             je_state existing = Applied
          then (Ok (), orc) else (Err InvalidStateTransition, orc)
      | None \<Rightarrow>
     (case ro_list P orc of
        (Err e, orc) \<Rightarrow> (Err e, orc)
      | (Ok previous, orc) \<Rightarrow>
     (case reject_conflicts previous desired_routes (ro_conflict_policy orc) of
        Err e \<Rightarrow> (Err e, orc)
      | Ok _ \<Rightarrow>
     (let entry = \<lparr>je_transaction_id = transaction_id, je_profile_id = profile_id,
                   je_desired_routes = desired_routes, je_applied_routes = [],
                   je_pending_route = None, je_previous_routes = previous, je_state = Prepared\<rparr>
      in case ro_save J entry orc of
        (Err e, orc) \<Rightarrow> (Err e, orc)
      | (Ok _, orc) \<Rightarrow> apply_routes P J desired_routes entry orc))))))"

subsection \<open>The journal in memory\<close>

text \<open>
  \<open>MemoryRouteJournal\<close> keeps a hash map from transaction identifiers to entries.
  The model is the association list of its bindings; nothing below depends on
  the order in which \<open>values\<close> enumerates them.
\<close>

type_synonym MemoryRouteJournal = "(string \<times> RouteJournalEntry) list"

definition MemoryRouteJournal_entries ::
  "MemoryRouteJournal \<Rightarrow> RouteJournalEntry list net_result \<times> MemoryRouteJournal" where
  "MemoryRouteJournal_entries m = (Ok (map snd m), m)"

fun assoc_insert :: "'k \<Rightarrow> 'v \<Rightarrow> ('k \<times> 'v) list \<Rightarrow> ('k \<times> 'v) list" where
  "assoc_insert k v [] = [(k, v)]"
| "assoc_insert k v ((k', v') # m) = (if k' = k then (k, v) # m else (k', v') # assoc_insert k v m)"

definition MemoryRouteJournal_save ::
  "RouteJournalEntry \<Rightarrow> MemoryRouteJournal \<Rightarrow> unit net_result \<times> MemoryRouteJournal" where
  "MemoryRouteJournal_save entry m = (Ok (), assoc_insert (je_transaction_id entry) entry m)"

definition MemoryRouteJournal_impl :: "MemoryRouteJournal RouteJournal" where
  "MemoryRouteJournal_impl = \<lparr>entries = MemoryRouteJournal_entries, save = MemoryRouteJournal_save\<rparr>"

text \<open>The adapters the sources test with: a platform and a journal that fail on request.\<close>

record FakePlatform =
  fp_existing :: "ExistingRoute list"
  fp_added :: "RouteSpec list"
  fp_fail_add_at :: "nat option"
  fp_fail_remove :: bool

definition FakePlatform_list_routes :: "FakePlatform \<Rightarrow> ExistingRoute list net_result \<times> FakePlatform" where
  "FakePlatform_list_routes p = (Ok (fp_existing p), p)"

definition FakePlatform_add_route :: "RouteSpec \<Rightarrow> FakePlatform \<Rightarrow> unit net_result \<times> FakePlatform" where
  "FakePlatform_add_route route p =
     (if fp_fail_add_at p = Some (length (fp_added p)) then (Err PermissionDenied, p)
      else (Ok (), p\<lparr>fp_added := fp_added p @ [route]\<rparr>))"

definition FakePlatform_remove_route :: "RouteSpec \<Rightarrow> FakePlatform \<Rightarrow> unit net_result \<times> FakePlatform" where
  "FakePlatform_remove_route route p =
     (if fp_fail_remove p then (Err PermissionDenied, p)
      else (Ok (), p\<lparr>fp_added := remove1 route (fp_added p)\<rparr>))"

definition FakePlatform_impl :: "FakePlatform RoutePlatform" where
  "FakePlatform_impl =
     \<lparr>list_routes = FakePlatform_list_routes, add_route = FakePlatform_add_route,
      remove_route = FakePlatform_remove_route\<rparr>"

record FailingJournal =
  fj_inner :: MemoryRouteJournal
  fj_save_count :: nat
  fj_fail_once_at :: nat

definition FailingJournal_entries ::
  "FailingJournal \<Rightarrow> RouteJournalEntry list net_result \<times> FailingJournal" where
  "FailingJournal_entries j =
     (case MemoryRouteJournal_entries (fj_inner j) of (r, inner) \<Rightarrow> (r, j\<lparr>fj_inner := inner\<rparr>))"

definition FailingJournal_save ::
  "RouteJournalEntry \<Rightarrow> FailingJournal \<Rightarrow> unit net_result \<times> FailingJournal" where
  "FailingJournal_save entry j =
     (let current = fj_save_count j; j = j\<lparr>fj_save_count := Suc (fj_save_count j)\<rparr>
      in if current = fj_fail_once_at j then (Err RouteJournalUnavailable, j)
         else case MemoryRouteJournal_save entry (fj_inner j) of (r, inner) \<Rightarrow>
           (r, j\<lparr>fj_inner := inner\<rparr>))"

definition FailingJournal_impl :: "FailingJournal RouteJournal" where
  "FailingJournal_impl = \<lparr>entries = FailingJournal_entries, save = FailingJournal_save\<rparr>"

subsection \<open>What the journal claims\<close>

text \<open>
  The routes an entry answers for, and those a whole journal answers for.  A
  journal is read through its content, a finite map from identifiers to entries.
\<close>

definition entry_claims :: "RouteJournalEntry \<Rightarrow> RouteSpec multiset" where
  "entry_claims e =
     mset (je_applied_routes e) + (case je_pending_route e of None \<Rightarrow> {#} | Some r \<Rightarrow> {#r#})"

definition journal_claims :: "(string \<rightharpoonup> RouteJournalEntry) \<Rightarrow> RouteSpec multiset" where
  "journal_claims m = (\<Sum>t\<in>dom m. entry_claims (the (m t)))"

lemma journal_claims_update:
  assumes "finite (dom m)"
  shows "journal_claims (m(t \<mapsto> e)) = entry_claims e + journal_claims (m(t := None))"
proof -
  have "journal_claims (m(t \<mapsto> e)) =
      entry_claims e + (\<Sum>u\<in>dom m - {t}. entry_claims (the ((m(t \<mapsto> e)) u)))"
    using assms by (simp add: journal_claims_def sum.insert_remove)
  also have "(\<Sum>u\<in>dom m - {t}. entry_claims (the ((m(t \<mapsto> e)) u))) =
      (\<Sum>u\<in>dom m - {t}. entry_claims (the ((m(t := None)) u)))"
    by (rule sum.cong) auto
  also have "dom m - {t} = dom (m(t := None))" by auto
  finally show ?thesis by (simp only: journal_claims_def)
qed

lemma journal_claims_split:
  assumes "finite (dom m)" and "m t = Some e"
  shows "journal_claims m = entry_claims e + journal_claims (m(t := None))"
  using journal_claims_update [OF assms(1), of t e] assms(2)
  by (simp add: fun_upd_idem)

lemma journal_claims_none: "m t = None \<Longrightarrow> journal_claims (m(t := None)) = journal_claims m"
  by (simp add: fun_upd_idem)

lemma journal_claims_empty:
  "(\<And>t e. m t = Some e \<Longrightarrow> entry_claims e = {#}) \<Longrightarrow> journal_claims m = {#}"
  by (auto simp: journal_claims_def intro!: sum.neutral)

lemma entry_claims_simps [simp]:
  "entry_claims (e\<lparr>je_pending_route := None\<rparr>) = mset (je_applied_routes e)"
  "entry_claims (e\<lparr>je_pending_route := Some r\<rparr>) = add_mset r (mset (je_applied_routes e))"
  "entry_claims (e\<lparr>je_state := s\<rparr>) = entry_claims e"
  "je_pending_route e = None \<Longrightarrow> entry_claims e = mset (je_applied_routes e)"
  "entry_claims (e\<lparr>je_applied_routes := rs, je_pending_route := None\<rparr>) = mset rs"
  by (simp_all add: entry_claims_def)

lemma mset_butlast_last: "xs \<noteq> [] \<Longrightarrow> mset xs = add_mset (last xs) (mset (butlast xs))"
  by (metis append_butlast_last_id mset.simps(2) mset_append union_mset_add_mset_right
      add.right_neutral mset.simps(1))

subsection \<open>The interfaces\<close>

locale route_platform =
  fixes P :: "'p RoutePlatform" and table :: "'p \<Rightarrow> RouteSpec multiset"
  assumes list_table: "list_routes P p = (r, p') \<Longrightarrow> table p' = table p"
    and add_ok: "add_route P route p = (Ok u, p') \<Longrightarrow> table p' = add_mset route (table p)"
    and add_err: "add_route P route p = (Err e, p') \<Longrightarrow> table p' = table p"
    and remove_ok: "remove_route P route p = (Ok u, p') \<Longrightarrow> table p' = table p - {#route#}"
    and remove_err: "remove_route P route p = (Err e, p') \<Longrightarrow> table p' = table p"

locale route_journal =
  fixes J :: "'j RouteJournal" and content :: "'j \<Rightarrow> (string \<rightharpoonup> RouteJournalEntry)"
    and journal_inv :: "'j \<Rightarrow> bool"
  assumes finite_content: "journal_inv j \<Longrightarrow> finite (dom (content j))"
    and content_key: "journal_inv j \<Longrightarrow> content j t = Some e \<Longrightarrow> je_transaction_id e = t"
    and entries_content: "journal_inv j \<Longrightarrow> entries J j = (r, j') \<Longrightarrow>
      journal_inv j' \<and> content j' = content j"
    and entries_ok: "journal_inv j \<Longrightarrow> entries J j = (Ok es, j') \<Longrightarrow>
      set es = ran (content j) \<and> distinct (map je_transaction_id es)"
    and save_ok: "journal_inv j \<Longrightarrow> save J e j = (Ok u, j') \<Longrightarrow>
      journal_inv j' \<and> content j' = (content j)(je_transaction_id e \<mapsto> e)"
    and save_err: "journal_inv j \<Longrightarrow> save J e j = (Err x, j') \<Longrightarrow>
      journal_inv j' \<and> content j' = content j"

locale route_orchestrator = route_platform P table + route_journal J content journal_inv
  for P :: "'p RoutePlatform" and table :: "'p \<Rightarrow> RouteSpec multiset"
    and J :: "'j RouteJournal" and content :: "'j \<Rightarrow> (string \<rightharpoonup> RouteJournalEntry)"
    and journal_inv :: "'j \<Rightarrow> bool"
begin

text \<open>The laws, on the orchestrator's state.\<close>

definition tab :: "('p, 'j) RouteOrchestrator \<Rightarrow> RouteSpec multiset" where
  "tab orc = table (ro_platform orc)"

definition cont :: "('p, 'j) RouteOrchestrator \<Rightarrow> (string \<rightharpoonup> RouteJournalEntry)" where
  "cont orc = content (ro_journal orc)"

definition inv :: "('p, 'j) RouteOrchestrator \<Rightarrow> bool" where
  "inv orc \<longleftrightarrow> journal_inv (ro_journal orc)"

definition others :: "string \<Rightarrow> ('p, 'j) RouteOrchestrator \<Rightarrow> RouteSpec multiset" where
  "others t orc = journal_claims ((cont orc)(t := None))"

definition covered :: "RouteSpec multiset \<Rightarrow> ('p, 'j) RouteOrchestrator \<Rightarrow> bool" where
  "covered base orc \<longleftrightarrow> tab orc \<subseteq># base + journal_claims (cont orc)"

definition tracked :: "RouteSpec multiset \<Rightarrow> RouteJournalEntry \<Rightarrow> ('p, 'j) RouteOrchestrator \<Rightarrow> bool" where
  "tracked base e orc \<longleftrightarrow>
     tab orc \<subseteq># base + (entry_claims e + others (je_transaction_id e) orc)"

definition closed :: "('p, 'j) RouteOrchestrator \<Rightarrow> bool" where
  "closed orc \<longleftrightarrow>
     (\<forall>t e. cont orc t = Some e \<longrightarrow> je_state e = RolledBack \<longrightarrow> entry_claims e = {#})"

lemma closed_save:
  assumes "closed orc" and "cont orc' = (if b then (cont orc)(t \<mapsto> e) else cont orc)"
    and "je_state e = RolledBack \<Longrightarrow> entry_claims e = {#}"
  shows "closed orc'"
  using assms by (auto simp: closed_def split: if_splits)

lemma ro_list_facts:
  assumes "ro_list P orc = (r, orc')"
  shows "tab orc' = tab orc" and "cont orc' = cont orc" and "inv orc' = inv orc"
  using assms by (auto simp: ro_list_def tab_def cont_def inv_def list_table split: prod.splits)

lemma ro_add_facts:
  assumes "ro_add P route orc = (r, orc')"
  shows "tab orc' = (if is_ok r then add_mset route (tab orc) else tab orc)"
    and "cont orc' = cont orc" and "inv orc' = inv orc"
  using assms by (cases r; auto simp: ro_add_def tab_def cont_def inv_def add_ok add_err
      split: prod.splits)+

lemma ro_remove_facts:
  assumes "ro_remove P route orc = (r, orc')"
  shows "tab orc' = (if is_ok r then tab orc - {#route#} else tab orc)"
    and "cont orc' = cont orc" and "inv orc' = inv orc"
  using assms by (cases r; auto simp: ro_remove_def tab_def cont_def inv_def remove_ok remove_err
      split: prod.splits)+

lemma ro_entries_facts:
  assumes "ro_entries J orc = (r, orc')" and "inv orc"
  shows "tab orc' = tab orc" and "cont orc' = cont orc" and "inv orc'"
    and "r = Ok es \<Longrightarrow> set es = ran (cont orc) \<and> distinct (map je_transaction_id es)"
  using assms by (auto simp: ro_entries_def tab_def cont_def inv_def split: prod.splits
      dest: entries_content entries_ok)

lemma ro_save_facts:
  assumes "ro_save J e orc = (r, orc')" and "inv orc"
  shows "tab orc' = tab orc"
    and "cont orc' = (if is_ok r then (cont orc)(je_transaction_id e \<mapsto> e) else cont orc)"
    and "inv orc'"
  using assms by (cases r; auto simp: ro_save_def tab_def cont_def inv_def split: prod.splits
      dest: save_ok save_err)+

lemma finite_cont: "inv orc \<Longrightarrow> finite (dom (cont orc))"
  by (simp add: inv_def cont_def finite_content)

text \<open>A journal that holds the entry covers what the entry tracks.\<close>

lemma covered_tracked:
  assumes "inv orc" and "cont orc (je_transaction_id e) = Some e"
  shows "covered base orc \<longleftrightarrow> tracked base e orc"
  using journal_claims_split [OF finite_cont [OF assms(1)] assms(2)]
  by (simp add: covered_def tracked_def others_def)

lemma covered_save:
  assumes "ro_save J e orc = (r, orc')" and "inv orc" and "covered base orc" and "tracked base e orc"
  shows "covered base orc' \<and> tracked base e orc'"
proof (cases r)
  case (Ok u)
  note f = ro_save_facts [OF assms(1,2)]
  from Ok f have c: "cont orc' = (cont orc)(je_transaction_id e \<mapsto> e)" by simp
  with f assms(4) have "tracked base e orc'" by (simp add: tracked_def others_def)
  with covered_tracked [OF f(3), of e base] c show ?thesis by simp
next
  case (Err x)
  with ro_save_facts [OF assms(1,2)] assms(3,4) show ?thesis
    by (simp add: covered_def tracked_def others_def)
qed


text \<open>What rolling an entry back does, whichever operations fail on the way.\<close>

definition rolled_back :: "RouteJournalEntry \<Rightarrow> RouteJournalEntry" where
  "rolled_back e = e\<lparr>je_applied_routes := [], je_pending_route := None, je_state := RolledBack\<rparr>"

definition rollback_post ::
  "RouteSpec multiset \<Rightarrow> RouteJournalEntry \<Rightarrow> ('p, 'j) RouteOrchestrator \<Rightarrow> unit net_result \<Rightarrow>
     ('p, 'j) RouteOrchestrator \<Rightarrow> bool" where
  "rollback_post base e orc r orc' \<longleftrightarrow>
     inv orc' \<and> covered base orc' \<and>
     tab orc - entry_claims e \<subseteq># tab orc' \<and> tab orc' \<subseteq># tab orc \<and>
     (cont orc')(je_transaction_id e := None) = (cont orc)(je_transaction_id e := None) \<and>
     (je_state e \<noteq> RolledBack \<longrightarrow> closed orc \<longrightarrow> closed orc') \<and>
     (case r of Ok _ \<Rightarrow> tab orc' = tab orc - entry_claims e \<and>
                  cont orc' = (cont orc)(je_transaction_id e \<mapsto> rolled_back e)
      | Err x \<Rightarrow> x = RouteRollbackFailed)"

lemma tracked_remove:
  assumes "tracked base e orc" and "entry_claims e = add_mset route (entry_claims e')"
    and "je_transaction_id e' = je_transaction_id e"
    and "tab orc' = tab orc - {#route#}" and "cont orc' = cont orc"
  shows "tracked base e' orc'"
  using assms by (simp add: tracked_def others_def subset_eq_diff_conv)

lemma covered_remove:
  "covered base orc \<Longrightarrow> tab orc' = tab orc - M \<Longrightarrow> cont orc' = cont orc \<Longrightarrow> covered base orc'"
  by (auto simp: covered_def intro: subset_mset.trans [OF diff_subset_eq_self])

text \<open>One removal followed by a rollback of what is left is a rollback of the whole.\<close>

lemma rollback_post_step:
  assumes "rollback_post base e' orc1 r orc'"
    and "entry_claims e = add_mset route (entry_claims e')"
    and "je_transaction_id e' = je_transaction_id e"
    and "rolled_back e' = rolled_back e" and "je_state e' = je_state e"
    and "tab orc1 = tab orc - {#route#}"
    and "cont orc1 = (cont orc)(je_transaction_id e \<mapsto> e')"
  shows "rollback_post base e orc r orc'"
proof -
  have "tab orc - entry_claims e = tab orc1 - entry_claims e'"
    using assms(2,6) by simp
  moreover have "tab orc1 \<subseteq># tab orc" using assms(6) by simp
  moreover have "je_state e \<noteq> RolledBack \<Longrightarrow> closed orc \<Longrightarrow> closed orc1"
    using assms(5,7) by (auto simp: closed_def)
  ultimately show ?thesis
    using assms(1,3,4,5,7)
    by (auto simp: rollback_post_def split: result.splits intro: subset_mset.trans)
qed

lemma diff_claims_le: "entry_claims e = add_mset route M \<Longrightarrow> N - entry_claims e \<subseteq># N - {#route#}"
  by (metis diff_diff_add_mset add_mset_add_single diff_subset_eq_self union_commute)

lemma remove_and_save:
  assumes "inv orc" and "covered base orc" and "tracked base e orc"
    and "entry_claims e = add_mset route (entry_claims e')"
    and "je_transaction_id e' = je_transaction_id e" and "rolled_back e' = rolled_back e"
    and "je_state e' = je_state e"
    and rest: "\<And>orc2 r orc3. inv orc2 \<Longrightarrow> covered base orc2 \<Longrightarrow> tracked base e' orc2 \<Longrightarrow>
      f orc2 = (r, orc3) \<Longrightarrow> rollback_post base e' orc2 r orc3"
    and run: "(case ro_remove P route orc of
        (Err _, orc1) \<Rightarrow> (Err RouteRollbackFailed, orc1)
      | (Ok _, orc1) \<Rightarrow> (case ro_save J e' orc1 of
           (Err _, orc2) \<Rightarrow> (Err RouteRollbackFailed, orc2)
         | (Ok _, orc2) \<Rightarrow> f orc2)) = (r, orc')"
  shows "rollback_post base e orc r orc'"
proof -
  obtain r1 orc1 where rm: "ro_remove P route orc = (r1, orc1)" by fastforce
  note f1 = ro_remove_facts [OF rm]
  show ?thesis
  proof (cases r1)
    case (Err x)
    with f1 have "tab orc1 = tab orc" "cont orc1 = cont orc" "inv orc1"
      using assms(1) by simp_all
    then have "rollback_post base e orc (Err RouteRollbackFailed) orc1"
      using assms(2) by (simp add: rollback_post_def covered_def closed_def)
    with run rm Err show ?thesis by simp
  next
    case r1: (Ok u)
    then have t1: "tab orc1 = tab orc - {#route#}" using f1 by simp
    obtain r2 orc2 where sv: "ro_save J e' orc1 = (r2, orc2)" by fastforce
    have i1: "inv orc1" using f1 assms(1) by simp
    note f2 = ro_save_facts [OF sv i1]
    have c2: "covered base orc2" "tracked base e' orc2"
      using covered_save [OF sv i1 covered_remove [OF assms(2) t1 f1(2)]
          tracked_remove [OF assms(3,4,5) t1 f1(2)]] by auto
    show ?thesis
    proof (cases r2)
      case (Err x)
      with f2 have "tab orc2 = tab orc - {#route#}" "cont orc2 = cont orc" "inv orc2"
        using t1 f1(2) by simp_all
      then have "rollback_post base e orc (Err RouteRollbackFailed) orc2"
        using c2 diff_claims_le [OF assms(4)] by (simp add: rollback_post_def closed_def)
      with run rm r1 sv Err show ?thesis by simp
    next
      case (Ok u')
      with run rm r1 sv have "f orc2 = (r, orc')" by simp
      from rest [OF f2(3) c2 this] have "rollback_post base e' orc2 r orc'" .
      from rollback_post_step [OF this assms(4-7)] f2 Ok t1 f1(2) assms(5) show ?thesis
        by simp
    qed
  qed
qed

lemma rollback_applied_post:
  assumes "rollback_applied P J e orc = (r, orc')" and "je_pending_route e = None"
    and "inv orc" and "covered base orc" and "tracked base e orc"
  shows "rollback_post base e orc r orc'"
  using assms
proof (induction "length (je_applied_routes e)" arbitrary: e orc r orc')
  case 0
  then have none: "je_applied_routes e = []" by simp
  let ?e = "e\<lparr>je_state := RolledBack\<rparr>"
  obtain r1 orc1 where sv: "ro_save J ?e orc = (r1, orc1)" by fastforce
  have "tracked base ?e orc" using 0 by (simp add: tracked_def)
  note c = covered_save [OF sv 0(4,5) this]
  note f = ro_save_facts [OF sv 0(4)]
  have e: "rolled_back e = ?e" "entry_claims e = {#}"
    using none 0 by (auto simp: rolled_back_def)
  show ?case
    using 0(2) none sv c f e
    by (cases r1) (auto simp: rollback_applied.simps [of P J e] rollback_post_def closed_def)
next
  case (Suc n)
  then have some: "je_applied_routes e \<noteq> []" by auto
  let ?e = "e\<lparr>je_applied_routes := butlast (je_applied_routes e)\<rparr>"
  show ?case
  proof (rule remove_and_save [where e' = ?e and route = "last (je_applied_routes e)"
        and f = "rollback_applied P J ?e"])
    show "entry_claims e = add_mset (last (je_applied_routes e)) (entry_claims ?e)"
      using Suc(4) mset_butlast_last [OF some] by simp
    show "rolled_back ?e = rolled_back e" by (simp add: rolled_back_def)
    show "(case ro_remove P (last (je_applied_routes e)) orc of
        (Err _, orc1) \<Rightarrow> (Err RouteRollbackFailed, orc1)
      | (Ok _, orc1) \<Rightarrow> (case ro_save J ?e orc1 of
           (Err _, orc2) \<Rightarrow> (Err RouteRollbackFailed, orc2)
         | (Ok _, orc2) \<Rightarrow> rollback_applied P J ?e orc2)) = (r, orc')"
      using Suc(3) some unfolding rollback_applied.simps [of P J e] Let_def by simp
  qed (use Suc in auto)
qed

lemma rollback_entry_post:
  assumes "rollback_entry P J e orc = (r, orc')"
    and "inv orc" and "covered base orc" and "tracked base e orc"
  shows "rollback_post base e orc r orc'"
proof (cases "je_pending_route e")
  case None
  with assms show ?thesis by (auto simp: rollback_entry_def intro: rollback_applied_post)
next
  case (Some route)
  let ?e = "e\<lparr>je_pending_route := None\<rparr>"
  show ?thesis
  proof (rule remove_and_save [where e' = ?e and route = route and f = "rollback_applied P J ?e"])
    show "entry_claims e = add_mset route (entry_claims ?e)"
      using Some by (simp add: entry_claims_def)
    show "rolled_back ?e = rolled_back e" by (simp add: rolled_back_def)
    show "(case ro_remove P route orc of
        (Err _, orc1) \<Rightarrow> (Err RouteRollbackFailed, orc1)
      | (Ok _, orc1) \<Rightarrow> (case ro_save J ?e orc1 of
           (Err _, orc2) \<Rightarrow> (Err RouteRollbackFailed, orc2)
         | (Ok _, orc2) \<Rightarrow> rollback_applied P J ?e orc2)) = (r, orc')"
      using assms(1) Some unfolding rollback_entry_def Let_def by simp
  qed (use assms in \<open>auto intro: rollback_applied_post\<close>)
qed


text \<open>
  A failed apply: unless the error is \<open>RouteRollbackFailed\<close>, the routes of the entry are gone
  and the journal says so.
\<close>

definition failed_post ::
  "RouteSpec multiset \<Rightarrow> RouteJournalEntry \<Rightarrow> ('p, 'j) RouteOrchestrator \<Rightarrow> unit net_result \<Rightarrow>
     ('p, 'j) RouteOrchestrator \<Rightarrow> bool" where
  "failed_post base e orc r orc' \<longleftrightarrow>
     inv orc' \<and> covered base orc' \<and>
     tab orc - mset (je_applied_routes e) \<subseteq># tab orc' \<and> tab orc' \<subseteq># tab orc \<and>
     (cont orc')(je_transaction_id e := None) = (cont orc)(je_transaction_id e := None) \<and>
     (je_state e \<noteq> RolledBack \<longrightarrow> closed orc \<longrightarrow> closed orc') \<and>
     (\<exists>x. r = Err x \<and> (x \<noteq> RouteRollbackFailed \<longrightarrow>
        tab orc' = tab orc - mset (je_applied_routes e) \<and>
        cont orc' (je_transaction_id e) = Some (rolled_back e)))"

lemma rollback_failed_apply_post:
  assumes "rollback_failed_apply P J e x orc = (r, orc')" and "je_pending_route e = None"
    and "inv orc" and "covered base orc" and "tracked base e orc"
  shows "failed_post base e orc r orc'"
proof -
  obtain r1 orc1 where run: "rollback_entry P J e orc = (r1, orc1)" by fastforce
  from rollback_entry_post [OF run assms(3-5)] assms(1,2) run show ?thesis
    by (cases r1) (auto simp: rollback_failed_apply_def rollback_post_def failed_post_def)
qed

text \<open>The whole loop: all of the routes, or none of them, or a reported leak the journal covers.\<close>

definition apply_post ::
  "RouteSpec multiset \<Rightarrow> RouteJournalEntry \<Rightarrow> RouteSpec list \<Rightarrow> ('p, 'j) RouteOrchestrator \<Rightarrow>
     unit net_result \<Rightarrow> ('p, 'j) RouteOrchestrator \<Rightarrow> bool" where
  "apply_post base e rs orc r orc' \<longleftrightarrow>
     inv orc' \<and> covered base orc' \<and>
     tab orc - mset (je_applied_routes e) \<subseteq># tab orc' \<and> tab orc' \<subseteq># tab orc + mset rs \<and>
     (cont orc')(je_transaction_id e := None) = (cont orc)(je_transaction_id e := None) \<and>
     (je_state e \<noteq> RolledBack \<longrightarrow> closed orc \<longrightarrow> closed orc') \<and>
     (case r of
        Ok _ \<Rightarrow> tab orc' = tab orc + mset rs \<and>
          cont orc' (je_transaction_id e) =
            Some (e\<lparr>je_applied_routes := je_applied_routes e @ rs, je_pending_route := None,
                    je_state := Applied\<rparr>)
      | Err x \<Rightarrow> x \<noteq> RouteRollbackFailed \<longrightarrow>
          tab orc' = tab orc - mset (je_applied_routes e) \<and>
          cont orc' (je_transaction_id e) = Some (rolled_back e))"

lemma apply_post_failed:
  assumes "failed_post base e' orc1 r orc'"
    and "je_transaction_id e' = je_transaction_id e" and "rolled_back e' = rolled_back e"
    and "tab orc1 - mset (je_applied_routes e') = tab orc - mset (je_applied_routes e)"
    and "tab orc1 \<subseteq># tab orc + mset rs"
    and "je_state e \<noteq> RolledBack \<Longrightarrow> closed orc \<Longrightarrow> je_state e' \<noteq> RolledBack \<and> closed orc1"
    and "(cont orc1)(je_transaction_id e := None) = (cont orc)(je_transaction_id e := None)"
  shows "apply_post base e rs orc r orc'"
  using assms
  by (auto simp: failed_post_def apply_post_def intro: subset_mset.trans)

lemma apply_post_step:
  assumes "apply_post base e' rs orc1 r orc'"
    and "e' = e\<lparr>je_applied_routes := je_applied_routes e @ [route], je_pending_route := None\<rparr>"
    and "tab orc1 = add_mset route (tab orc)"
    and "je_state e \<noteq> RolledBack \<Longrightarrow> closed orc \<Longrightarrow> closed orc1"
    and "(cont orc1)(je_transaction_id e := None) = (cont orc)(je_transaction_id e := None)"
  shows "apply_post base e (route # rs) orc r orc'"
  using assms
  by (auto simp: apply_post_def rolled_back_def split: result.splits)

lemma tracked_mono: "tracked base e orc \<Longrightarrow> tab orc' = tab orc \<Longrightarrow> je_transaction_id e' = je_transaction_id e \<Longrightarrow>
    (cont orc')(je_transaction_id e := None) = (cont orc)(je_transaction_id e := None) \<Longrightarrow>
    entry_claims e \<subseteq># entry_claims e' \<Longrightarrow> tracked base e' orc'"
  by (auto simp: tracked_def others_def intro: subset_mset.trans)

text \<open>The branch in which the platform refuses a route.\<close>

lemma apply_withdraw:
  assumes run: "(case ro_save J e orc of
      (Err _, orc) \<Rightarrow> rollback_failed_apply P J e x orc
    | (Ok _, orc) \<Rightarrow> rollback_failed_apply P J e y orc) = (r, orc')"
    and "je_pending_route e = None" and "inv orc" and "covered base orc" and "tracked base e orc"
  shows "failed_post base e orc r orc'"
proof -
  obtain r1 orc1 where sv: "ro_save J e orc = (r1, orc1)" by fastforce
  note c = covered_save [OF sv assms(3-5)] and f = ro_save_facts [OF sv assms(3)]
  have "failed_post base e orc1 r orc'"
    using run sv c f assms(2)
    by (cases r1) (auto intro: rollback_failed_apply_post)
  moreover have "(cont orc1)(je_transaction_id e := None) = (cont orc)(je_transaction_id e := None)"
    using f(2) by (cases r1) auto
  moreover have "je_state e \<noteq> RolledBack \<Longrightarrow> closed orc \<Longrightarrow> closed orc1"
    by (rule closed_save [OF _ f(2)]) auto
  ultimately show ?thesis using f(1) by (simp add: failed_post_def)
qed

text \<open>The branch in which the platform has installed the route.\<close>

lemma apply_added:
  fixes e route
  defines "e3 \<equiv> e\<lparr>je_applied_routes := je_applied_routes e @ [route], je_pending_route := None\<rparr>"
  assumes run: "(case ro_save J e3 orc2 of
      (Err _, orc) \<Rightarrow> rollback_failed_apply P J e3 RouteRollbackFailed orc
    | (Ok _, orc) \<Rightarrow> f orc) = (r, orc')"
    and pending: "je_pending_route e = None" and t: "tracked base e orc" and i2: "inv orc2"
    and t2: "tab orc2 = add_mset route (tab orc)"
    and k2: "cont orc2 = (cont orc)(je_transaction_id e \<mapsto> e\<lparr>je_pending_route := Some route\<rparr>)"
    and rest: "\<And>orc3. inv orc3 \<Longrightarrow> covered base orc3 \<Longrightarrow> tracked base e3 orc3 \<Longrightarrow>
      f orc3 = (r, orc') \<Longrightarrow> apply_post base e3 rs orc3 r orc'"
  shows "apply_post base e (route # rs) orc r orc'"
proof -
  have e3: "tracked base e3 orc2" and "tracked base (e\<lparr>je_pending_route := Some route\<rparr>) orc2"
    using pending t t2 k2 by (simp_all add: tracked_def others_def e3_def)
  then have c2: "covered base orc2"
    using covered_tracked [OF i2, of "e\<lparr>je_pending_route := Some route\<rparr>" base] k2 by simp
  obtain r3 orc3 where sv3: "ro_save J e3 orc2 = (r3, orc3)" by fastforce
  note c3 = covered_save [OF sv3 i2 c2 e3]
  note f3 = ro_save_facts [OF sv3 i2]
  have k3: "(cont orc3)(je_transaction_id e := None) = (cont orc)(je_transaction_id e := None)"
    using f3(2) k2 by (cases r3) (auto simp: e3_def)
  show ?thesis
  proof (cases r3)
    case (Err x)
    with run sv3 have "rollback_failed_apply P J e3 RouteRollbackFailed orc3 = (r, orc')" by simp
    then have "failed_post base e3 orc3 r orc'"
      using c3 f3 by (intro rollback_failed_apply_post) (auto simp: e3_def)
    then show ?thesis
      by (rule apply_post_failed) (use f3 t2 k2 k3 Err in \<open>auto simp: rolled_back_def closed_def e3_def\<close>)
  next
    case (Ok u)
    with run sv3 c3 f3 have "apply_post base e3 rs orc3 r orc'" by (intro rest) auto
    then show ?thesis
      by (rule apply_post_step) (use f3 t2 k2 k3 Ok in \<open>auto simp: closed_def e3_def\<close>)
  qed
qed

lemma apply_routes_post:
  assumes "apply_routes P J rs e orc = (r, orc')" and "je_pending_route e = None"
    and "inv orc" and "covered base orc" and "tracked base e orc"
  shows "apply_post base e rs orc r orc'"
  using assms
proof (induction rs arbitrary: e orc)
  case Nil
  let ?e = "e\<lparr>je_state := Applied\<rparr>"
  obtain r1 orc1 where sv: "ro_save J ?e orc = (r1, orc1)" by fastforce
  have t: "tracked base ?e orc" using Nil by (simp add: tracked_def)
  note c = covered_save [OF sv Nil(3,4) t]
  note f = ro_save_facts [OF sv Nil(3)]
  show ?case
  proof (cases r1)
    case (Ok u)
    with Nil(1,2) sv c f show ?thesis by (auto simp: apply_post_def closed_def)
  next
    case (Err x)
    with Nil(1) sv have "rollback_failed_apply P J ?e x orc1 = (r, orc')" by (simp add: Let_def)
    then have "failed_post base ?e orc1 r orc'"
      using Nil(2) c f by (intro rollback_failed_apply_post) auto
    then show ?thesis
      by (rule apply_post_failed) (use f Err in \<open>auto simp: rolled_back_def closed_def\<close>)
  qed
next
  case (Cons route rs)
  let ?e0 = "e\<lparr>je_pending_route := None\<rparr>" and ?e1 = "e\<lparr>je_pending_route := Some route\<rparr>"
  let ?e3 = "e\<lparr>je_applied_routes := je_applied_routes e @ [route], je_pending_route := None\<rparr>"
  have e0: "tracked base ?e0 orc" and e1: "tracked base ?e1 orc"
    using Cons.prems(2,5) by (auto elim!: tracked_mono)
  obtain r1 orc1 where sv: "ro_save J ?e1 orc = (r1, orc1)" by fastforce
  note c1 = covered_save [OF sv Cons.prems(3,4) e1]
  note f1 = ro_save_facts [OF sv Cons.prems(3)]
  have k1: "(cont orc1)(je_transaction_id e := None) = (cont orc)(je_transaction_id e := None)"
    using f1(2) by (cases r1) auto
  show ?case
  proof (cases r1)
    case (Err x)
    with Cons.prems(1) sv
    have "rollback_failed_apply P J ?e0 RouteJournalUnavailable orc1 = (r, orc')" by simp
    moreover have "tracked base ?e0 orc1" using e0 f1(1) k1 by (auto elim!: tracked_mono)
    ultimately have "failed_post base ?e0 orc1 r orc'"
      using c1 f1 by (intro rollback_failed_apply_post) auto
    then show ?thesis
      by (rule apply_post_failed) (use f1 k1 Err in \<open>auto simp: rolled_back_def closed_def\<close>)
  next
    case r1: (Ok u)
    obtain r2 orc2 where ad: "ro_add P route orc1 = (r2, orc2)" by fastforce
    note f2 = ro_add_facts [OF ad]
    have i2: "inv orc2" using f1 f2 by simp
    show ?thesis
    proof (cases r2)
      case (Err x)
      have run: "(case ro_save J ?e0 orc2 of
            (Err _, orc) \<Rightarrow> rollback_failed_apply P J ?e0 RouteJournalUnavailable orc
          | (Ok _, orc) \<Rightarrow> rollback_failed_apply P J ?e0 x orc) = (r, orc')"
        using Cons.prems(1) sv r1 ad Err by simp
      have "covered base orc2" using c1 f2 Err by (simp add: covered_def)
      moreover have "tracked base ?e0 orc2" using e0 f1(1) f2 k1 Err by (auto elim!: tracked_mono)
      ultimately have "failed_post base ?e0 orc2 r orc'" using run i2 by (intro apply_withdraw) auto
      then show ?thesis
        by (rule apply_post_failed) (use f1 f2 k1 r1 Err in \<open>auto simp: rolled_back_def closed_def\<close>)
    next
      case r2: (Ok u')
      have "(case ro_save J ?e3 orc2 of
            (Err _, orc) \<Rightarrow> rollback_failed_apply P J ?e3 RouteRollbackFailed orc
          | (Ok _, orc) \<Rightarrow> apply_routes P J rs ?e3 orc) = (r, orc')"
        using Cons.prems(1) sv r1 ad r2 by (simp add: Let_def)
      then show ?thesis
        by (rule apply_added [where f = "apply_routes P J rs ?e3"])
          (use Cons f1 f2 r1 r2 k1 i2 in auto)
    qed
  qed
qed


text \<open>Looking a transaction up in the entries reads the content of the journal.\<close>

lemma find_entry:
  assumes "ro_entries J orc = (Ok es, orc')" and "inv orc"
  shows "find (\<lambda>e. je_transaction_id e = t) es = cont orc t"
proof -
  note es = ro_entries_facts(4) [OF assms refl]
  have key: "\<And>u e. cont orc u = Some e \<Longrightarrow> je_transaction_id e = u"
    using assms(2) by (auto simp: inv_def cont_def content_key)
  show ?thesis
  proof (cases "find (\<lambda>e. je_transaction_id e = t) es")
    case None
    then have "\<And>e. cont orc t \<noteq> Some e"
      using es key by (auto simp: find_None_iff ran_def)
    with None show ?thesis by (cases "cont orc t") auto
  next
    case (Some e)
    then have "e \<in> ran (cont orc)" "je_transaction_id e = t"
      using es by (auto simp: find_Some_iff)
    with key Some show ?thesis by (auto simp: ran_def)
  qed
qed

definition apply_result ::
  "string \<Rightarrow> string \<Rightarrow> RouteSpec list \<Rightarrow> ('p, 'j) RouteOrchestrator \<Rightarrow> unit net_result \<Rightarrow>
     ('p, 'j) RouteOrchestrator \<Rightarrow> bool" where
  "apply_result t pid rs orc r orc' \<longleftrightarrow>
     tab orc \<subseteq># tab orc' \<and> tab orc' \<subseteq># tab orc + mset rs \<and>
     (cont orc')(t := None) = (cont orc)(t := None) \<and>
     (case r of
        Ok _ \<Rightarrow> (case cont orc t of
             None \<Rightarrow> tab orc' = tab orc + mset rs \<and>
               (\<exists>e. cont orc' t = Some e \<and> je_state e = Applied \<and> je_profile_id e = pid \<and>
                  je_desired_routes e = rs \<and> je_applied_routes e = rs \<and> je_pending_route e = None)
           | Some e \<Rightarrow> je_state e = Applied \<and> je_profile_id e = pid \<and> je_desired_routes e = rs \<and>
               tab orc' = tab orc \<and> cont orc' = cont orc)
      | Err x \<Rightarrow> x \<noteq> RouteRollbackFailed \<longrightarrow> tab orc' = tab orc)"

lemma apply_result_same:
  "tab orc' = tab orc \<Longrightarrow> cont orc' = cont orc \<Longrightarrow> apply_result t pid rs orc (Err x) orc'"
  by (simp add: apply_result_def)

text \<open>A fresh transaction, once the plan has passed its checks.\<close>

lemma ro_apply_new:
  assumes run: "(case ro_save J e orc of (Err x, orc) \<Rightarrow> (Err x, orc)
      | (Ok _, orc) \<Rightarrow> apply_routes P J rs e orc) = (r, orc')"
    and e: "je_applied_routes e = []" "je_pending_route e = None" "je_state e = Prepared"
    and i: "inv orc" and c: "covered base orc" and t: "tracked base e orc"
  shows "inv orc' \<and> covered base orc' \<and> (closed orc \<longrightarrow> closed orc') \<and>
    tab orc \<subseteq># tab orc' \<and> tab orc' \<subseteq># tab orc + mset rs \<and>
    (cont orc')(je_transaction_id e := None) = (cont orc)(je_transaction_id e := None) \<and>
    (case r of
       Ok _ \<Rightarrow> tab orc' = tab orc + mset rs \<and>
         cont orc' (je_transaction_id e) =
           Some (e\<lparr>je_applied_routes := rs, je_pending_route := None, je_state := Applied\<rparr>)
     | Err x \<Rightarrow> x \<noteq> RouteRollbackFailed \<longrightarrow> tab orc' = tab orc)"
proof -
  obtain r1 orc1 where sv: "ro_save J e orc = (r1, orc1)" by fastforce
  note c1 = covered_save [OF sv i c t] and f1 = ro_save_facts [OF sv i]
  show ?thesis
  proof (cases r1)
    case (Err x)
    with run sv c1 f1 show ?thesis by (auto simp: closed_def)
  next
    case (Ok u)
    with run sv have "apply_routes P J rs e orc1 = (r, orc')" by simp
    with c1 f1 e have "apply_post base e rs orc1 r orc'" by (intro apply_routes_post) auto
    moreover have "closed orc \<Longrightarrow> closed orc1"
      by (rule closed_save [OF _ f1(2)]) (use e in auto)
    ultimately show ?thesis
      using f1 Ok e by (auto simp: apply_post_def split: result.splits)
  qed
qed

lemma ro_apply_post:
  assumes run: "ro_apply P J t pid rs orc = (r, orc')" and i: "inv orc" and c: "covered base orc"
  shows "inv orc' \<and> covered base orc' \<and> (closed orc \<longrightarrow> closed orc') \<and> apply_result t pid rs orc r orc'"
proof -
  obtain r1 orc1 where en: "ro_entries J orc = (r1, orc1)" by fastforce
  obtain r2 orc2 where li: "ro_list P orc1 = (r2, orc2)" by fastforce
  note f1 = ro_entries_facts [OF en i] and f2 = ro_list_facts [OF li]
  have tc1: "tab orc1 = tab orc" "cont orc1 = cont orc" "inv orc1"
    and tc2: "tab orc2 = tab orc" "cont orc2 = cont orc" "inv orc2"
    using f1 f2 by auto
  have quiet: "inv orc' \<and> covered base orc' \<and> (closed orc \<longrightarrow> closed orc') \<and>
      apply_result t pid rs orc r orc'"
    if "orc' \<in> {orc, orc1, orc2}" and "\<exists>x. r = Err x"
    using that tc1 tc2 i c by (auto simp: apply_result_same covered_def closed_def)
  show ?thesis
  proof (cases "\<exists>es. validate_plan t pid rs = Ok () \<and> r1 = Ok es")
    case False
    have "orc' \<in> {orc, orc1} \<and> (\<exists>x. r = Err x)"
    proof (cases "validate_plan t pid rs")
      case (Err x)
      with run have "r = Err x" "orc' = orc" by (simp_all add: ro_apply_def)
      then show ?thesis by simp
    next
      case (Ok u)
      with False obtain x where "r1 = Err x" by (cases r1) auto
      with Ok run en show ?thesis by (auto simp: ro_apply_def)
    qed
    with quiet show ?thesis by auto
  next
    case True
    then obtain es where val: "validate_plan t pid rs = Ok ()" and es: "r1 = Ok es" by blast
    have fe: "find (\<lambda>e. je_transaction_id e = t) es = cont orc t"
      using find_entry en es i by blast
    show ?thesis
    proof (cases "cont orc t")
      case (Some e)
      with run val en es fe have "(r, orc') =
          (if je_profile_id e = pid \<and> je_desired_routes e = rs \<and> je_state e = Applied
           then (Ok (), orc1) else (Err InvalidStateTransition, orc1))"
        by (simp add: ro_apply_def)
      with Some tc1 c show ?thesis
        by (auto simp: apply_result_def covered_def closed_def split: if_splits)
    next
      case None
      show ?thesis
      proof (cases "\<exists>previous. r2 = Ok previous \<and>
          is_ok (reject_conflicts previous rs (ro_conflict_policy orc2))")
        case False
        with run val en es fe None li have "orc' = orc2" "\<exists>x. r = Err x"
          by (cases r2; auto simp: ro_apply_def not_is_ok_iff)+
        with quiet show ?thesis by auto
      next
        case True
        then obtain previous where prev: "r2 = Ok previous"
          "reject_conflicts previous rs (ro_conflict_policy orc2) = Ok ()"
          by (auto simp: is_ok_iff)
        define e where "e = \<lparr>je_transaction_id = t, je_profile_id = pid,
          je_desired_routes = rs, je_applied_routes = [], je_pending_route = None,
          je_previous_routes = previous, je_state = Prepared\<rparr>"
        have run3: "(case ro_save J e orc2 of (Err x, orc) \<Rightarrow> (Err x, orc)
            | (Ok _, orc) \<Rightarrow> apply_routes P J rs e orc) = (r, orc')"
          using run val en es fe None li prev unfolding e_def by (simp add: ro_apply_def Let_def)
        have "tracked base e orc2"
          using c tc2 journal_claims_none [of "cont orc" t, OF None]
          by (simp add: tracked_def covered_def others_def e_def)
        moreover have "covered base orc2" using c tc2 by (simp add: covered_def)
        moreover have e: "je_applied_routes e = []" "je_pending_route e = None"
          "je_state e = Prepared" "je_transaction_id e = t" "je_desired_routes e = rs"
          "je_profile_id e = pid"
          by (simp_all add: e_def)
        ultimately have post: "inv orc' \<and> covered base orc' \<and> (closed orc2 \<longrightarrow> closed orc') \<and>
          tab orc2 \<subseteq># tab orc' \<and> tab orc' \<subseteq># tab orc2 + mset rs \<and>
          (cont orc')(t := None) = (cont orc2)(t := None) \<and>
          (case r of
             Ok _ \<Rightarrow> tab orc' = tab orc2 + mset rs \<and> cont orc' t =
               Some (e\<lparr>je_applied_routes := rs, je_pending_route := None, je_state := Applied\<rparr>)
           | Err x \<Rightarrow> x \<noteq> RouteRollbackFailed \<longrightarrow> tab orc' = tab orc2)"
          using ro_apply_new [OF run3 e(1-3) tc2(3), of base] unfolding e(4) by blast
        have "closed orc2 = closed orc" using tc2 by (simp add: closed_def)
        with post tc2 None e show ?thesis
          by (cases r) (simp_all add: apply_result_def)
      qed
    qed
  qed
qed

lemma ro_rollback_post:
  assumes run: "ro_rollback P J t orc = (r, orc')" and i: "inv orc" and c: "covered base orc"
  shows "inv orc' \<and> covered base orc' \<and> (closed orc \<longrightarrow> closed orc') \<and>
    tab orc' \<subseteq># tab orc \<and> (cont orc')(t := None) = (cont orc)(t := None) \<and>
    (r = Ok () \<longrightarrow> (case cont orc t of
       None \<Rightarrow> tab orc' = tab orc \<and> cont orc' = cont orc
     | Some e \<Rightarrow> if je_state e = RolledBack then tab orc' = tab orc \<and> cont orc' = cont orc
         else tab orc' = tab orc - entry_claims e \<and> cont orc' = (cont orc)(t \<mapsto> rolled_back e)))"
proof -
  obtain r1 orc1 where en: "ro_entries J orc = (r1, orc1)" by fastforce
  note f = ro_entries_facts [OF en i]
  have c1: "covered base orc1" "closed orc1 = closed orc"
    using f c by (simp_all add: covered_def closed_def)
  show ?thesis
  proof (cases r1)
    case (Err x)
    with run en f c1 show ?thesis by (auto simp: ro_rollback_def)
  next
    case (Ok es)
    have fe: "find (\<lambda>e. je_transaction_id e = t) es = cont orc t"
      using find_entry en Ok i by blast
    show ?thesis
    proof (cases "\<exists>e. cont orc t = Some e \<and> je_state e \<noteq> RolledBack")
      case False
      with run en Ok fe f c1 show ?thesis
        by (auto simp: ro_rollback_def split: option.splits)
    next
      case True
      then obtain e where e: "cont orc t = Some e" "je_state e \<noteq> RolledBack" by blast
      then have key: "je_transaction_id e = t"
        using i by (auto simp: inv_def cont_def content_key)
      have "rollback_entry P J e orc1 = (r, orc')"
        using run en Ok fe e by (simp add: ro_rollback_def)
      moreover have "tracked base e orc1"
        using c1(1) covered_tracked [OF f(3), of e base] f(2) e(1) key by simp
      ultimately have "rollback_post base e orc1 r orc'"
        using f(3) c1(1) by (intro rollback_entry_post)
      with e key f c1 show ?thesis by (auto simp: rollback_post_def split: result.splits)
    qed
  qed
qed

lemma rollback_entries_post:
  assumes "rollback_entries P J es orc = (r, orc')" and "inv orc" and "covered base orc"
    and "distinct (map je_transaction_id es)"
    and "\<And>e. e \<in> set es \<Longrightarrow> cont orc (je_transaction_id e) = Some e \<and> je_state e \<noteq> RolledBack"
  shows "inv orc' \<and> covered base orc' \<and> (closed orc \<longrightarrow> closed orc') \<and> tab orc' \<subseteq># tab orc \<and>
    (\<forall>t. t \<notin> je_transaction_id ` set es \<longrightarrow> cont orc' t = cont orc t) \<and>
    (r = Ok () \<longrightarrow> (\<forall>e\<in>set es. cont orc' (je_transaction_id e) = Some (rolled_back e)))"
  using assms
proof (induction es arbitrary: orc)
  case Nil
  then show ?case by auto
next
  case (Cons e es)
  obtain r1 orc1 where rb: "rollback_entry P J e orc = (r1, orc1)" by fastforce
  have ke: "cont orc (je_transaction_id e) = Some e" "je_state e \<noteq> RolledBack"
    using Cons.prems(5) by auto
  then have "tracked base e orc" using covered_tracked Cons.prems(2,3) by blast
  then have post: "rollback_post base e orc r1 orc1"
    using rollback_entry_post [OF rb] Cons.prems(2,3) by blast
  then have off: "cont orc1 t = cont orc t" if "t \<noteq> je_transaction_id e" for t
    using that by (auto simp: rollback_post_def dest: fun_cong [of _ _ t])
  show ?case
  proof (cases r1)
    case (Err x)
    with Cons.prems(1) rb post off ke show ?thesis
      by (auto simp: rollback_post_def)
  next
    case (Ok u)
    with Cons.prems(1) rb have run: "rollback_entries P J es orc1 = (r, orc')" by simp
    have "inv orc1" "covered base orc1" using post by (auto simp: rollback_post_def)
    moreover have "cont orc1 (je_transaction_id e') = Some e' \<and> je_state e' \<noteq> RolledBack"
      if "e' \<in> set es" for e'
      using that Cons.prems(4,5) off by (auto simp: image_iff)
    ultimately have IH: "inv orc' \<and> covered base orc' \<and> (closed orc1 \<longrightarrow> closed orc') \<and>
        tab orc' \<subseteq># tab orc1 \<and>
        (\<forall>t. t \<notin> je_transaction_id ` set es \<longrightarrow> cont orc' t = cont orc1 t) \<and>
        (r = Ok () \<longrightarrow> (\<forall>e\<in>set es. cont orc' (je_transaction_id e) = Some (rolled_back e)))"
      using Cons.IH [OF run] Cons.prems(4) by simp
    have "cont orc1 (je_transaction_id e) = Some (rolled_back e)" "tab orc1 \<subseteq># tab orc"
      "closed orc \<longrightarrow> closed orc1"
      using post Ok ke by (auto simp: rollback_post_def)
    with IH off Cons.prems(4) show ?thesis
      by (auto intro: subset_mset.trans)
  qed
qed

lemma recover_stale_post:
  assumes run: "recover_stale P J orc = (r, orc')" and i: "inv orc" and c: "covered base orc"
  shows "inv orc' \<and> covered base orc' \<and> (closed orc \<longrightarrow> closed orc') \<and> tab orc' \<subseteq># tab orc \<and>
    (r = Ok () \<longrightarrow> (\<forall>t e. cont orc' t = Some e \<longrightarrow> je_state e = RolledBack))"
proof -
  obtain r1 orc1 where en: "ro_entries J orc = (r1, orc1)" by fastforce
  note f = ro_entries_facts [OF en i]
  have c1: "covered base orc1" "closed orc1 = closed orc"
    using f c by (simp_all add: covered_def closed_def)
  show ?thesis
  proof (cases r1)
    case (Err x)
    with run en f c1 show ?thesis by (auto simp: recover_stale_def)
  next
    case (Ok es)
    let ?es = "filter (\<lambda>entry. je_state entry \<in> {Prepared, Applied}) es"
    have es: "set es = ran (cont orc)" "distinct (map je_transaction_id es)"
      using f(4) [OF Ok] by auto
    have key: "cont orc (je_transaction_id e) = Some e" if "e \<in> set es" for e
      using that es(1) i by (auto simp: ran_def inv_def cont_def content_key)
    have "rollback_entries P J ?es orc1 = (r, orc')"
      using run en Ok by (simp add: recover_stale_def)
    moreover have "distinct (map je_transaction_id ?es)"
      by (rule distinct_map_filter [OF es(2)])
    moreover have "cont orc1 (je_transaction_id e) = Some e \<and> je_state e \<noteq> RolledBack"
      if "e \<in> set ?es" for e using that key f(2) by auto
    ultimately have post: "inv orc' \<and> covered base orc' \<and> (closed orc1 \<longrightarrow> closed orc') \<and>
      tab orc' \<subseteq># tab orc1 \<and>
      (\<forall>t. t \<notin> je_transaction_id ` set ?es \<longrightarrow> cont orc' t = cont orc1 t) \<and>
      (r = Ok () \<longrightarrow> (\<forall>e\<in>set ?es. cont orc' (je_transaction_id e) = Some (rolled_back e)))"
      using f(3) c1(1) by (intro rollback_entries_post) auto
    have "je_state e = RolledBack" if "r = Ok ()" "cont orc' t = Some e" for t e
    proof (cases "t \<in> je_transaction_id ` set ?es")
      case True
      with post that show ?thesis by (auto simp: rolled_back_def)
    next
      case False
      with post that f(2) have t: "cont orc t = Some e" by simp
      then have "e \<in> set es" using es(1) by (auto intro: ranI)
      moreover have "je_transaction_id e = t"
        using t i by (simp add: inv_def cont_def content_key)
      ultimately show ?thesis using False by (cases "je_state e") (auto simp: image_iff)
    qed
    with post [unfolded c1(2) f(1)] show ?thesis by blast
  qed
qed

text \<open>Once recovery succeeds, nothing the orchestrator installed is left.\<close>

lemma recovered_table:
  assumes "covered base orc" and "closed orc"
    and "\<And>t e. cont orc t = Some e \<Longrightarrow> je_state e = RolledBack"
  shows "tab orc \<subseteq># base"
proof -
  have "journal_claims (cont orc) = {#}"
    using assms(2,3) by (intro journal_claims_empty) (auto simp: closed_def)
  with assms(1) show ?thesis by (simp add: covered_def)
qed

end

subsection \<open>The implementations keep the laws\<close>

lemma map_of_assoc_insert [simp]: "map_of (assoc_insert k v m) = (map_of m)(k \<mapsto> v)"
  by (induction k v m rule: assoc_insert.induct) auto

lemma keys_assoc_insert [simp]: "fst ` set (assoc_insert k v m) = insert k (fst ` set m)"
  by (induction k v m rule: assoc_insert.induct) auto

lemma distinct_assoc_insert [simp]:
  "distinct (map fst m) \<Longrightarrow> distinct (map fst (assoc_insert k v m))"
  by (induction k v m rule: assoc_insert.induct) auto

lemma set_assoc_insert: "x \<in> set (assoc_insert k v m) \<Longrightarrow> x = (k, v) \<or> x \<in> set m"
  by (induction k v m rule: assoc_insert.induct) (auto split: if_splits)

definition memory_inv :: "MemoryRouteJournal \<Rightarrow> bool" where
  "memory_inv m \<longleftrightarrow> distinct (map fst m) \<and> list_all (\<lambda>(k, e). je_transaction_id e = k) m"

lemma memory_keys: "memory_inv m \<Longrightarrow> map (je_transaction_id \<circ> snd) m = map fst m"
  by (auto simp: memory_inv_def list_all_iff)

lemma memory_entries:
  assumes "memory_inv m"
  shows "snd ` set m = ran (map_of m)" and "distinct (map (je_transaction_id \<circ> snd) m)"
proof -
  from assms have d: "distinct (map fst m)" by (simp add: memory_inv_def)
  then show "snd ` set m = ran (map_of m)" by (simp add: ran_distinct)
  from d show "distinct (map (je_transaction_id \<circ> snd) m)" by (simp only: memory_keys [OF assms])
qed

lemma memory_inv_save: "memory_inv m \<Longrightarrow> memory_inv (assoc_insert (je_transaction_id e) e m)"
  by (auto simp: memory_inv_def list_all_iff dest: set_assoc_insert)

lemma memory_content_key: "memory_inv m \<Longrightarrow> map_of m t = Some e \<Longrightarrow> je_transaction_id e = t"
  by (auto simp: memory_inv_def list_all_iff dest: map_of_SomeD)

lemmas memory_defs =
  MemoryRouteJournal_impl_def MemoryRouteJournal_entries_def MemoryRouteJournal_save_def

interpretation memory_journal: route_journal MemoryRouteJournal_impl map_of memory_inv
  by unfold_locales
    (simp_all add: memory_defs finite_dom_map_of memory_content_key memory_inv_save memory_entries,
     auto simp: memory_inv_save memory_entries)

lemmas failing_defs =
  FailingJournal_impl_def FailingJournal_entries_def FailingJournal_save_def Let_def

interpretation failing_journal: route_journal FailingJournal_impl "\<lambda>j. map_of (fj_inner j)"
    "\<lambda>j. memory_inv (fj_inner j)"
  by unfold_locales
    (simp_all add: failing_defs memory_defs finite_dom_map_of memory_content_key split: if_splits,
     auto simp: memory_inv_save memory_entries)

lemmas fake_defs =
  FakePlatform_impl_def FakePlatform_list_routes_def FakePlatform_add_route_def
  FakePlatform_remove_route_def

interpretation fake_platform: route_platform FakePlatform_impl "\<lambda>p. mset (fp_added p)"
  by unfold_locales (auto simp: fake_defs split: if_splits)

interpretation fake_orchestrator: route_orchestrator FakePlatform_impl "\<lambda>p. mset (fp_added p)"
    FailingJournal_impl "\<lambda>j. map_of (fj_inner j)" "\<lambda>j. memory_inv (fj_inner j)"
  by unfold_locales

end
