(* ===== verification/Std_Fs.thy ===== *)
theory Std_Fs
  imports Prelude
begin

section \<open>Files\<close>

text \<open>
  The part of \<open>std::fs\<close> and \<open>std::path\<close> the persistent stores call.  A world
  maps paths to nodes and carries a fault script: every call takes the next
  element of the script and fails, without effect, when it is set.  The
  contents of a file are a parameter type; \<open>None\<close> is a file that has been
  created but not completely written.  Paths are normal: no trailing or doubled
  separator.
\<close>

datatype 'b fs_node = Directory | Regular "'b option" | Special

record 'b fs_world =
  fs_nodes :: "string \<rightharpoonup> 'b fs_node"
  fs_faults :: "bool list"

datatype io_error = NotFound | OtherIo

type_synonym 'a io_result = "(io_error, 'a) result"

definition fs_call :: "'b fs_world \<Rightarrow> bool \<times> 'b fs_world" where
  "fs_call w = (case fs_faults w of [] \<Rightarrow> (False, w) | f # fs \<Rightarrow> (f, w\<lparr>fs_faults := fs\<rparr>))"

primrec is_file :: "'b fs_node \<Rightarrow> bool" where
  "is_file Directory = False"
| "is_file (Regular _) = True"
| "is_file Special = False"

primrec is_dir :: "'b fs_node \<Rightarrow> bool" where
  "is_dir Directory = True"
| "is_dir (Regular _) = False"
| "is_dir Special = False"

text \<open>\<open>symlink_metadata\<close> does not follow links: a link is a special node.\<close>

definition symlink_metadata :: "string \<Rightarrow> 'b fs_world \<Rightarrow> 'b fs_node io_result \<times> 'b fs_world" where
  "symlink_metadata path w =
     (case fs_call w of
        (True, w) \<Rightarrow> (Err OtherIo, w)
      | (False, w) \<Rightarrow> (ok_or (fs_nodes w path) NotFound, w))"

definition fs_read :: "string \<Rightarrow> 'b fs_world \<Rightarrow> 'b option io_result \<times> 'b fs_world" where
  "fs_read path w =
     (case fs_call w of
        (True, w) \<Rightarrow> (Err OtherIo, w)
      | (False, w) \<Rightarrow>
          (case fs_nodes w path of
             None \<Rightarrow> (Err NotFound, w)
           | Some (Regular b) \<Rightarrow> (Ok b, w)
           | Some _ \<Rightarrow> (Err OtherIo, w)))"

text \<open>\<open>OpenOptions::new().write(true).create_new(true).open\<close>.\<close>

definition fs_create_new :: "string \<Rightarrow> 'b fs_world \<Rightarrow> unit io_result \<times> 'b fs_world" where
  "fs_create_new path w =
     (case fs_call w of
        (True, w) \<Rightarrow> (Err OtherIo, w)
      | (False, w) \<Rightarrow>
          (case fs_nodes w path of
             None \<Rightarrow> (Ok (), w\<lparr>fs_nodes := (fs_nodes w)(path \<mapsto> Regular None)\<rparr>)
           | Some _ \<Rightarrow> (Err OtherIo, w)))"

definition fs_write_all :: "string \<Rightarrow> 'b \<Rightarrow> 'b fs_world \<Rightarrow> unit io_result \<times> 'b fs_world" where
  "fs_write_all path bytes w =
     (case fs_call w of
        (True, w) \<Rightarrow> (Err OtherIo, w)
      | (False, w) \<Rightarrow> (Ok (), w\<lparr>fs_nodes := (fs_nodes w)(path \<mapsto> Regular (Some bytes))\<rparr>))"

definition fs_sync_all :: "'b fs_world \<Rightarrow> unit io_result \<times> 'b fs_world" where
  "fs_sync_all w = (case fs_call w of (True, w) \<Rightarrow> (Err OtherIo, w) | (False, w) \<Rightarrow> (Ok (), w))"

definition fs_rename :: "string \<Rightarrow> string \<Rightarrow> 'b fs_world \<Rightarrow> unit io_result \<times> 'b fs_world" where
  "fs_rename src dst w =
     (case fs_call w of
        (True, w) \<Rightarrow> (Err OtherIo, w)
      | (False, w) \<Rightarrow>
          (case fs_nodes w src of
             None \<Rightarrow> (Err NotFound, w)
           | Some n \<Rightarrow>
               if fs_nodes w dst = Some Directory then (Err OtherIo, w)
               else (Ok (), w\<lparr>fs_nodes := (fs_nodes w)(src := None, dst \<mapsto> n)\<rparr>)))"

definition fs_remove_file :: "string \<Rightarrow> 'b fs_world \<Rightarrow> unit io_result \<times> 'b fs_world" where
  "fs_remove_file path w =
     (case fs_call w of
        (True, w) \<Rightarrow> (Err OtherIo, w)
      | (False, w) \<Rightarrow>
          (case fs_nodes w path of
             None \<Rightarrow> (Err NotFound, w)
           | Some Directory \<Rightarrow> (Err OtherIo, w)
           | Some _ \<Rightarrow> (Ok (), w\<lparr>fs_nodes := (fs_nodes w)(path := None)\<rparr>)))"

definition fs_set_permissions :: "string \<Rightarrow> 'b fs_world \<Rightarrow> unit io_result \<times> 'b fs_world" where
  "fs_set_permissions path w =
     (case fs_call w of
        (True, w) \<Rightarrow> (Err OtherIo, w)
      | (False, w) \<Rightarrow> (if fs_nodes w path = None then Err NotFound else Ok (), w))"

definition path_parent :: "string \<Rightarrow> string option" where
  "path_parent path =
     (if path = [] \<or> path = ''/'' then None
      else case rsplit_once CHR ''/'' path of
        None \<Rightarrow> Some []
      | Some (a, _) \<Rightarrow> Some (if a = [] then ''/'' else a))"

lemma path_parent_shorter:
  assumes "path_parent path = Some q" and "length path \<noteq> 1"
  shows "length q < length path"
  using assms
  by (auto simp: path_parent_def rsplit_once_Some split: if_splits option.splits)

text \<open>
  The ancestors first, each created when it is absent.  A one-character path is
  the root or stands in the working directory, which exist.
\<close>

function fs_create_dir_all :: "string \<Rightarrow> 'b fs_world \<Rightarrow> unit io_result \<times> 'b fs_world" where
  "fs_create_dir_all path w =
     (if path = [] then (Ok (), w)
      else case fs_call w of
        (True, w) \<Rightarrow> (Err OtherIo, w)
      | (False, w) \<Rightarrow>
          (case fs_nodes w path of
             Some Directory \<Rightarrow> (Ok (), w)
           | Some _ \<Rightarrow> (Err OtherIo, w)
           | None \<Rightarrow>
               if length path = 1
               then (Ok (), w\<lparr>fs_nodes := (fs_nodes w)(path \<mapsto> Directory)\<rparr>)
               else (case path_parent path of
                       None \<Rightarrow> (Err NotFound, w)
                     | Some parent \<Rightarrow>
                         (case fs_create_dir_all parent w of
                            (Err e, w) \<Rightarrow> (Err e, w)
                          | (Ok _, w) \<Rightarrow>
                              (Ok (), w\<lparr>fs_nodes := (fs_nodes w)(path \<mapsto> Directory)\<rparr>)))))"
  by pat_completeness auto

termination
  by (relation "measure (\<lambda>(path, w). length path)") (auto dest: path_parent_shorter)

declare fs_create_dir_all.simps [simp del]

subsection \<open>What the calls leave alone\<close>

lemma fs_call_nodes [simp]: "fs_call w = (b, w') \<Longrightarrow> fs_nodes w' = fs_nodes w"
  by (auto simp: fs_call_def split: list.splits)

lemmas fs_defs =
  symlink_metadata_def fs_read_def fs_create_new_def fs_write_all_def fs_sync_all_def
  fs_rename_def fs_remove_file_def fs_set_permissions_def

lemma symlink_metadata_nodes: "symlink_metadata path w = (r, w') \<Longrightarrow>
    fs_nodes w' = fs_nodes w \<and> (r = Err OtherIo \<or> r = ok_or (fs_nodes w path) NotFound)"
  by (auto simp: symlink_metadata_def split: prod.splits bool.splits)

lemma fs_read_nodes: "fs_read path w = (r, w') \<Longrightarrow>
    fs_nodes w' = fs_nodes w \<and> (\<forall>b. r = Ok b \<longrightarrow> fs_nodes w path = Some (Regular b))"
  by (auto simp: fs_read_def split: prod.splits bool.splits option.splits fs_node.splits)

lemma fs_create_new_nodes: "fs_create_new path w = (r, w') \<Longrightarrow>
    q \<noteq> path \<Longrightarrow> fs_nodes w' q = fs_nodes w q"
  by (auto simp: fs_create_new_def split: prod.splits bool.splits option.splits)

lemma fs_write_all_nodes: "fs_write_all path b w = (r, w') \<Longrightarrow>
    (q \<noteq> path \<longrightarrow> fs_nodes w' q = fs_nodes w q) \<and>
    (r = Ok () \<longrightarrow> fs_nodes w' path = Some (Regular (Some b)))"
  by (auto simp: fs_write_all_def split: prod.splits bool.splits)

lemma fs_sync_all_nodes: "fs_sync_all w = (r, w') \<Longrightarrow> fs_nodes w' = fs_nodes w"
  by (auto simp: fs_sync_all_def split: prod.splits bool.splits)

lemma fs_rename_nodes: "fs_rename src dst w = (r, w') \<Longrightarrow> src \<noteq> dst \<Longrightarrow>
    (q \<noteq> src \<longrightarrow> q \<noteq> dst \<longrightarrow> fs_nodes w' q = fs_nodes w q) \<and>
    fs_nodes w' dst = (if r = Ok () then fs_nodes w src else fs_nodes w dst)"
  by (auto simp: fs_rename_def split: prod.splits bool.splits option.splits if_splits)

lemma fs_remove_file_nodes: "fs_remove_file path w = (r, w') \<Longrightarrow> q \<noteq> path \<Longrightarrow> fs_nodes w' q = fs_nodes w q"
  by (auto simp: fs_remove_file_def split: prod.splits bool.splits option.splits fs_node.splits)

lemma fs_set_permissions_nodes: "fs_set_permissions path w = (r, w') \<Longrightarrow> fs_nodes w' = fs_nodes w"
  by (auto simp: fs_set_permissions_def split: prod.splits bool.splits)

lemma fs_create_dir_all_nodes:
  "fs_create_dir_all path w = (r, w') \<Longrightarrow> length path < length q \<Longrightarrow> fs_nodes w' q = fs_nodes w q"
proof (induction "length path" arbitrary: path w r w' rule: less_induct)
  case less
  obtain b w1 where c: "fs_call w = (b, w1)" by fastforce
  show ?case
  proof (cases "path = [] \<or> b \<or> fs_nodes w1 path \<noteq> None \<or> length path = 1 \<or> path_parent path = None")
    case True
    with less.prems c show ?thesis
      by (auto simp: fs_create_dir_all.simps [of path]
          split: if_splits option.splits fs_node.splits bool.splits)
  next
    case False
    then obtain parent where p: "path_parent path = Some parent" by auto
    obtain r2 w2 where rec: "fs_create_dir_all parent w1 = (r2, w2)" by fastforce
    have short: "length parent < length path" using path_parent_shorter [OF p] False by simp
    have "fs_nodes w2 q = fs_nodes w1 q"
      using less.hyps [OF short rec] short less.prems(2) by simp
    with less.prems c False p rec show ?thesis
      by (auto simp: fs_create_dir_all.simps [of path] split: result.splits)
  qed
qed

end
