(* ===== verification/File_Journal.thy ===== *)
theory File_Journal
  imports Route Std_Fs "HOL-Library.List_Lexorder" "HOL-Library.Char_ord"
begin

section \<open>The journal on disk\<close>

text \<open>
  \<open>FileRouteJournal\<close> of \<open>networking/route.rs\<close>: one JSON document that is read
  in full, changed, sorted and replaced by writing a private temporary file and
  renaming it over the old one.  The JSON library is the codec field of the
  journal, a pair of functions the program is linked with; \<open>codec_ok\<close> is what is
  used of it, that a document it has written reads back.  Every file system
  call may fail, by the fault script of \<open>Std_Fs\<close>.
\<close>

record RouteJournalDocument =
  rjd_version :: u8
  rjd_entries :: "RouteJournalEntry list"

record 'b journal_codec =
  to_vec_pretty :: "RouteJournalDocument \<Rightarrow> 'b option"
  from_slice :: "'b \<Rightarrow> RouteJournalDocument option"

definition codec_ok :: "'b journal_codec \<Rightarrow> bool" where
  "codec_ok c \<longleftrightarrow> (\<forall>d b. to_vec_pretty c d = Some b \<longrightarrow> from_slice c b = Some d)"

record 'b FileRouteJournal =
  frj_path :: string
  frj_codec :: "'b journal_codec"
  frj_world :: "'b fs_world"
  frj_process_id :: nat
  frj_temp_sequence :: u64

definition ROUTE_JOURNAL_VERSION :: u8 where
  "ROUTE_JOURNAL_VERSION = 1"

definition read_document ::
  "'b FileRouteJournal \<Rightarrow> RouteJournalDocument net_result \<times> 'b FileRouteJournal" where
  "read_document j =
     (case symlink_metadata (frj_path j) (frj_world j) of
        (Ok metadata, w) \<Rightarrow>
          (if \<not> is_file metadata then (Err RouteJournalUnavailable, j\<lparr>frj_world := w\<rparr>)
           else case fs_read (frj_path j) w of
             (Err _, w) \<Rightarrow> (Err RouteJournalUnavailable, j\<lparr>frj_world := w\<rparr>)
           | (Ok bytes, w) \<Rightarrow>
               (case Option.bind bytes (from_slice (frj_codec j)) of
                  None \<Rightarrow> (Err RouteJournalCorrupted, j\<lparr>frj_world := w\<rparr>)
                | Some document \<Rightarrow>
                    if rjd_version document \<noteq> ROUTE_JOURNAL_VERSION
                    then (Err RouteJournalCorrupted, j\<lparr>frj_world := w\<rparr>)
                    else (Ok document, j\<lparr>frj_world := w\<rparr>)))
      | (Err NotFound, w) \<Rightarrow>
          (Ok \<lparr>rjd_version = ROUTE_JOURNAL_VERSION, rjd_entries = []\<rparr>, j\<lparr>frj_world := w\<rparr>)
      | (Err OtherIo, w) \<Rightarrow> (Err RouteJournalUnavailable, j\<lparr>frj_world := w\<rparr>))"

definition temporary_journal_path ::
  "string \<Rightarrow> 'b FileRouteJournal \<Rightarrow> string \<times> 'b FileRouteJournal" where
  "temporary_journal_path path j =
     (path @ ''.tmp.'' @ nat_to_string (frj_process_id j) @ ''.'' @
        nat_to_string (unat (frj_temp_sequence j)),
      j\<lparr>frj_temp_sequence := frj_temp_sequence j + 1\<rparr>)"

definition ensure_private_directory :: "string \<Rightarrow> 'b fs_world \<Rightarrow> unit net_result \<times> 'b fs_world" where
  "ensure_private_directory path w =
     (case fs_create_dir_all path w of
        (Err _, w) \<Rightarrow> (Err RouteJournalUnavailable, w)
      | (Ok _, w) \<Rightarrow>
     (case symlink_metadata path w of
        (Err _, w) \<Rightarrow> (Err RouteJournalUnavailable, w)
      | (Ok metadata, w) \<Rightarrow>
          if \<not> is_dir metadata then (Err RouteJournalUnavailable, w)
          else (case fs_set_permissions path w of
                  (Err _, w) \<Rightarrow> (Err RouteJournalUnavailable, w)
                | (Ok _, w) \<Rightarrow> (Ok (), w))))"

text \<open>The closure in \<open>write_document\<close>: create, serialise, write, sync, rename.\<close>

definition write_temporary ::
  "'b journal_codec \<Rightarrow> string \<Rightarrow> string \<Rightarrow> RouteJournalDocument \<Rightarrow> 'b fs_world \<Rightarrow>
     unit net_result \<times> 'b fs_world" where
  "write_temporary codec temp_path path document w =
     (case fs_create_new temp_path w of
        (Err _, w) \<Rightarrow> (Err RouteJournalUnavailable, w)
      | (Ok _, w) \<Rightarrow>
     (case to_vec_pretty codec document of
        None \<Rightarrow> (Err RouteJournalUnavailable, w)
      | Some bytes \<Rightarrow>
     (case fs_write_all temp_path bytes w of
        (Err _, w) \<Rightarrow> (Err RouteJournalUnavailable, w)
      | (Ok _, w) \<Rightarrow>
     (case fs_sync_all w of
        (Err _, w) \<Rightarrow> (Err RouteJournalUnavailable, w)
      | (Ok _, w) \<Rightarrow>
     (case fs_rename temp_path path w of
        (Err _, w) \<Rightarrow> (Err RouteJournalUnavailable, w)
      | (Ok _, w) \<Rightarrow> (Ok (), w))))))"

definition write_document ::
  "RouteJournalDocument \<Rightarrow> 'b FileRouteJournal \<Rightarrow> unit net_result \<times> 'b FileRouteJournal" where
  "write_document document j =
     (case path_parent (frj_path j) of
        None \<Rightarrow> (Err RouteJournalUnavailable, j)
      | Some parent \<Rightarrow>
     (case ensure_private_directory parent (frj_world j) of
        (Err e, w) \<Rightarrow> (Err e, j\<lparr>frj_world := w\<rparr>)
      | (Ok _, w) \<Rightarrow>
     (case symlink_metadata (frj_path j) w of (metadata, w) \<Rightarrow>
        if (case metadata of Ok m \<Rightarrow> \<not> is_file m | Err _ \<Rightarrow> False)
        then (Err RouteJournalUnavailable, j\<lparr>frj_world := w\<rparr>)
        else (case temporary_journal_path (frj_path j) j of (temp_path, j) \<Rightarrow>
     (case write_temporary (frj_codec j) temp_path (frj_path j) document w of
        (Ok _, w) \<Rightarrow> (Ok (), j\<lparr>frj_world := w\<rparr>)
      | (Err e, w) \<Rightarrow>
          (case fs_remove_file temp_path w of (_, w) \<Rightarrow> (Err e, j\<lparr>frj_world := w\<rparr>)))))))"

definition FileRouteJournal_entries ::
  "'b FileRouteJournal \<Rightarrow> RouteJournalEntry list net_result \<times> 'b FileRouteJournal" where
  "FileRouteJournal_entries j =
     (case read_document j of
        (Err e, j) \<Rightarrow> (Err e, j)
      | (Ok document, j) \<Rightarrow> (Ok (rjd_entries document), j))"

text \<open>Replace the entry of the same transaction, or append.\<close>

fun upsert_entry :: "RouteJournalEntry \<Rightarrow> RouteJournalEntry list \<Rightarrow> RouteJournalEntry list" where
  "upsert_entry entry [] = [entry]"
| "upsert_entry entry (candidate # es) =
     (if je_transaction_id candidate = je_transaction_id entry then entry # es
      else candidate # upsert_entry entry es)"

definition FileRouteJournal_save ::
  "RouteJournalEntry \<Rightarrow> 'b FileRouteJournal \<Rightarrow> unit net_result \<times> 'b FileRouteJournal" where
  "FileRouteJournal_save entry j =
     (case read_document j of
        (Err e, j) \<Rightarrow> (Err e, j)
      | (Ok document, j) \<Rightarrow>
          write_document
            (document\<lparr>rjd_entries :=
               sort_key je_transaction_id (upsert_entry entry (rjd_entries document))\<rparr>) j)"

definition FileRouteJournal_impl :: "'b FileRouteJournal RouteJournal" where
  "FileRouteJournal_impl = \<lparr>entries = FileRouteJournal_entries, save = FileRouteJournal_save\<rparr>"

subsection \<open>What is stored\<close>

text \<open>The document at the journal's path, when there is a readable one of this version.\<close>

definition stored_entries :: "'b FileRouteJournal \<Rightarrow> RouteJournalEntry list" where
  "stored_entries j =
     (case fs_nodes (frj_world j) (frj_path j) of
        Some (Regular (Some b)) \<Rightarrow>
          (case from_slice (frj_codec j) b of
             Some d \<Rightarrow> if rjd_version d = ROUTE_JOURNAL_VERSION then rjd_entries d else []
           | None \<Rightarrow> [])
      | _ \<Rightarrow> [])"

definition file_content :: "'b FileRouteJournal \<Rightarrow> (string \<rightharpoonup> RouteJournalEntry)" where
  "file_content j = map_of (map (\<lambda>e. (je_transaction_id e, e)) (stored_entries j))"

definition file_inv :: "'b FileRouteJournal \<Rightarrow> bool" where
  "file_inv j \<longleftrightarrow> codec_ok (frj_codec j) \<and> frj_path j \<noteq> [] \<and> length (frj_path j) \<noteq> 1 \<and>
     distinct (map je_transaction_id (stored_entries j))"

definition same_file :: "'b FileRouteJournal \<Rightarrow> 'b FileRouteJournal \<Rightarrow> bool" where
  "same_file j j' \<longleftrightarrow> frj_path j' = frj_path j \<and> frj_codec j' = frj_codec j \<and>
     fs_nodes (frj_world j') (frj_path j) = fs_nodes (frj_world j) (frj_path j)"

lemma same_file_stored: "same_file j j' \<Longrightarrow> stored_entries j' = stored_entries j"
  unfolding same_file_def stored_entries_def by (elim conjE) (simp only:)

lemma same_file_inv: "same_file j j' \<Longrightarrow> file_inv j' = file_inv j"
  by (simp add: file_inv_def same_file_stored) (simp add: same_file_def)

lemma read_document_same: "read_document j = (r, j') \<Longrightarrow> same_file j j'"
  by (auto simp: read_document_def same_file_def split: prod.splits result.splits if_splits
      option.splits io_error.splits dest!: symlink_metadata_nodes fs_read_nodes)

lemma read_document_Ok:
  "read_document j = (Ok d, j') \<Longrightarrow>
     rjd_version d = ROUTE_JOURNAL_VERSION \<and> rjd_entries d = stored_entries j"
  by (auto simp: read_document_def stored_entries_def ok_or_def split: prod.splits result.splits if_splits
      option.splits io_error.splits bind_splits dest!: symlink_metadata_nodes fs_read_nodes)

lemma ensure_private_directory_nodes:
  "ensure_private_directory path w = (r, w') \<Longrightarrow> length path < length q \<Longrightarrow> fs_nodes w' q = fs_nodes w q"
  by (auto simp: ensure_private_directory_def split: prod.splits result.splits if_splits
      dest!: fs_create_dir_all_nodes [of _ _ _ _ q] symlink_metadata_nodes fs_set_permissions_nodes)

lemma write_temporary_nodes:
  assumes "write_temporary codec temp path d w = (r, w')" and "temp \<noteq> path"
  shows "(\<forall>e. r = Err e \<longrightarrow> fs_nodes w' path = fs_nodes w path) \<and>
    (r = Ok () \<longrightarrow> (\<exists>b. to_vec_pretty codec d = Some b \<and>
       fs_nodes w' path = Some (Regular (Some b))))"
  using assms
  by (auto simp: write_temporary_def split: prod.splits result.splits option.splits
      dest!: fs_create_new_nodes [of _ _ _ _ path] fs_write_all_nodes [of _ _ _ _ _ path]
        fs_sync_all_nodes fs_rename_nodes [of _ _ _ _ _ path])

lemma same_file_trans: "same_file a b \<Longrightarrow> same_file b c \<Longrightarrow> same_file a c"
  by (simp add: same_file_def)

lemma write_document_result:
  assumes "write_document d j = (r, j')" and "frj_path j \<noteq> []" and "length (frj_path j) \<noteq> 1"
  shows "frj_path j' = frj_path j \<and> frj_codec j' = frj_codec j \<and>
    ((\<exists>e. r = Err e) \<and> same_file j j' \<or>
     r = Ok () \<and> (\<exists>b. to_vec_pretty (frj_codec j) d = Some b \<and>
       fs_nodes (frj_world j') (frj_path j) = Some (Regular (Some b))))"
proof (cases "path_parent (frj_path j)")
  case None
  with assms show ?thesis by (auto simp: write_document_def same_file_def)
next
  case (Some parent)
  let ?p = "frj_path j"
  have short: "length parent < length ?p" using path_parent_shorter [OF Some] assms(3) by simp
  obtain r1 w1 where en: "ensure_private_directory parent (frj_world j) = (r1, w1)" by fastforce
  note n1 = ensure_private_directory_nodes [OF en short]
  obtain m w2 where sm: "symlink_metadata ?p w1 = (m, w2)" by fastforce
  note n2 = symlink_metadata_nodes [OF sm]
  obtain temp j3 where tp: "temporary_journal_path ?p j = (temp, j3)" by fastforce
  then have t: "temp \<noteq> ?p" and j3: "frj_path j3 = ?p" "frj_codec j3 = frj_codec j"
    by (auto simp: temporary_journal_path_def)
  obtain r4 w4 where wt: "write_temporary (frj_codec j) temp ?p d w2 = (r4, w4)" by fastforce
  note n4 = write_temporary_nodes [OF wt t]
  obtain r5 w5 where rm: "fs_remove_file temp w4 = (r5, w5)" by fastforce
  have n5: "fs_nodes w5 ?p = fs_nodes w4 ?p" using fs_remove_file_nodes [OF rm] t by metis
  show ?thesis
  proof (cases "r1 = Ok () \<and> \<not> (case m of Ok m \<Rightarrow> \<not> is_file m | Err _ \<Rightarrow> False)")
    case False
    with assms(1) Some en sm n1 n2 show ?thesis
      by (cases r1; cases m) (auto simp: write_document_def same_file_def)
  next
    case True
    with assms(1) Some en sm tp wt rm j3 have "(r, j') = (case r4 of
        Ok _ \<Rightarrow> (Ok (), j3\<lparr>frj_world := w4\<rparr>) | Err e \<Rightarrow> (Err e, j3\<lparr>frj_world := w5\<rparr>))"
      by (cases r4) (auto simp: write_document_def)
    with n1 n2 n4 n5 j3 show ?thesis
      by (cases r4) (auto simp: same_file_def)
  qed
qed

lemma file_content_upsert:
  "map_of (map (\<lambda>e. (je_transaction_id e, e)) (upsert_entry entry es)) =
     (map_of (map (\<lambda>e. (je_transaction_id e, e)) es))(je_transaction_id entry \<mapsto> entry)"
  by (induction entry es rule: upsert_entry.induct) auto

lemma upsert_entry_ids: "je_transaction_id ` set (upsert_entry entry es) =
    insert (je_transaction_id entry) (je_transaction_id ` set es)"
  by (induction entry es rule: upsert_entry.induct) auto

lemma distinct_upsert_entry:
  "distinct (map je_transaction_id es) \<Longrightarrow> distinct (map je_transaction_id (upsert_entry entry es))"
  by (induction entry es rule: upsert_entry.induct) (auto simp: upsert_entry_ids)

lemma map_of_keyed:
  "distinct (map f xs) \<Longrightarrow> x \<in> set xs \<Longrightarrow> map_of (map (\<lambda>e. (f e, e)) xs) (f x) = Some x"
  by (induction xs) (auto simp: image_iff)

lemma map_of_keyed_perm:
  assumes "mset xs = mset ys" and "distinct (map f xs)"
  shows "map_of (map (\<lambda>e. (f e, e)) xs) = map_of (map (\<lambda>e. (f e, e)) ys)"
proof -
  have "distinct (map f ys)" using assms by (metis mset_map mset_eq_imp_distinct_iff)
  moreover have "set xs = set ys" using assms(1) by (rule mset_eq_setD)
  ultimately show ?thesis
    using assms(2) by (intro map_of_eqI ballI) (auto simp: map_of_keyed image_image)
qed

lemma FileRouteJournal_save_result:
  assumes "FileRouteJournal_save e j = (r, j')" and "file_inv j"
  shows "file_inv j' \<and> (case r of
      Ok _ \<Rightarrow> file_content j' = (file_content j)(je_transaction_id e \<mapsto> e)
    | Err _ \<Rightarrow> file_content j' = file_content j)"
proof -
  obtain r1 j1 where rd: "read_document j = (r1, j1)" by fastforce
  note s1 = read_document_same [OF rd]
  have i1: "file_inv j1" using same_file_inv [OF s1] assms(2) by simp
  have c1: "file_content j1 = file_content j" by (simp add: file_content_def same_file_stored [OF s1])
  show ?thesis
  proof (cases r1)
    case (Err x)
    with assms rd i1 c1 show ?thesis by (auto simp: FileRouteJournal_save_def)
  next
    case (Ok d)
    note d = read_document_Ok [OF rd [unfolded Ok]]
    let ?es = "sort_key je_transaction_id (upsert_entry e (stored_entries j))"
    have "write_document (d\<lparr>rjd_entries := ?es\<rparr>) j1 = (r, j')"
      using assms(1) rd Ok d by (simp add: FileRouteJournal_save_def)
    note w = write_document_result [OF this]
    have dist: "distinct (map je_transaction_id (upsert_entry e (stored_entries j)))"
      using assms(2) by (simp add: file_inv_def distinct_upsert_entry)
    show ?thesis
    proof (cases r)
      case (Err x)
      then have "same_file j1 j'" using w i1 by (auto simp: file_inv_def)
      with Err i1 c1 show ?thesis
        by (simp add: same_file_inv file_content_def same_file_stored)
    next
      case (Ok u)
      then obtain b where b: "to_vec_pretty (frj_codec j1) (d\<lparr>rjd_entries := ?es\<rparr>) = Some b"
        "fs_nodes (frj_world j') (frj_path j1) = Some (Regular (Some b))"
        "frj_path j' = frj_path j1" "frj_codec j' = frj_codec j1"
        using w i1 by (auto simp: file_inv_def)
      then have "from_slice (frj_codec j') b = Some (d\<lparr>rjd_entries := ?es\<rparr>)"
        using i1 by (auto simp: file_inv_def codec_ok_def)
      with b d have st: "stored_entries j' = ?es" by (simp add: stored_entries_def)
      have "file_content j' = (file_content j)(je_transaction_id e \<mapsto> e)"
        unfolding file_content_def st
        using map_of_keyed_perm [of "upsert_entry e (stored_entries j)" ?es je_transaction_id] dist
        by (simp add: file_content_upsert)
      moreover have "file_inv j'"
        using i1 b st dist by (simp add: file_inv_def) (metis distinct_map mset_map mset_eq_imp_distinct_iff mset_sort)
      ultimately show ?thesis using Ok by simp
    qed
  qed
qed

interpretation file_journal: route_journal FileRouteJournal_impl file_content file_inv
proof unfold_locales
  fix j :: "'b FileRouteJournal" and t e
  assume "file_inv j"
  show "finite (dom (file_content j))" by (simp add: file_content_def finite_dom_map_of)
  assume "file_content j t = Some e"
  then show "je_transaction_id e = t" by (auto simp: file_content_def dest: map_of_SomeD)
next
  fix j j' :: "'b FileRouteJournal" and r
  assume "file_inv j" and "entries FileRouteJournal_impl j = (r, j')"
  then have "same_file j j'" and "file_inv j"
    by (auto simp: FileRouteJournal_impl_def FileRouteJournal_entries_def
        split: prod.splits result.splits dest: read_document_same)
  then show "file_inv j' \<and> file_content j' = file_content j"
    by (simp add: same_file_inv file_content_def same_file_stored)
next
  fix j j' :: "'b FileRouteJournal" and es
  assume i: "file_inv j" and "entries FileRouteJournal_impl j = (Ok es, j')"
  then have "es = stored_entries j"
    by (auto simp: FileRouteJournal_impl_def FileRouteJournal_entries_def
        split: prod.splits result.splits dest: read_document_Ok)
  with i show "set es = ran (file_content j) \<and> distinct (map je_transaction_id es)"
    by (simp add: file_content_def file_inv_def ran_distinct comp_def image_image)
next
  fix j j' :: "'b FileRouteJournal" and e u
  assume "file_inv j" and "save FileRouteJournal_impl e j = (Ok u, j')"
  then show "file_inv j' \<and> file_content j' = (file_content j)(je_transaction_id e \<mapsto> e)"
    using FileRouteJournal_save_result [of e j "Ok u" j'] by (simp add: FileRouteJournal_impl_def)
next
  fix j j' :: "'b FileRouteJournal" and e x
  assume "file_inv j" and "save FileRouteJournal_impl e j = (Err x, j')"
  then show "file_inv j' \<and> file_content j' = file_content j"
    using FileRouteJournal_save_result [of e j "Err x" j'] by (simp add: FileRouteJournal_impl_def)
qed

subsection \<open>Reading back what was saved\<close>

lemma file_find:
  assumes "file_inv j" and "FileRouteJournal_entries j = (Ok es, j')"
  shows "find (\<lambda>x. je_transaction_id x = t) es = file_content j t"
proof -
  have "es = stored_entries j"
    using assms(2) by (auto simp: FileRouteJournal_entries_def
        split: prod.splits result.splits dest: read_document_Ok)
  moreover have "find (\<lambda>x. je_transaction_id x = t) xs =
      map_of (map (\<lambda>e. (je_transaction_id e, e)) xs) t" for xs
    by (induction xs) auto
  ultimately show ?thesis by (simp add: file_content_def)
qed

text \<open>A journal in an empty file system, with documents stored as they are.\<close>

definition sample_journal :: "RouteJournalDocument FileRouteJournal" where
  "sample_journal =
     \<lparr>frj_path = ''/d/routes.json'', frj_codec = \<lparr>to_vec_pretty = Some, from_slice = Some\<rparr>,
      frj_world = \<lparr>fs_nodes = Map.empty, fs_faults = []\<rparr>,
      frj_process_id = 7, frj_temp_sequence = 0\<rparr>"

definition sample_entry :: RouteJournalEntry where
  "sample_entry =
     \<lparr>je_transaction_id = ''tx.1'', je_profile_id = ''profile.1'',
      je_desired_routes = [\<lparr>rs_destination = ''10.64.0.0/16'', rs_interface = ''utun7''\<rparr>],
      je_applied_routes = [], je_pending_route = None, je_previous_routes = [], je_state = Prepared\<rparr>"

text \<open>
  Claim C4. A journal on disk is a map: after a successful save the next successful read returns
  the saved entry under its transaction and every other entry as it was, whatever the order in
  which the document lists them; after a failed save, at whichever file system call, every entry
  reads back as before.
\<close>

theorem file_journal_save_lookup:
  assumes "file_inv j" and "FileRouteJournal_save e j = (r, j1)"
    and "FileRouteJournal_entries j1 = (Ok es, j2)"
  shows "find (\<lambda>x. je_transaction_id x = t) es =
    (if is_ok r \<and> t = je_transaction_id e then Some e else file_content j t)"
proof -
  note s = FileRouteJournal_save_result [OF assms(2,1)]
  have "find (\<lambda>x. je_transaction_id x = t) es = file_content j1 t"
    using file_find [OF _ assms(3)] s by blast
  with s show ?thesis by (cases r) auto
qed

theorem file_journal_save_lookup_witness:
  "\<exists>es j2. FileRouteJournal_entries (snd (FileRouteJournal_save sample_entry sample_journal)) = (Ok es, j2) \<and>
     find (\<lambda>x. je_transaction_id x = ''tx.1'') es = Some sample_entry"
proof -
  have inv: "file_inv sample_journal"
    by (simp add: file_inv_def codec_ok_def sample_journal_def stored_entries_def)
  have sv: "is_ok (fst (FileRouteJournal_save sample_entry sample_journal))" by code_simp
  have "is_ok (fst (FileRouteJournal_entries (snd (FileRouteJournal_save sample_entry sample_journal))))"
    by code_simp
  then obtain es j2 where
    en: "FileRouteJournal_entries (snd (FileRouteJournal_save sample_entry sample_journal)) = (Ok es, j2)"
    by (cases "FileRouteJournal_entries (snd (FileRouteJournal_save sample_entry sample_journal))")
      (auto simp: is_ok_iff)
  from file_journal_save_lookup [OF inv prod.collapse [symmetric] en, of "''tx.1''"] sv en
  show ?thesis by (simp add: sample_entry_def)
qed

end
