(* ===== verification/Route_Safety.thy ===== *)
theory Route_Safety
  imports File_Journal
begin

section \<open>Route transactions over the journal on disk\<close>

text \<open>
  The orchestrator of \<open>Route\<close> on the journal of \<open>File_Journal\<close>, for every
  platform that keeps the laws of the locale \<open>route_platform\<close> (an add that
  succeeds installs the route, a removal that succeeds removes it, an operation
  that fails changes nothing).  The platform and the file system fail whenever
  they like; a crash is the case that everything fails from some point on.
\<close>

datatype route_op =
    OpApply string string "RouteSpec list"
  | OpRollback string
  | OpRecover

primrec run_op ::
  "'p RoutePlatform \<Rightarrow> 'j RouteJournal \<Rightarrow> route_op \<Rightarrow> ('p, 'j) RouteOrchestrator \<Rightarrow>
     unit net_result \<times> ('p, 'j) RouteOrchestrator" where
  "run_op P J (OpApply t pid rs) orc = ro_apply P J t pid rs orc"
| "run_op P J (OpRollback t) orc = ro_rollback P J t orc"
| "run_op P J OpRecover orc = recover_stale P J orc"

primrec run_ops ::
  "'p RoutePlatform \<Rightarrow> 'j RouteJournal \<Rightarrow> route_op list \<Rightarrow> ('p, 'j) RouteOrchestrator \<Rightarrow>
     ('p, 'j) RouteOrchestrator" where
  "run_ops P J [] orc = orc"
| "run_ops P J (op # ops) orc = run_ops P J ops (snd (run_op P J op orc))"

context route_orchestrator
begin

lemma run_op_keeps:
  assumes "inv orc" and "covered base orc" and "closed orc"
  shows "inv (snd (run_op P J op orc)) \<and> covered base (snd (run_op P J op orc)) \<and>
    closed (snd (run_op P J op orc))"
  using ro_apply_post [OF prod.collapse [symmetric] assms(1,2)]
    ro_rollback_post [OF prod.collapse [symmetric] assms(1,2)]
    recover_stale_post [OF prod.collapse [symmetric] assms(1,2)] assms(3)
  by (cases op) simp_all

lemma run_ops_keeps:
  "inv orc \<Longrightarrow> covered base orc \<Longrightarrow> closed orc \<Longrightarrow>
     inv (run_ops P J ops orc) \<and> covered base (run_ops P J ops orc) \<and> closed (run_ops P J ops orc)"
proof (induction ops arbitrary: orc)
  case (Cons op ops)
  from run_op_keeps [OF Cons.prems, of op] Cons.IH show ?case by simp
qed simp

lemma start_covered: "cont orc = Map.empty \<Longrightarrow> covered (tab orc) orc \<and> closed orc"
  by (simp add: covered_def closed_def)

end

lemma file_orchestrator:
  "route_platform P table \<Longrightarrow> route_orchestrator P table FileRouteJournal_impl file_content file_inv"
  by (intro route_orchestrator.intro file_journal.route_journal_axioms)

text \<open>
  Claim C1. \<open>apply\<close> is all or nothing.  Whichever calls of the platform and the file system fail:
  when it reports success for a new transaction every planned route has been installed and the
  journal on disk has the transaction applied with exactly these routes; when it reports any error
  but \<open>RouteRollbackFailed\<close> the routing table is as it was; and in every case no route is
  removed that was there before, none is added that was not planned, and the entries of other
  transactions are untouched.
\<close>

theorem apply_all_or_nothing:
  assumes "route_platform P table" and "file_inv (ro_journal orc)"
    and "ro_apply P FileRouteJournal_impl t pid rs orc = (r, orc')"
  shows "table (ro_platform orc) \<subseteq># table (ro_platform orc') \<and>
    table (ro_platform orc') \<subseteq># table (ro_platform orc) + mset rs \<and>
    (file_content (ro_journal orc'))(t := None) = (file_content (ro_journal orc))(t := None) \<and>
    (case r of
       Ok _ \<Rightarrow> file_content (ro_journal orc) t = None \<longrightarrow>
         table (ro_platform orc') = table (ro_platform orc) + mset rs \<and>
         (\<exists>e. file_content (ro_journal orc') t = Some e \<and> je_state e = Applied \<and>
            je_applied_routes e = rs \<and> je_pending_route e = None)
     | Err x \<Rightarrow> x \<noteq> RouteRollbackFailed \<longrightarrow> table (ro_platform orc') = table (ro_platform orc))"
proof -
  note L = file_orchestrator [OF assms(1)]
  let ?base = "table (ro_platform orc)"
  have "route_orchestrator.covered table file_content ?base orc"
    by (simp add: route_orchestrator.covered_def [OF L] route_orchestrator.tab_def [OF L])
  moreover have "route_orchestrator.inv file_inv orc"
    using assms(2) by (simp add: route_orchestrator.inv_def [OF L])
  ultimately have "route_orchestrator.apply_result table file_content t pid rs orc r orc'"
    using route_orchestrator.ro_apply_post [OF L assms(3)] by blast
  then show ?thesis
    by (auto simp: route_orchestrator.apply_result_def [OF L] route_orchestrator.tab_def [OF L]
        route_orchestrator.cont_def [OF L] split: result.splits)
qed

text \<open>
  Claim C2. No route is ever forgotten.  Starting from an empty journal, after any sequence of
  applies, rollbacks and recoveries with any failures (so also after a crash inside any of them),
  every route in the table beyond those that were there at the start is claimed by an entry of the
  journal on disk; and whenever a later recovery reports success, none of them is left.
\<close>

theorem no_route_is_forgotten:
  assumes "route_platform P table" and "file_inv (ro_journal orc)"
    and "file_content (ro_journal orc) = Map.empty"
    and "orc' = run_ops P FileRouteJournal_impl ops orc"
  shows "table (ro_platform orc') \<subseteq>#
      table (ro_platform orc) + journal_claims (file_content (ro_journal orc')) \<and>
    (\<forall>orc''. recover_stale P FileRouteJournal_impl orc' = (Ok (), orc'') \<longrightarrow>
       table (ro_platform orc'') \<subseteq># table (ro_platform orc))"
proof -
  note L = file_orchestrator [OF assms(1)]
  note defs = route_orchestrator.covered_def [OF L] route_orchestrator.tab_def [OF L]
    route_orchestrator.cont_def [OF L] route_orchestrator.inv_def [OF L]
  let ?base = "table (ro_platform orc)"
  have "route_orchestrator.covered table file_content ?base orc"
    "route_orchestrator.closed file_content orc" "route_orchestrator.inv file_inv orc"
    using route_orchestrator.start_covered [OF L, of orc] assms(2,3) by (simp_all add: defs)
  then have keep: "route_orchestrator.inv file_inv orc'"
    "route_orchestrator.covered table file_content ?base orc'"
    "route_orchestrator.closed file_content orc'"
    using route_orchestrator.run_ops_keeps [OF L] assms(4) by blast+
  have "table (ro_platform orc'') \<subseteq># ?base"
    if "recover_stale P FileRouteJournal_impl orc' = (Ok (), orc'')" for orc''
    using route_orchestrator.recover_stale_post [OF L that keep(1,2)] keep(3)
      route_orchestrator.recovered_table [OF L, of ?base orc''] by (simp add: defs)
  with keep(2) show ?thesis by (simp add: defs)
qed

text \<open>
  Claim C3. A rollback that reports success has removed exactly the routes the journal holds for
  the transaction and has marked the transaction as rolled back, with nothing left to remove; a
  transaction that is unknown or already rolled back is left alone, so repeating a rollback is
  harmless.
\<close>

theorem rollback_removes_the_transaction:
  assumes "route_platform P table" and "file_inv (ro_journal orc)"
    and "ro_rollback P FileRouteJournal_impl t orc = (Ok (), orc')"
  shows "case file_content (ro_journal orc) t of
      None \<Rightarrow> table (ro_platform orc') = table (ro_platform orc) \<and>
        file_content (ro_journal orc') = file_content (ro_journal orc)
    | Some e \<Rightarrow>
        if je_state e = RolledBack
        then table (ro_platform orc') = table (ro_platform orc) \<and>
          file_content (ro_journal orc') = file_content (ro_journal orc)
        else table (ro_platform orc') = table (ro_platform orc) - entry_claims e \<and>
          file_content (ro_journal orc') = (file_content (ro_journal orc))(t \<mapsto>
            e\<lparr>je_applied_routes := [], je_pending_route := None, je_state := RolledBack\<rparr>)"
proof -
  note L = file_orchestrator [OF assms(1)]
  note defs = route_orchestrator.covered_def [OF L] route_orchestrator.tab_def [OF L]
    route_orchestrator.cont_def [OF L] route_orchestrator.inv_def [OF L]
    route_orchestrator.rolled_back_def [OF L]
  have "route_orchestrator.covered table file_content (table (ro_platform orc)) orc"
    "route_orchestrator.inv file_inv orc"
    using assms(2) by (simp_all add: defs)
  from route_orchestrator.ro_rollback_post [OF L assms(3) this(2,1)] show ?thesis
    by (auto simp: defs split: option.splits if_splits)
qed

subsection \<open>The claims at work\<close>

definition sample_routes :: "RouteSpec list" where
  "sample_routes =
     [\<lparr>rs_destination = ''10.64.0.0/16'', rs_interface = ''utun7''\<rparr>,
      \<lparr>rs_destination = ''fd00:64::/48'', rs_interface = ''utun7''\<rparr>]"

definition sample_orchestrator ::
  "(FakePlatform, RouteJournalDocument FileRouteJournal) RouteOrchestrator" where
  "sample_orchestrator =
     ro_new \<lparr>fp_existing = [], fp_added = [], fp_fail_add_at = None, fp_fail_remove = False\<rparr>
       sample_journal"

lemma sample_inv: "file_inv (ro_journal sample_orchestrator)"
  "file_content (ro_journal sample_orchestrator) = Map.empty"
  by (simp_all add: sample_orchestrator_def ro_new_def file_inv_def codec_ok_def sample_journal_def
      stored_entries_def file_content_def)

definition sample_apply :: "unit net_result \<times>
    (FakePlatform, RouteJournalDocument FileRouteJournal) RouteOrchestrator" where
  "sample_apply =
     ro_apply FakePlatform_impl FileRouteJournal_impl ''tx.1'' ''profile.1'' sample_routes
       sample_orchestrator"

lemma sample_apply_ok: "fst sample_apply = Ok ()"
  by code_simp

theorem apply_all_or_nothing_witness:
  "mset (fp_added (ro_platform (snd sample_apply))) = mset sample_routes"
  using apply_all_or_nothing [OF fake_platform.route_platform_axioms sample_inv(1),
      of "''tx.1''" "''profile.1''" sample_routes "fst sample_apply" "snd sample_apply"]
    sample_apply_ok sample_inv(2)
  by (simp add: sample_apply_def sample_orchestrator_def ro_new_def)

theorem no_route_is_forgotten_witness:
  "\<exists>orc''. recover_stale FakePlatform_impl FileRouteJournal_impl (snd sample_apply) = (Ok (), orc'') \<and>
     mset (fp_added (ro_platform orc'')) = {#}"
proof -
  have "fst (recover_stale FakePlatform_impl FileRouteJournal_impl (snd sample_apply)) = Ok ()"
    by code_simp
  then obtain orc'' where
    "recover_stale FakePlatform_impl FileRouteJournal_impl (snd sample_apply) = (Ok (), orc'')"
    by (metis prod.collapse)
  with no_route_is_forgotten [OF fake_platform.route_platform_axioms sample_inv refl,
      of "[OpApply ''tx.1'' ''profile.1'' sample_routes]"]
  show ?thesis by (auto simp: sample_apply_def sample_orchestrator_def ro_new_def)
qed

theorem rollback_removes_the_transaction_witness:
  "\<exists>orc'. ro_rollback FakePlatform_impl FileRouteJournal_impl ''tx.9'' sample_orchestrator = (Ok (), orc') \<and>
     fp_added (ro_platform orc') = []"
proof -
  have "fst (ro_rollback FakePlatform_impl FileRouteJournal_impl ''tx.9'' sample_orchestrator) = Ok ()"
    by code_simp
  then obtain orc' where run:
    "ro_rollback FakePlatform_impl FileRouteJournal_impl ''tx.9'' sample_orchestrator = (Ok (), orc')"
    by (metis prod.collapse)
  from rollback_removes_the_transaction [OF fake_platform.route_platform_axioms sample_inv(1) run] run
  show ?thesis by (simp add: sample_inv(2)) (simp add: sample_orchestrator_def ro_new_def)
qed

subsection \<open>A repeated apply after an interrupted rollback\<close>

text \<open>
  What a rollback that fails leaves of the entry of its transaction: the first \<open>n\<close> applied routes are
  still claimed and the first \<open>m\<close> are still installed; the two differ by at most the one route that was
  removed without being recorded.
\<close>

definition half_undone ::
  "RouteJournalEntry \<Rightarrow> RouteSpec multiset \<Rightarrow> RouteJournalEntry option \<Rightarrow> RouteSpec multiset \<Rightarrow> bool" where
  "half_undone e before left after \<longleftrightarrow>
     (\<exists>m n. m \<le> n \<and> n \<le> Suc m \<and> n \<le> length (je_applied_routes e) \<and>
        left = Some (e\<lparr>je_applied_routes := take n (je_applied_routes e)\<rparr>) \<and>
        after = before - mset (drop m (je_applied_routes e)))"

lemma half_undone_same: "half_undone e before (Some e) before"
  unfolding half_undone_def
  by (rule exI [of _ "length (je_applied_routes e)"], rule exI [of _ "length (je_applied_routes e)"]) simp

lemma half_undone_removed:
  assumes "je_applied_routes e \<noteq> []"
  shows "half_undone e before (Some e) (before - {#last (je_applied_routes e)#})"
proof -
  obtain ys y where xs: "je_applied_routes e = ys @ [y]"
    using assms by (cases "je_applied_routes e" rule: rev_cases) auto
  then have "e\<lparr>je_applied_routes := ys @ [y]\<rparr> = e" by simp
  then show ?thesis
    unfolding half_undone_def xs by (intro exI [of _ "length ys"] exI [of _ "Suc (length ys)"]) simp
qed

lemma half_undone_step:
  assumes "half_undone (e\<lparr>je_applied_routes := butlast (je_applied_routes e)\<rparr>)
      (before - {#last (je_applied_routes e)#}) left after"
    and "je_applied_routes e \<noteq> []"
  shows "half_undone e before left after"
proof -
  obtain ys y where xs: "je_applied_routes e = ys @ [y]"
    using assms(2) by (cases "je_applied_routes e" rule: rev_cases) auto
  obtain m n where "m \<le> n" "n \<le> Suc m" "n \<le> length ys" "left = Some (e\<lparr>je_applied_routes := take n ys\<rparr>)"
    "after = before - {#y#} - mset (drop m ys)"
    using assms(1) by (auto simp: half_undone_def xs)
  then show ?thesis
    unfolding half_undone_def xs by (intro exI [of _ m] exI [of _ n]) (simp add: diff_diff_add_mset)
qed

context route_orchestrator
begin

lemma rollback_applied_fails:
  assumes "rollback_applied P J e orc = (Err x, orc')" and "inv orc"
    and "cont orc (je_transaction_id e) = Some e"
  shows "inv orc' \<and> half_undone e (tab orc) (cont orc' (je_transaction_id e)) (tab orc')"
  using assms
proof (induction "length (je_applied_routes e)" arbitrary: e orc)
  case 0
  then have none: "je_applied_routes e = []" by simp
  let ?e = "e\<lparr>je_state := RolledBack\<rparr>"
  obtain r1 orc1 where sv: "ro_save J ?e orc = (r1, orc1)" by fastforce
  note f = ro_save_facts [OF sv 0(3)]
  have "\<not> is_ok r1" "orc' = orc1"
    using 0(2) none by (cases r1; simp add: rollback_applied.simps [of P J e] sv)+
  then show ?case using f 0(4) half_undone_same by simp
next
  case (Suc n)
  then have some: "je_applied_routes e \<noteq> []" by auto
  let ?e = "e\<lparr>je_applied_routes := butlast (je_applied_routes e)\<rparr>"
  obtain r1 orc1 where rm: "ro_remove P (last (je_applied_routes e)) orc = (r1, orc1)" by fastforce
  note f1 = ro_remove_facts [OF rm]
  have i1: "inv orc1" using f1 Suc(4) by simp
  obtain r2 orc2 where sv: "ro_save J ?e orc1 = (r2, orc2)" by fastforce
  note f2 = ro_save_facts [OF sv i1]
  note run = Suc(3) [unfolded rollback_applied.simps [of P J e] Let_def, simplified some rm sv if_False]
  show ?case
  proof (cases r1)
    case (Err y)
    then have "orc' = orc1" using run by simp
    then show ?thesis using f1 Err i1 Suc(5) half_undone_same by simp
  next
    case r1: (Ok u)
    show ?thesis
    proof (cases r2)
      case (Err y)
      then have "orc' = orc2" using run r1 by (simp add: sv)
      then show ?thesis using f1 f2 r1 Err Suc(5) half_undone_removed [OF some] by simp
    next
      case (Ok v)
      then have r: "rollback_applied P J ?e orc2 = (Err x, orc')" using run r1 by (simp add: sv)
      have c: "cont orc2 (je_transaction_id ?e) = Some ?e" using f2 Ok by simp
      have l: "n = length (je_applied_routes ?e)" using Suc(2) by simp
      have t: "tab orc2 = tab orc - {#last (je_applied_routes e)#}" using f1 f2 r1 by simp
      from Suc(1) [OF l r f2(3) c] show ?thesis using half_undone_step [OF _ some] by (simp add: t)
    qed
  qed
qed

lemma ro_rollback_fails:
  assumes "ro_rollback P J t orc = (Err x, orc')" and "inv orc"
    and "cont orc t = Some e" and "je_pending_route e = None"
  shows "inv orc' \<and> half_undone e (tab orc) (cont orc' t) (tab orc')"
proof -
  obtain r1 orc1 where en: "ro_entries J orc = (r1, orc1)" by fastforce
  note f = ro_entries_facts [OF en assms(2)]
  have key: "je_transaction_id e = t" using assms(2,3) by (auto simp: inv_def cont_def content_key)
  show ?thesis
  proof (cases r1)
    case (Err y)
    then have "orc' = orc1" using assms(1) en by (simp add: ro_rollback_def)
    then show ?thesis using f(1-3) assms(3) half_undone_same by simp
  next
    case (Ok es)
    have "find (\<lambda>e. je_transaction_id e = t) es = Some e"
      using find_entry [of orc es orc1 t] en Ok assms(2,3) by simp
    then have "rollback_applied P J e orc1 = (Err x, orc')"
      using assms(1,4) en Ok by (auto simp: ro_rollback_def rollback_entry_def split: if_splits)
    from rollback_applied_fails [OF this f(3)] show ?thesis using f(1,2) assms(3) key by simp
  qed
qed

lemma apply_again:
  assumes "inv orc" and "cont orc t = Some e" and "je_state e = Applied"
    and "validate_plan t (je_profile_id e) (je_desired_routes e) = Ok ()"
    and "ro_entries J orc = (Ok es, orc')"
  shows "ro_apply P J t (je_profile_id e) (je_desired_routes e) orc = (Ok (), orc') \<and> tab orc' = tab orc"
proof -
  have "find (\<lambda>e. je_transaction_id e = t) es = Some e"
    using find_entry [OF assms(5,1), of t] assms(2) by simp
  then show ?thesis
    using assms(3-5) ro_entries_facts(1) [OF assms(5,1)] by (simp add: ro_apply_def)
qed

end

text \<open>
  Claim C5. A repeated apply does not notice a rollback that stopped half way.  For every platform and
  journal that keep their laws and every applied transaction: if its rollback fails, at whichever
  removal or journal write, some number of the routes, from the last one on, is no longer installed;
  the entry stays \<open>Applied\<close>, since \<open>apply\<close> compares only profile, desired routes and state, and so a
  second apply of the same plan, as soon as the journal can be read, reports success and installs
  nothing.
\<close>

theorem apply_reports_success_without_routes:
  assumes L: "route_orchestrator P table J content journal_inv"
    and i: "journal_inv (ro_journal orc)"
    and e: "content (ro_journal orc) t = Some e" "je_state e = Applied" "je_pending_route e = None"
    and plan: "validate_plan t (je_profile_id e) (je_desired_routes e) = Ok ()"
    and rollback: "ro_rollback P J t orc = (Err x, orc1)"
    and readable: "ro_entries J orc1 = (Ok es, orc2)"
  shows "ro_apply P J t (je_profile_id e) (je_desired_routes e) orc1 = (Ok (), orc2) \<and>
    (\<exists>m \<le> length (je_applied_routes e).
       table (ro_platform orc2) = table (ro_platform orc) - mset (drop m (je_applied_routes e)))"
proof -
  note defs = route_orchestrator.inv_def [OF L] route_orchestrator.cont_def [OF L] route_orchestrator.tab_def [OF L]
  have h: "journal_inv (ro_journal orc1)"
    "half_undone e (table (ro_platform orc)) (content (ro_journal orc1) t) (table (ro_platform orc1))"
    using route_orchestrator.ro_rollback_fails [OF L rollback] i e(1,3) unfolding defs by blast+
  then obtain m n where m: "m \<le> n" "n \<le> length (je_applied_routes e)"
    "content (ro_journal orc1) t = Some (e\<lparr>je_applied_routes := take n (je_applied_routes e)\<rparr>)"
    "table (ro_platform orc1) = table (ro_platform orc) - mset (drop m (je_applied_routes e))"
    by (auto simp: half_undone_def)
  have "ro_apply P J t (je_profile_id e) (je_desired_routes e) orc1 = (Ok (), orc2) \<and>
      table (ro_platform orc2) = table (ro_platform orc1)"
    using route_orchestrator.apply_again [OF L, of orc1 t "e\<lparr>je_applied_routes := take n (je_applied_routes e)\<rparr>"]
      h(1) m(3) e(2) plan readable unfolding defs by simp
  then show ?thesis using m by (auto intro!: exI [of _ m])
qed

text \<open>One failing journal write: apply, a failed rollback, and an apply that reports success with no route left.\<close>

definition interrupted :: "(FakePlatform, FailingJournal) RouteOrchestrator" where
  "interrupted =
     ro_new \<lparr>fp_existing = [], fp_added = [], fp_fail_add_at = None, fp_fail_remove = False\<rparr>
       \<lparr>fj_inner = [], fj_save_count = 0, fj_fail_once_at = 7\<rparr>"

definition interrupted_applied :: "(FakePlatform, FailingJournal) RouteOrchestrator" where
  "interrupted_applied =
     snd (ro_apply FakePlatform_impl FailingJournal_impl ''tx.1'' ''profile.1'' sample_routes interrupted)"

definition interrupted_rolled :: "unit net_result \<times> (FakePlatform, FailingJournal) RouteOrchestrator" where
  "interrupted_rolled = ro_rollback FakePlatform_impl FailingJournal_impl ''tx.1'' interrupted_applied"

lemma interrupted_facts:
  "fp_added (ro_platform interrupted_applied) = sample_routes"
  "map_of (fj_inner (ro_journal interrupted_applied)) ''tx.1'' =
     Some \<lparr>je_transaction_id = ''tx.1'', je_profile_id = ''profile.1'', je_desired_routes = sample_routes,
       je_applied_routes = sample_routes, je_pending_route = None, je_previous_routes = [], je_state = Applied\<rparr>"
  "validate_plan ''tx.1'' ''profile.1'' sample_routes = Ok ()"
  "fst interrupted_rolled = Err RouteRollbackFailed"
  "fp_added (ro_platform (snd interrupted_rolled)) = []"
  by code_simp+

theorem apply_reports_success_without_routes_witness:
  "fp_added (ro_platform interrupted_applied) = sample_routes \<and> fst interrupted_rolled = Err RouteRollbackFailed \<and>
   (\<exists>orc. ro_apply FakePlatform_impl FailingJournal_impl ''tx.1'' ''profile.1'' sample_routes (snd interrupted_rolled) =
      (Ok (), orc) \<and> fp_added (ro_platform orc) = [])"
proof -
  have i: "memory_inv (fj_inner (ro_journal interrupted_applied))" by code_simp
  obtain es orc2 where en: "ro_entries FailingJournal_impl (snd interrupted_rolled) = (Ok es, orc2)"
    "ro_platform orc2 = ro_platform (snd interrupted_rolled)"
    by (auto simp: ro_entries_def failing_defs memory_defs)
  have r: "ro_rollback FakePlatform_impl FailingJournal_impl ''tx.1'' interrupted_applied =
      (Err RouteRollbackFailed, snd interrupted_rolled)"
    using interrupted_facts(4) by (metis interrupted_rolled_def prod.collapse)
  from apply_reports_success_without_routes [OF fake_orchestrator.route_orchestrator_axioms i
      interrupted_facts(2) _ _ _ r en(1)]
  show ?thesis using interrupted_facts en(2) by simp
qed

end
