(* ===== verification/Net_Config.thy ===== *)
theory Net_Config
  imports Route_Net
begin

section \<open>Network profiles\<close>

text \<open>
  \<open>networking/config.rs\<close>: the version 1 profile and the production profile of
  version 2 with their validators.  The URL parser and the Base64 engine are
  third-party packages; they are the argument \<open>lib\<close> of the validators that call
  them.  Ports and prefix lengths, which are only compared and printed, are
  natural numbers within the bounds the parsers check.
\<close>

record Url =
  url_scheme :: string
  url_username :: string
  url_password :: "string option"
  url_host_str :: "string option"
  url_port :: "nat option"
  url_port_or_known_default :: "nat option"
  url_path :: string
  url_query :: "string option"
  url_fragment :: "string option"

record config_lib =
  Url_parse :: "string \<Rightarrow> Url option"
  base64_decode :: "string \<Rightarrow> u8 list option"
  base64_encode :: "u8 list \<Rightarrow> string"

subsection \<open>The profiles\<close>

datatype TransportKind = Quic | Wss | Tcp

record SiteConfig =
  site_id :: string
  site_display_name :: string
  site_private_cidrs :: "string list"

record TunnelConfig =
  tun_local_addresses :: "string list"
  tun_peer_public_key :: string
  tun_keepalive_seconds :: u16

record TransportEndpoint =
  te_transport :: TransportKind
  te_url :: string

record TransportConfig =
  tc_primary :: TransportKind
  tc_fallbacks :: "TransportKind list"
  tc_endpoints :: "TransportEndpoint list"

record NetworkPolicy =
  np_connect_timeout_seconds :: u16
  np_health_interval_seconds :: u16
  np_fallback_threshold :: u8

record NetworkProfile =
  pr_schema_version :: u8
  pr_profile_id :: string
  pr_control_plane :: string
  pr_identity_ref :: string
  pr_site :: SiteConfig
  pr_tunnel :: TunnelConfig
  pr_transports :: TransportConfig
  pr_policy :: NetworkPolicy

record ProductionSiteConfigV2 =
  site2_id :: string
  site2_display_name :: string
  site2_private_cidrs :: "string list"

record ProductionTunnelConfigV2 =
  tun2_local_addresses :: "string list"
  tun2_local_public_key :: string
  tun2_peer_public_key :: string
  tun2_keepalive_seconds :: u16

datatype ProductionTransportKindV2 = Quic2 | Wss2 | Tcp2

record ProductionTransportEndpointV2 =
  te2_transport :: ProductionTransportKindV2
  te2_url :: string

record ProductionTransportConfigV2 =
  tc2_primary :: ProductionTransportKindV2
  tc2_fallbacks :: "ProductionTransportKindV2 list"
  tc2_endpoints :: "ProductionTransportEndpointV2 list"

record ProductionNetworkPolicyV2 =
  np2_connect_timeout_seconds :: u16
  np2_health_interval_seconds :: u16
  np2_fallback_threshold :: u8

record ProductionNetworkProfileV2 =
  pp_schema_version :: u8
  pp_carrier_auth_version :: u8
  pp_profile_id :: string
  pp_control_plane :: string
  pp_identity_ref :: string
  pp_site :: ProductionSiteConfigV2
  pp_tunnel :: ProductionTunnelConfigV2
  pp_transports :: ProductionTransportConfigV2
  pp_policy :: ProductionNetworkPolicyV2

definition NETWORK_SCHEMA_VERSION :: u8 where "NETWORK_SCHEMA_VERSION = 1"
definition PRODUCTION_NETWORK_SCHEMA_VERSION :: u8 where "PRODUCTION_NETWORK_SCHEMA_VERSION = 2"
definition PRODUCTION_CARRIER_AUTH_VERSION :: u8 where "PRODUCTION_CARRIER_AUTH_VERSION = 1"
definition PRODUCTION_WSS_PATH :: string where "PRODUCTION_WSS_PATH = ''/kynp''"
definition PRODUCTION_MAX_PRIVATE_CIDRS :: nat where "PRODUCTION_MAX_PRIVATE_CIDRS = 16"
definition PRODUCTION_MAX_PRIVATE_CIDR_TEXT_BYTES :: nat where
  "PRODUCTION_MAX_PRIVATE_CIDR_TEXT_BYTES = 1024"

subsection \<open>Shared checks\<close>

definition valid_id :: "string \<Rightarrow> bool" where
  "valid_id s \<longleftrightarrow>
     s \<noteq> [] \<and> length s \<le> 128 \<and>
     list_all (\<lambda>(i, c). is_ascii_alphanumeric c \<or> (0 < i \<and> c \<in> set ''._:-'')) (enumerate 0 s)"

definition valid_cidr :: "string \<Rightarrow> bool" where
  "valid_cidr s =
     (case rsplit_once CHR ''/'' s of None \<Rightarrow> False
      | Some (address, prefix) \<Rightarrow>
     (case parse_ip address of None \<Rightarrow> False
      | Some address \<Rightarrow>
     (case parse_u8 prefix of None \<Rightarrow> False
      | Some prefix \<Rightarrow> prefix \<le> (if is_ipv4 address then 32 else 128))))"

fun all_unique_from :: "'a list \<Rightarrow> 'a list \<Rightarrow> bool" where
  "all_unique_from seen [] = True"
| "all_unique_from seen (v # vs) = (v \<notin> set seen \<and> all_unique_from (v # seen) vs)"

definition all_unique :: "'a list \<Rightarrow> bool" where
  "all_unique vs = all_unique_from [] vs"

definition valid_unique_cidrs :: "string list \<Rightarrow> bool" where
  "valid_unique_cidrs vs \<longleftrightarrow> vs \<noteq> [] \<and> all_unique vs \<and> list_all valid_cidr vs"

definition endpoint_scheme_matches :: "TransportKind \<Rightarrow> string \<Rightarrow> bool" where
  "endpoint_scheme_matches transport scheme =
     (case transport of
        Quic \<Rightarrow> scheme = ''https'' | Wss \<Rightarrow> scheme = ''wss'' | Tcp \<Rightarrow> scheme = ''tcp'')"

definition keychain_ref_ok :: "string \<Rightarrow> bool" where
  "keychain_ref_ok s =
     (case strip_prefix ''keychain:'' s of None \<Rightarrow> False | Some i \<Rightarrow> valid_id i)"

subsection \<open>The version 1 profile\<close>

definition endpoint_ok :: "config_lib \<Rightarrow> TransportEndpoint \<Rightarrow> bool" where
  "endpoint_ok lib e =
     (case Url_parse lib (te_url e) of None \<Rightarrow> False
      | Some url \<Rightarrow>
          endpoint_scheme_matches (te_transport e) (url_scheme url) \<and>
          url_username url = [] \<and> url_password url = None \<and>
          url_query url = None \<and> url_fragment url = None \<and>
          url_host_str url \<noteq> None \<and>
          \<not> (te_transport e = Tcp \<and> url_port url = None) \<and>
          \<not> (te_transport e \<noteq> Wss \<and> url_path url \<notin> {[], ''/''}))"

definition NetworkProfile_validate :: "config_lib \<Rightarrow> NetworkProfile \<Rightarrow> unit net_result" where
  "NetworkProfile_validate lib p =
     (if pr_schema_version p \<noteq> NETWORK_SCHEMA_VERSION then Err UnsupportedSchemaVersion
      else if \<not> valid_id (pr_profile_id p) \<or> \<not> keychain_ref_ok (pr_identity_ref p) \<or>
              \<not> valid_id (site_id (pr_site p))
      then Err InvalidConfiguration
      else case Url_parse lib (pr_control_plane p) of
        None \<Rightarrow> Err InvalidConfiguration
      | Some cp \<Rightarrow>
     (if url_scheme cp \<noteq> ''https'' \<or> url_username cp \<noteq> [] \<or> url_password cp \<noteq> None \<or>
         url_fragment cp \<noteq> None
      then Err InvalidConfiguration
      else if site_display_name (pr_site p) = [] \<or>
         \<not> valid_unique_cidrs (site_private_cidrs (pr_site p)) \<or>
         \<not> valid_unique_cidrs (tun_local_addresses (pr_tunnel p)) \<or>
         (case base64_decode lib (tun_peer_public_key (pr_tunnel p)) of
            None \<Rightarrow> True | Some key \<Rightarrow> length key \<noteq> 32) \<or>
         tun_keepalive_seconds (pr_tunnel p) = 0
      then Err InvalidConfiguration
      else if tc_primary (pr_transports p) \<noteq> Quic \<or> tc_endpoints (pr_transports p) = [] \<or>
         Quic \<in> set (tc_fallbacks (pr_transports p)) \<or>
         \<not> all_unique (tc_fallbacks (pr_transports p))
      then Err InvalidConfiguration
      else let configured = set (tc_primary (pr_transports p) # tc_fallbacks (pr_transports p));
               transports = map te_transport (tc_endpoints (pr_transports p))
      in if \<not> all_unique transports \<or> set transports \<noteq> configured \<or>
            list_ex (\<lambda>e. te_transport e \<notin> configured \<or> \<not> endpoint_ok lib e)
              (tc_endpoints (pr_transports p))
      then Err InvalidConfiguration
      else if np_connect_timeout_seconds (pr_policy p) = 0 \<or>
         np_health_interval_seconds (pr_policy p) = 0 \<or> np_fallback_threshold (pr_policy p) = 0
      then Err InvalidConfiguration
      else Ok ()))"

end
