(* ===== verification/Net_Config_V2.thy ===== *)
theory Net_Config_V2
  imports Net_Config
begin

section \<open>The production profile\<close>

text \<open>
  \<open>ProductionNetworkProfileV2::validate\<close> of \<open>networking/config.rs\<close> and its
  helpers: canonical prefixes and keys, private ranges, endpoints, display and
  server names, and the lexical check of the control plane URL.
\<close>

subsection \<open>Keys\<close>

definition PRODUCTION_X25519_LOW_ORDER_POINTS :: "u8 list list" where
  "PRODUCTION_X25519_LOW_ORDER_POINTS =
     [replicate 32 0,
      1 # replicate 31 0,
      [0xe0, 0xeb, 0x7a, 0x7c, 0x3b, 0x41, 0xb8, 0xae, 0x16, 0x56, 0xe3, 0xfa, 0xf1, 0x9f, 0xc4,
       0x6a, 0xda, 0x09, 0x8d, 0xeb, 0x9c, 0x32, 0xb1, 0xfd, 0x86, 0x62, 0x05, 0x16, 0x5f, 0x49,
       0xb8, 0x00],
      [0x5f, 0x9c, 0x95, 0xbc, 0xa3, 0x50, 0x8c, 0x24, 0xb1, 0xd0, 0xb1, 0x55, 0x9c, 0x83, 0xef,
       0x5b, 0x04, 0x44, 0x5c, 0xc4, 0x58, 0x1c, 0x8e, 0x86, 0xd8, 0x22, 0x4e, 0xdd, 0xd0, 0x9f,
       0x11, 0x57],
      0xec # replicate 30 0xff @ [0x7f],
      0xed # replicate 30 0xff @ [0x7f],
      0xee # replicate 30 0xff @ [0x7f]]"

definition PRODUCTION_X25519_FIELD_PRIME :: "u8 list" where
  "PRODUCTION_X25519_FIELD_PRIME = 0xed # replicate 30 0xff @ [0x7f]"

text \<open>The loop from the last byte down: the first difference decides.\<close>

fun compare_down :: "(u8 \<times> u8) list \<Rightarrow> bool" where
  "compare_down [] = False"
| "compare_down ((k, p) # rest) =
     (if k < p then True else if p < k then False else compare_down rest)"

definition canonical_production_x25519_coordinate :: "u8 list \<Rightarrow> bool" where
  "canonical_production_x25519_coordinate key =
     compare_down (rev (zip key PRODUCTION_X25519_FIELD_PRIME))"

definition decode_canonical_production_key :: "config_lib \<Rightarrow> string \<Rightarrow> u8 list option" where
  "decode_canonical_production_key lib s =
     (if length s \<noteq> 44 then None
      else case base64_decode lib s of
        None \<Rightarrow> None
      | Some key \<Rightarrow>
          if length key \<noteq> 32 then None
          else if \<not> canonical_production_x25519_coordinate key \<or>
                  key \<in> set PRODUCTION_X25519_LOW_ORDER_POINTS \<or>
                  base64_encode lib key \<noteq> s
          then None else Some key)"

subsection \<open>Prefixes\<close>

record ProductionPrefix =
  px_address :: IpAddr
  px_bits :: nat

definition production_address_bits :: "IpAddr \<Rightarrow> nat" where
  "production_address_bits a = (if is_ipv4 a then 32 else 128)"

definition production_address_value :: "IpAddr \<Rightarrow> u128" where
  "production_address_value a = (case a of V4 v \<Rightarrow> ucast v | V6 v \<Rightarrow> v)"

definition production_family :: "IpAddr \<Rightarrow> u8" where
  "production_family a = (if is_ipv4 a then 1 else 2)"

definition production_same_family :: "IpAddr \<Rightarrow> IpAddr \<Rightarrow> bool" where
  "production_same_family a b \<longleftrightarrow> is_ipv4 a = is_ipv4 b"

definition production_masked_value :: "IpAddr \<Rightarrow> nat \<Rightarrow> u128" where
  "production_masked_value a bits =
     (let width = production_address_bits a; v = production_address_value a
      in if bits = 0 then 0 else v AND push_bit (width - bits) (- 1))"

definition production_prefix_is_network :: "ProductionPrefix \<Rightarrow> bool" where
  "production_prefix_is_network p \<longleftrightarrow>
     production_masked_value (px_address p) (px_bits p) = production_address_value (px_address p)"

definition production_prefixes_overlap :: "ProductionPrefix \<Rightarrow> ProductionPrefix \<Rightarrow> bool" where
  "production_prefixes_overlap l r \<longleftrightarrow>
     production_same_family (px_address l) (px_address r) \<and>
     production_masked_value (px_address l) (min (px_bits l) (px_bits r)) =
     production_masked_value (px_address r) (min (px_bits l) (px_bits r))"

definition prefix_sets_overlap :: "ProductionPrefix list \<Rightarrow> ProductionPrefix list \<Rightarrow> bool" where
  "prefix_sets_overlap ls rs =
     list_ex (\<lambda>l. list_ex (\<lambda>r. production_prefixes_overlap l r) rs) ls"

definition production_prefix_is_private :: "ProductionPrefix \<Rightarrow> bool" where
  "production_prefix_is_private p =
     (case px_address p of
        V4 a \<Rightarrow>
          (8 \<le> px_bits p \<and> a AND 0xff000000 = 0x0a000000) \<or>
          (12 \<le> px_bits p \<and> a AND 0xfff00000 = 0xac100000) \<or>
          (16 \<le> px_bits p \<and> a AND 0xffff0000 = 0xc0a80000)
      | V6 a \<Rightarrow> 7 \<le> px_bits p \<and> drop_bit 121 a = 0x7e)"

definition parse_canonical_production_prefix :: "string \<Rightarrow> ProductionPrefix option" where
  "parse_canonical_production_prefix s =
     (case rsplit_once CHR ''/'' s of None \<Rightarrow> None
      | Some (raw_address, raw_bits) \<Rightarrow>
     (case parse_ip raw_address of None \<Rightarrow> None
      | Some address \<Rightarrow>
     (case parse_u8 raw_bits of None \<Rightarrow> None
      | Some bits \<Rightarrow>
          if raw_address \<noteq> ip_to_string address \<or> raw_bits \<noteq> nat_to_string bits \<or>
             production_address_bits address < bits
          then None else Some \<lparr>px_address = address, px_bits = bits\<rparr>)))"

fun host_addresses_loop ::
  "string list \<Rightarrow> ProductionPrefix list \<Rightarrow> u8 \<Rightarrow> (ProductionPrefix list \<times> u8) option" where
  "host_addresses_loop [] prefixes families = Some (prefixes, families)"
| "host_addresses_loop (s # ss) prefixes families =
     (case parse_canonical_production_prefix s of None \<Rightarrow> None
      | Some prefix \<Rightarrow>
          let family = production_family (px_address prefix)
          in if px_bits prefix \<noteq> production_address_bits (px_address prefix) \<or>
                \<not> production_prefix_is_private prefix \<or> families AND family \<noteq> 0
             then None
             else host_addresses_loop ss (prefixes @ [prefix]) (families OR family))"

definition parse_production_host_addresses ::
  "string list \<Rightarrow> (ProductionPrefix list \<times> u8) option" where
  "parse_production_host_addresses ss =
     (if ss = [] \<or> 2 < length ss then None else host_addresses_loop ss [] 0)"

fun private_cidrs_loop ::
  "string list \<Rightarrow> nat \<Rightarrow> ProductionPrefix list \<Rightarrow> u8 \<Rightarrow> (ProductionPrefix list \<times> u8) option" where
  "private_cidrs_loop [] text_bytes prefixes families = Some (prefixes, families)"
| "private_cidrs_loop (s # ss) text_bytes prefixes families =
     (let text_bytes = text_bytes + length s
      in if 64 < length s \<or> PRODUCTION_MAX_PRIVATE_CIDR_TEXT_BYTES < text_bytes then None
      else case parse_canonical_production_prefix s of None \<Rightarrow> None
      | Some prefix \<Rightarrow>
          if px_bits prefix = 0 \<or> \<not> production_prefix_is_network prefix \<or>
             \<not> production_prefix_is_private prefix \<or>
             list_ex (\<lambda>existing. production_prefixes_overlap existing prefix) prefixes
          then None
          else private_cidrs_loop ss text_bytes (prefixes @ [prefix])
                 (families OR production_family (px_address prefix)))"

definition parse_production_private_cidrs ::
  "string list \<Rightarrow> (ProductionPrefix list \<times> u8) option" where
  "parse_production_private_cidrs ss =
     (if ss = [] \<or> PRODUCTION_MAX_PRIVATE_CIDRS < length ss then None
      else private_cidrs_loop ss 0 [] 0)"

subsection \<open>Names\<close>

definition production_trim_space :: "nat \<Rightarrow> bool" where
  "production_trim_space c \<longleftrightarrow>
     (9 \<le> c \<and> c \<le> 13) \<or> c = 32 \<or> c = 0x85 \<or> c = 0xa0 \<or> c = 0x1680 \<or>
     (0x2000 \<le> c \<and> c \<le> 0x200a) \<or> c = 0x2028 \<or> c = 0x2029 \<or> c = 0x202f \<or> c = 0x205f \<or> c = 0x3000"

fun display_name_loop :: "nat \<Rightarrow> nat \<Rightarrow> nat list \<Rightarrow> nat option" where
  "display_name_loop count lst [] = Some lst"
| "display_name_loop count lst (c # cs) =
     (if 128 < Suc count then None else display_name_loop (Suc count) c cs)"

definition valid_production_display_name :: "string \<Rightarrow> bool" where
  "valid_production_display_name s =
     (case utf8_chars s of
        [] \<Rightarrow> False
      | first # cs \<Rightarrow>
          (case display_name_loop 1 first cs of
             None \<Rightarrow> False
           | Some lst \<Rightarrow> \<not> production_trim_space first \<and> \<not> production_trim_space lst))"

definition valid_label :: "string \<Rightarrow> bool" where
  "valid_label l \<longleftrightarrow>
     l \<noteq> [] \<and> length l \<le> 63 \<and> \<not> starts_with l ''-'' \<and> \<not> ends_with l ''-'' \<and>
     list_all (\<lambda>c. is_ascii_lowercase c \<or> is_ascii_digit c \<or> c = CHR ''-'') l"

definition valid_production_server_name :: "string \<Rightarrow> bool" where
  "valid_production_server_name s =
     (if s = [] \<or> 253 < length s \<or> s \<noteq> map to_ascii_lowercase s \<or> ends_with s ''.'' \<or>
         parse_ip s \<noteq> None \<or> list_all (\<lambda>c. c = CHR ''.'' \<or> is_ascii_digit c) s
      then False
      else let labels = split_on CHR ''.'' s
           in if length labels < 2 then False else list_all valid_label labels)"

definition production_control_authority_character :: "char \<Rightarrow> bool" where
  "production_control_authority_character c \<longleftrightarrow>
     is_ascii_lowercase c \<or> is_ascii_uppercase c \<or> is_ascii_digit c \<or>
     c \<in> set ''-._~!$&'' \<or> ord c = 39 \<or> c \<in> set ''()*+,;=:[]''"

definition production_control_path_character :: "char \<Rightarrow> bool" where
  "production_control_path_character c \<longleftrightarrow>
     (production_control_authority_character c \<and> c \<notin> set ''[]'') \<or> c = CHR ''/'' \<or> c = CHR ''@''"

definition valid_production_control_plane :: "string \<Rightarrow> bool" where
  "valid_production_control_plane s =
     (if s = [] \<or> 2048 < length s \<or> \<not> list_all is_ascii s \<or>
         list_ex (\<lambda>c. ord c \<in> {37, 92, 63, 35} \<or> is_ascii_control c) s
      then False
      else case strip_prefix ''https://'' s of
        None \<Rightarrow> False
      | Some remainder \<Rightarrow>
     (let (authority, path) =
            (case split_once CHR ''/'' remainder of
               None \<Rightarrow> (remainder, None) | Some (a, p) \<Rightarrow> (a, Some p))
      in if authority = [] \<or> CHR ''@'' \<in> set authority \<or>
            list_ex (\<lambda>c. c \<in> set ''[]'') authority \<or>
            \<not> list_all production_control_authority_character authority \<or>
            (case path of None \<Rightarrow> False | Some p \<Rightarrow> \<not> list_all production_control_path_character p)
         then False
         else case (case rsplit_once CHR '':'' authority of
                      Some (host, raw_port) \<Rightarrow>
                        if CHR '':'' \<notin> set host then Some (host, Some raw_port) else None
                    | None \<Rightarrow> Some (authority, None)) of
                None \<Rightarrow> False
              | Some (host, raw_port) \<Rightarrow>
                  if \<not> valid_production_server_name host \<or>
                     \<not> list_ex is_ascii_lowercase (last (split_on CHR ''.'' host))
                  then False
                  else case raw_port of
                    None \<Rightarrow> True
                  | Some raw_port \<Rightarrow>
                      (case parse_u16 raw_port of
                         None \<Rightarrow> False
                       | Some port \<Rightarrow> 0 < port \<and> raw_port = nat_to_string port)))"

subsection \<open>Endpoints\<close>

definition parse_production_endpoint ::
  "config_lib \<Rightarrow> ProductionTransportKindV2 \<Rightarrow> string \<Rightarrow> (string \<times> nat) option" where
  "parse_production_endpoint lib transport raw =
     (let (scheme, path) =
            (case transport of
               Quic2 \<Rightarrow> (''https'', []) | Wss2 \<Rightarrow> (''wss'', PRODUCTION_WSS_PATH) | Tcp2 \<Rightarrow> (''tcp'', []))
      in if list_ex (\<lambda>c. c \<in> {37, 92, 63, 35} \<or> is_whitespace c) (utf8_chars raw) \<or>
            \<not> starts_with raw (scheme @ ''://'') \<or> \<not> ends_with raw path
         then None
         else case Option.bind (strip_prefix (scheme @ ''://'') raw) (strip_suffix path) of
           None \<Rightarrow> None
         | Some authority \<Rightarrow>
     (if list_ex (\<lambda>c. c \<in> set ''/@[]'') authority then None
      else case rsplit_once CHR '':'' authority of
        None \<Rightarrow> None
      | Some (host, raw_port) \<Rightarrow>
     (case parse_u16 raw_port of
        None \<Rightarrow> None
      | Some port \<Rightarrow>
     (if port < 1024 \<or> raw_port \<noteq> nat_to_string port \<or> \<not> valid_production_server_name host then None
      else case Url_parse lib raw of
        None \<Rightarrow> None
      | Some parsed \<Rightarrow>
          if url_scheme parsed \<noteq> scheme \<or> url_username parsed \<noteq> [] \<or> url_password parsed \<noteq> None \<or>
             url_host_str parsed \<noteq> Some host \<or> url_port_or_known_default parsed \<noteq> Some port \<or>
             url_query parsed \<noteq> None \<or> url_fragment parsed \<noteq> None \<or>
             (transport = Wss2 \<and> url_path parsed \<noteq> PRODUCTION_WSS_PATH) \<or>
             (transport = Quic2 \<and> url_path parsed \<noteq> ''/'') \<or>
             (transport = Tcp2 \<and> url_path parsed \<noteq> [])
          then None else Some (host, port)))))"

fun production_endpoints_loop ::
  "config_lib \<Rightarrow> (ProductionTransportEndpointV2 \<times> ProductionTransportKindV2) list \<Rightarrow>
     string option \<Rightarrow> nat list \<Rightarrow> bool" where
  "production_endpoints_loop lib [] expected_host ports = True"
| "production_endpoints_loop lib ((endpoint, expected_transport) # rest) expected_host ports =
     (if te2_transport endpoint \<noteq> expected_transport then False
      else case parse_production_endpoint lib (te2_transport endpoint) (te2_url endpoint) of
        None \<Rightarrow> False
      | Some (host, port) \<Rightarrow>
          if (case expected_host of None \<Rightarrow> False | Some expected \<Rightarrow> expected \<noteq> host) \<or>
             port \<in> set ports
          then False
          else production_endpoints_loop lib rest (Some host) (port # ports))"

definition valid_production_transports :: "config_lib \<Rightarrow> ProductionTransportConfigV2 \<Rightarrow> bool" where
  "valid_production_transports lib t =
     (let expected = [Quic2, Wss2, Tcp2]
      in if tc2_primary t \<noteq> Quic2 \<or> tc2_fallbacks t \<noteq> drop 1 expected \<or>
            length (tc2_endpoints t) \<noteq> length expected
         then False
         else production_endpoints_loop lib (zip (tc2_endpoints t) expected) None [])"

subsection \<open>The profile\<close>

definition ProductionNetworkProfileV2_validate ::
  "config_lib \<Rightarrow> ProductionNetworkProfileV2 \<Rightarrow> unit net_result" where
  "ProductionNetworkProfileV2_validate lib p =
     (if pp_schema_version p \<noteq> PRODUCTION_NETWORK_SCHEMA_VERSION then Err UnsupportedSchemaVersion
      else if pp_carrier_auth_version p \<noteq> PRODUCTION_CARRIER_AUTH_VERSION \<or>
         \<not> valid_id (pp_profile_id p) \<or> \<not> keychain_ref_ok (pp_identity_ref p) \<or>
         \<not> valid_id (site2_id (pp_site p)) \<or>
         \<not> valid_production_display_name (site2_display_name (pp_site p))
      then Err InvalidConfiguration
      else if \<not> valid_production_control_plane (pp_control_plane p) then Err InvalidConfiguration
      else case decode_canonical_production_key lib (tun2_local_public_key (pp_tunnel p)) of
        None \<Rightarrow> Err InvalidConfiguration
      | Some local_key \<Rightarrow>
     (case decode_canonical_production_key lib (tun2_peer_public_key (pp_tunnel p)) of
        None \<Rightarrow> Err InvalidConfiguration
      | Some peer_key \<Rightarrow>
     (if local_key = peer_key \<or> tun2_keepalive_seconds (pp_tunnel p) = 0
      then Err InvalidConfiguration
      else case parse_production_host_addresses (tun2_local_addresses (pp_tunnel p)) of
        None \<Rightarrow> Err InvalidConfiguration
      | Some (local_addresses, local_families) \<Rightarrow>
     (case parse_production_private_cidrs (site2_private_cidrs (pp_site p)) of
        None \<Rightarrow> Err InvalidConfiguration
      | Some (private_cidrs, private_families) \<Rightarrow>
          if local_families \<noteq> private_families \<or>
             prefix_sets_overlap local_addresses private_cidrs \<or>
             \<not> valid_production_transports lib (pp_transports p) \<or>
             np2_connect_timeout_seconds (pp_policy p) = 0 \<or>
             300 < np2_connect_timeout_seconds (pp_policy p) \<or>
             np2_health_interval_seconds (pp_policy p) = 0 \<or>
             300 < np2_health_interval_seconds (pp_policy p) \<or>
             np2_fallback_threshold (pp_policy p) = 0 \<or>
             20 < np2_fallback_threshold (pp_policy p)
          then Err InvalidConfiguration
          else Ok ()))))"

end
