(* ===== verification/Net_Config_Facts.thy ===== *)
theory Net_Config_Facts
  imports Net_Config_V2
begin

section \<open>What a valid production profile guarantees\<close>

text \<open>
  The checks of \<open>Net_Config_V2\<close> read through the address sets of \<open>Route_Net\<close>:
  the overlap test of \<open>config.rs\<close> decides the same question as the one of
  \<open>route.rs\<close>, accepted ranges are private, pairwise disjoint and disjoint from
  the tunnel's own addresses, and the routes of an accepted profile pass the
  plan check of the route orchestrator.  The byte loop over keys is a comparison
  of little-endian numbers, and accepted endpoints have one spelling.
\<close>

subsection \<open>Uniqueness and keys\<close>

lemma all_unique_from_distinct: "all_unique_from seen vs \<longleftrightarrow> distinct vs \<and> set vs \<inter> set seen = {}"
  by (induction seen vs rule: all_unique_from.induct) auto

lemma all_unique_distinct [simp]: "all_unique vs \<longleftrightarrow> distinct vs"
  by (simp add: all_unique_def all_unique_from_distinct)

primrec le_value :: "u8 list \<Rightarrow> nat" where
  "le_value [] = 0"
| "le_value (b # bs) = unat b + 256 * le_value bs"

lemma unat_u8_less: "unat (b :: u8) < 256"
  using unsigned_less [of b] by simp

lemma byte_digits:
  fixes a b m n :: nat
  assumes "a < 256" and "b < 256"
  shows "a + 256 * m < b + 256 * n \<longleftrightarrow> m < n \<or> m = n \<and> a < b"
    and "a + 256 * m = b + 256 * n \<longleftrightarrow> a = b \<and> m = n"
proof -
  consider "m < n" | "m = n" | "n < m" by linarith
  then show "a + 256 * m < b + 256 * n \<longleftrightarrow> m < n \<or> m = n \<and> a < b"
    by cases (use assms in linarith)+
  consider "m < n" | "m = n" | "n < m" by linarith
  then show "a + 256 * m = b + 256 * n \<longleftrightarrow> a = b \<and> m = n"
    by cases (use assms in linarith)+
qed

lemma compare_down_snoc:
  "compare_down (ps @ [(x, y)]) \<longleftrightarrow>
     (if list_all (\<lambda>(k, p). k = p) ps then x < y else compare_down ps)"
  by (induction ps rule: compare_down.induct) auto

lemma list_all_zip_eq: "length xs = length ys \<Longrightarrow> list_all (\<lambda>(k, p). k = p) (zip xs ys) \<longleftrightarrow> xs = ys"
  by (induction xs ys rule: list_induct2) auto

lemma le_value_inj: "length xs = length ys \<Longrightarrow> le_value xs = le_value ys \<longleftrightarrow> xs = ys"
proof (induction xs ys rule: list_induct2)
  case (Cons x xs y ys)
  show ?case using Cons.IH by (auto simp: byte_digits unat_u8_less dest: unsigned_word_eqI)
qed simp

lemma compare_down_le_value:
  "length xs = length ys \<Longrightarrow> compare_down (rev (zip xs ys)) \<longleftrightarrow> le_value xs < le_value ys"
proof (induction xs ys rule: list_induct2)
  case (Cons x xs y ys)
  have "compare_down (rev (zip (x # xs) (y # ys))) \<longleftrightarrow>
      (if xs = ys then x < y else le_value xs < le_value ys)"
    using Cons by (simp add: compare_down_snoc list_all_zip_eq)
  then show ?case
    using le_value_inj [OF Cons.hyps] by (auto simp: word_less_nat_alt byte_digits unat_u8_less)
qed simp

text \<open>
  Claim C28. The byte-by-byte comparison of \<open>canonical_production_x25519_coordinate\<close> accepts a
  32-byte key exactly when, read as a little-endian number, it is below the field prime
  \<open>2^255 - 19\<close>.
\<close>

theorem canonical_coordinate_below_prime:
  assumes "length key = 32"
  shows "canonical_production_x25519_coordinate key \<longleftrightarrow> le_value key < 2 ^ 255 - 19"
proof -
  have "le_value PRODUCTION_X25519_FIELD_PRIME = 2 ^ 255 - 19" by code_simp
  moreover have "length PRODUCTION_X25519_FIELD_PRIME = 32" by code_simp
  ultimately show ?thesis
    using assms compare_down_le_value [of key PRODUCTION_X25519_FIELD_PRIME]
    by (simp add: canonical_production_x25519_coordinate_def)
qed

theorem canonical_coordinate_below_prime_witness:
  "\<not> canonical_production_x25519_coordinate (0xed # replicate 30 0xff @ [0x7f])"
proof -
  have "le_value (0xed # replicate 30 0xff @ [0x7f]) = 2 ^ 255 - 19" by code_simp
  with canonical_coordinate_below_prime [of "0xed # replicate 30 0xff @ [0x7f]"] show ?thesis
    by simp
qed

subsection \<open>Prefixes and their addresses\<close>

definition prefix_addresses :: "ProductionPrefix \<Rightarrow> (nat \<times> u128) set" where
  "prefix_addresses p =
     Pair (production_address_bits (px_address p)) `
       prefix_range (production_address_bits (px_address p) - px_bits p)
         (production_address_value (px_address p))"

definition prefix_wf :: "ProductionPrefix \<Rightarrow> bool" where
  "prefix_wf p \<longleftrightarrow> px_bits p \<le> production_address_bits (px_address p)"

lemma production_masked_value_eq [code]:
  "production_masked_value a b =
     IpNetwork_masked (production_address_value a) (production_address_bits a) b"
  by (simp add: production_masked_value_def IpNetwork_masked_def IpNetwork_mask_def)

lemma address_value_drop: "drop_bit (production_address_bits a) (production_address_value a) = 0"
  by (cases a) (simp_all add: production_address_bits_def production_address_value_def)

lemma production_overlap_iff_meet:
  assumes "prefix_wf l" and "prefix_wf r"
  shows "production_prefixes_overlap l r \<longleftrightarrow> prefix_addresses l \<inter> prefix_addresses r \<noteq> {}"
proof (cases "production_same_family (px_address l) (px_address r)")
  case True
  then have w: "production_address_bits (px_address l) = production_address_bits (px_address r)"
    by (simp add: production_same_family_def production_address_bits_def)
  let ?w = "production_address_bits (px_address r)"
  have "max (?w - px_bits l) (?w - px_bits r) = ?w - min (px_bits l) (px_bits r)"
    by auto
  then have "prefix_addresses l \<inter> prefix_addresses r \<noteq> {} \<longleftrightarrow>
      drop_bit (?w - min (px_bits l) (px_bits r)) (production_address_value (px_address l)) =
      drop_bit (?w - min (px_bits l) (px_bits r)) (production_address_value (px_address r))"
    using prefix_range_meet [of "?w - px_bits l" "production_address_value (px_address l)"
        "?w - px_bits r" "production_address_value (px_address r)"]
    by (auto simp: prefix_addresses_def w)
  with True assms show ?thesis
    using IpNetwork_mask_eq [of ?w "production_address_value (px_address l)"
        "production_address_value (px_address r)" "min (px_bits l) (px_bits r)"]
      address_value_drop [of "px_address l"] address_value_drop [of "px_address r"]
    by (auto simp: production_prefixes_overlap_def production_masked_value_eq w prefix_wf_def)
next
  case False
  then show ?thesis
    by (auto simp: production_prefixes_overlap_def production_same_family_def prefix_addresses_def
        production_address_bits_def)
qed

lemma drop_bit_masked:
  assumes "drop_bit bits v = 0" and "p \<le> bits"
  shows "drop_bit (bits - p) (IpNetwork_masked v bits p) = drop_bit (bits - p) v"
proof (cases "p = 0")
  case True
  with assms show ?thesis by (simp add: IpNetwork_masked_def IpNetwork_mask_def)
next
  case False
  then show ?thesis
    by (simp add: IpNetwork_masked_def IpNetwork_mask_def del: push_bit_minus_one)
      (rule bit_eqI, auto simp: bit_simps dest: bit_imp_le_length)
qed

text \<open>An address and a length that are in range read as a network of \<open>route.rs\<close>.\<close>

lemma network_of_text:
  assumes "rsplit_once CHR ''/'' s = Some (ra, rb)" and "parse_ip ra = Some a"
    and "parse_u8 rb = Some b" and "prefix_wf \<lparr>px_address = a, px_bits = b\<rparr>"
  shows "is_ok (IpNetwork_parse s) \<and> addresses_of s = prefix_addresses \<lparr>px_address = a, px_bits = b\<rparr>"
proof -
  let ?n = "\<lparr>net_bits = production_address_bits a,
    net_network = IpNetwork_masked (production_address_value a) (production_address_bits a) b,
    net_prefix = b\<rparr>"
  have n: "IpNetwork_parse s = Ok ?n"
    using assms by (cases a)
      (auto simp: IpNetwork_parse_def production_address_bits_def production_address_value_def
        prefix_wf_def)
  have "net_addresses ?n = prefix_addresses \<lparr>px_address = a, px_bits = b\<rparr>"
    using drop_bit_masked [OF address_value_drop [of a], of b] assms(4)
    by (simp add: net_addresses_def prefix_addresses_def prefix_range_def prefix_wf_def)
  with n show ?thesis by (simp add: addresses_of_def)
qed

lemma canonical_prefix_network:
  assumes "parse_canonical_production_prefix s = Some p"
  shows "prefix_wf p \<and> is_ok (IpNetwork_parse s) \<and> addresses_of s = prefix_addresses p"
proof -
  from assms obtain ra rb a b where p: "p = \<lparr>px_address = a, px_bits = b\<rparr>"
    and rs: "rsplit_once CHR ''/'' s = Some (ra, rb)" "parse_ip ra = Some a" "parse_u8 rb = Some b"
    and wf: "prefix_wf p"
    by (auto simp: parse_canonical_production_prefix_def prefix_wf_def split: option.splits if_splits)
  from network_of_text [OF rs] wf p show ?thesis by simp
qed

text \<open>
  The overlap test of \<open>config.rs\<close> on two canonical prefixes, the overlap test of
  \<open>route.rs\<close> on the same two strings, and the existence of a common address all agree.
\<close>

theorem overlap_tests_agree:
  assumes "parse_canonical_production_prefix s = Some l"
    and "parse_canonical_production_prefix t = Some r"
  shows "\<exists>a b. IpNetwork_parse s = Ok a \<and> IpNetwork_parse t = Ok b \<and>
    (production_prefixes_overlap l r \<longleftrightarrow> IpNetwork_overlaps a b) \<and>
    (production_prefixes_overlap l r \<longleftrightarrow> addresses_of s \<inter> addresses_of t \<noteq> {})"
proof -
  note cs = canonical_prefix_network [OF assms(1)] and ct = canonical_prefix_network [OF assms(2)]
  obtain a b where "IpNetwork_parse s = Ok a" "IpNetwork_parse t = Ok b"
    using cs ct by (auto simp: is_ok_iff)
  then show ?thesis
    using cs ct overlaps_addresses_of [of s a t b] production_overlap_iff_meet [of l r] by auto
qed

theorem overlap_tests_agree_witness:
  "\<exists>l r. parse_canonical_production_prefix ''10.0.0.0/8'' = Some l \<and>
     parse_canonical_production_prefix ''10.64.0.0/16'' = Some r \<and>
     (production_prefixes_overlap l r \<longleftrightarrow>
        addresses_of ''10.0.0.0/8'' \<inter> addresses_of ''10.64.0.0/16'' \<noteq> {})"
proof -
  have "parse_canonical_production_prefix ''10.0.0.0/8'' \<noteq> None"
    and "parse_canonical_production_prefix ''10.64.0.0/16'' \<noteq> None"
    by code_simp+
  then obtain l r where "parse_canonical_production_prefix ''10.0.0.0/8'' = Some l"
    "parse_canonical_production_prefix ''10.64.0.0/16'' = Some r" by blast
  with overlap_tests_agree show ?thesis by blast
qed

subsection \<open>Private ranges\<close>

definition private_addresses :: "(nat \<times> u128) set" where
  "private_addresses =
     addresses_of ''10.0.0.0/8'' \<union> addresses_of ''172.16.0.0/12'' \<union>
     addresses_of ''192.168.0.0/16'' \<union> addresses_of ''fc00::/7''"

lemma addresses_of_eq: "IpNetwork_parse s = Ok n \<Longrightarrow> addresses_of s = net_addresses n"
  by (simp add: addresses_of_def)

lemma private_nets:
  "addresses_of ''10.0.0.0/8'' = Pair 32 ` prefix_range 24 0x0a000000"
  "addresses_of ''172.16.0.0/12'' = Pair 32 ` prefix_range 20 0xac100000"
  "addresses_of ''192.168.0.0/16'' = Pair 32 ` prefix_range 16 0xc0a80000"
  "addresses_of ''fc00::/7'' = Pair 128 ` prefix_range 121 0xfc000000000000000000000000000000"
proof -
  have "IpNetwork_parse ''10.0.0.0/8'' = Ok \<lparr>net_bits = 32, net_network = 0x0a000000, net_prefix = 8\<rparr>"
    "IpNetwork_parse ''172.16.0.0/12'' = Ok \<lparr>net_bits = 32, net_network = 0xac100000, net_prefix = 12\<rparr>"
    "IpNetwork_parse ''192.168.0.0/16'' = Ok \<lparr>net_bits = 32, net_network = 0xc0a80000, net_prefix = 16\<rparr>"
    "IpNetwork_parse ''fc00::/7'' = Ok \<lparr>net_bits = 128, net_network = 0xfc000000000000000000000000000000, net_prefix = 7\<rparr>"
    by code_simp+
  then show "addresses_of ''10.0.0.0/8'' = Pair 32 ` prefix_range 24 0x0a000000"
    "addresses_of ''172.16.0.0/12'' = Pair 32 ` prefix_range 20 0xac100000"
    "addresses_of ''192.168.0.0/16'' = Pair 32 ` prefix_range 16 0xc0a80000"
    "addresses_of ''fc00::/7'' = Pair 128 ` prefix_range 121 0xfc000000000000000000000000000000"
    by (simp_all add: addresses_of_eq net_addresses_def)
qed

lemma ucast_drop_bit: "drop_bit k (ucast (a :: u32) :: u128) = ucast (drop_bit k a)"
  by (rule bit_eqI) (auto simp: bit_simps dest: bit_imp_le_length)

lemma mask_drop:
  assumes "(a :: u32) AND push_bit k (- 1) = push_bit k c" and "ucast (push_bit k c) = d"
  shows "drop_bit k (ucast a :: u128) = drop_bit k d"
proof -
  have "a AND push_bit k (- 1) = push_bit k c AND push_bit k (- 1)"
    using assms(1) by (metis and.right_idem)
  then have "drop_bit k a = drop_bit k (push_bit k c)" by (simp only: masked_eq_iff)
  then show ?thesis unfolding assms(2) [symmetric] by (simp only: ucast_drop_bit)
qed

lemma private_prefix:
  assumes "production_prefix_is_private p" and "prefix_wf p"
  shows "prefix_addresses p \<subseteq> private_addresses"
proof (cases "px_address p")
  case (V4 a)
  have masks: "push_bit 24 (- 1) = (0xff000000 :: u32)" "push_bit 20 (- 1) = (0xfff00000 :: u32)"
    "push_bit 16 (- 1) = (0xffff0000 :: u32)"
    by code_simp+
  have d: "8 \<le> px_bits p \<and> drop_bit 24 (ucast a :: u128) = drop_bit 24 0x0a000000 \<or>
      12 \<le> px_bits p \<and> drop_bit 20 (ucast a :: u128) = drop_bit 20 0xac100000 \<or>
      16 \<le> px_bits p \<and> drop_bit 16 (ucast a :: u128) = drop_bit 16 0xc0a80000"
    using assms(1) V4 mask_drop [of a 24 "0x0a" "0x0a000000"] mask_drop [of a 20 "0xac1" "0xac100000"]
      mask_drop [of a 16 "0xc0a8" "0xc0a80000"]
    unfolding masks by (auto simp: production_prefix_is_private_def)
  have "prefix_addresses p = Pair 32 ` prefix_range (32 - px_bits p) (ucast a)"
    using V4 by (simp add: prefix_addresses_def production_address_bits_def production_address_value_def)
  moreover have m: "prefix_range (32 - px_bits p) (ucast a :: u128) \<subseteq> prefix_range k c"
    if "32 - k \<le> px_bits p" and "drop_bit k (ucast a :: u128) = drop_bit k c" for k c
    by (rule prefix_range_mono) (use that in auto)
  have "prefix_range (32 - px_bits p) (ucast a) \<subseteq>
      prefix_range 24 0x0a000000 \<union> prefix_range 20 0xac100000 \<union> prefix_range 16 (0xc0a80000 :: u128)"
    using d
  proof (elim disjE)
    assume "8 \<le> px_bits p \<and> drop_bit 24 (ucast a :: u128) = drop_bit 24 0x0a000000"
    then have "prefix_range (32 - px_bits p) (ucast a :: u128) \<subseteq> prefix_range 24 0x0a000000"
      by (intro m) auto
    then show ?thesis by blast
  next
    assume "12 \<le> px_bits p \<and> drop_bit 20 (ucast a :: u128) = drop_bit 20 0xac100000"
    then have "prefix_range (32 - px_bits p) (ucast a :: u128) \<subseteq> prefix_range 20 0xac100000"
      by (intro m) auto
    then show ?thesis by blast
  next
    assume "16 \<le> px_bits p \<and> drop_bit 16 (ucast a :: u128) = drop_bit 16 0xc0a80000"
    then have "prefix_range (32 - px_bits p) (ucast a :: u128) \<subseteq> prefix_range 16 0xc0a80000"
      by (intro m) auto
    then show ?thesis by blast
  qed
  ultimately show ?thesis by (auto simp: private_addresses_def private_nets)
next
  case (V6 a)
  then have "7 \<le> px_bits p" and "drop_bit 121 a = drop_bit 121 0xfc000000000000000000000000000000"
    using assms(1) by (simp_all add: production_prefix_is_private_def)
  then have "prefix_range (128 - px_bits p) a \<subseteq> prefix_range 121 0xfc000000000000000000000000000000"
    by (intro prefix_range_mono) auto
  with V6 show ?thesis
    by (auto simp: private_addresses_def private_nets prefix_addresses_def
        production_address_bits_def production_address_value_def)
qed

subsection \<open>The lists of prefixes\<close>

definition private_route :: "string \<Rightarrow> bool" where
  "private_route s \<longleftrightarrow> is_ok (IpNetwork_parse s) \<and> addresses_of s \<subseteq> private_addresses"

definition disjoint_ranges :: "string \<Rightarrow> string \<Rightarrow> bool" where
  "disjoint_ranges s t \<longleftrightarrow> addresses_of s \<inter> addresses_of t = {}"

lemma canonical_private:
  assumes "parse_canonical_production_prefix s = Some p" and "production_prefix_is_private p"
  shows "private_route s"
  using canonical_prefix_network [OF assms(1)] private_prefix [OF assms(2)]
  by (simp add: private_route_def)

lemma private_cidrs_loop_Some:
  assumes "private_cidrs_loop ss n ps f = Some (qs, f')" and "list_all prefix_wf ps"
  shows "\<exists>new. qs = ps @ new \<and> list_all prefix_wf new \<and>
    map prefix_addresses new = map addresses_of ss \<and> list_all private_route ss \<and>
    sorted_wrt disjoint_ranges ss \<and>
    (\<forall>p\<in>set ps. \<forall>s\<in>set ss. prefix_addresses p \<inter> addresses_of s = {})"
  using assms
proof (induction ss n ps f rule: private_cidrs_loop.induct)
  case (1 n ps f)
  then show ?case by simp
next
  case (2 s ss n ps f)
  from "2.prems"(1) obtain p where p: "parse_canonical_production_prefix s = Some p"
    by (auto simp: Let_def split: if_splits option.splits)
  note net = canonical_prefix_network [OF p]
  from "2.prems"(1) p have priv: "production_prefix_is_private p"
    and no: "\<not> list_ex (\<lambda>e. production_prefixes_overlap e p) ps"
    and rec: "private_cidrs_loop ss (n + length s) (ps @ [p])
      (f OR production_family (px_address p)) = Some (qs, f')"
    by (auto simp: Let_def split: if_splits)
  have "list_all prefix_wf (ps @ [p])" using "2.prems"(2) net by simp
  with "2.IH" [OF refl _ p _ rec] "2.prems"(1) p obtain new where new: "qs = (ps @ [p]) @ new"
    "list_all prefix_wf new" "map prefix_addresses new = map addresses_of ss"
    "list_all private_route ss" "sorted_wrt disjoint_ranges ss"
    "\<forall>q\<in>set (ps @ [p]). \<forall>t\<in>set ss. prefix_addresses q \<inter> addresses_of t = {}"
    by (auto simp: Let_def split: if_splits)
  have "\<forall>q\<in>set ps. prefix_addresses q \<inter> addresses_of s = {}"
    using no net "2.prems"(2) production_overlap_iff_meet
    by (auto simp: list_ex_iff list_all_iff)
  moreover have "\<forall>t\<in>set ss. disjoint_ranges s t"
    using new(6) net by (simp add: disjoint_ranges_def)
  ultimately show ?case
    using new net canonical_private [OF p priv] by (intro exI [of _ "p # new"]) simp
qed

lemma host_addresses_loop_Some:
  assumes "host_addresses_loop ss ps f = Some (qs, f')"
  shows "\<exists>new. qs = ps @ new \<and> list_all prefix_wf new \<and>
    map prefix_addresses new = map addresses_of ss \<and> list_all private_route ss"
  using assms
proof (induction ss ps f rule: host_addresses_loop.induct)
  case (1 ps f)
  then show ?case by simp
next
  case (2 s ss ps f)
  from "2.prems" obtain p where p: "parse_canonical_production_prefix s = Some p"
    by (auto split: option.splits)
  with "2.prems" have priv: "production_prefix_is_private p"
    and ok: "\<not> (px_bits p \<noteq> production_address_bits (px_address p) \<or>
      \<not> production_prefix_is_private p \<or> f AND production_family (px_address p) \<noteq> 0)"
    and rec: "host_addresses_loop ss (ps @ [p]) (f OR production_family (px_address p)) = Some (qs, f')"
    by (auto simp: Let_def split: if_splits)
  from "2.IH" [OF p refl ok rec] obtain new where "qs = (ps @ [p]) @ new"
    "list_all prefix_wf new" "map prefix_addresses new = map addresses_of ss"
    "list_all private_route ss" by auto
  with canonical_prefix_network [OF p] canonical_private [OF p priv] show ?case
    by (intro exI [of _ "p # new"]) simp
qed

lemma validate_parts:
  assumes "ProductionNetworkProfileV2_validate lib p = Ok ()"
  shows "\<exists>locals fam cidrs.
    parse_production_host_addresses (tun2_local_addresses (pp_tunnel p)) = Some (locals, fam) \<and>
    parse_production_private_cidrs (site2_private_cidrs (pp_site p)) = Some (cidrs, fam) \<and>
    \<not> prefix_sets_overlap locals cidrs \<and> valid_production_transports lib (pp_transports p)"
  using assms
  by (auto simp: ProductionNetworkProfileV2_validate_def split: if_splits option.splits)

definition profile_ranges_ok :: "ProductionNetworkProfileV2 \<Rightarrow> bool" where
  "profile_ranges_ok p \<longleftrightarrow>
     (let cidrs = site2_private_cidrs (pp_site p); locals = tun2_local_addresses (pp_tunnel p)
      in cidrs \<noteq> [] \<and> length cidrs \<le> 16 \<and> locals \<noteq> [] \<and> length locals \<le> 2 \<and>
         list_all private_route cidrs \<and> list_all private_route locals \<and>
         sorted_wrt disjoint_ranges cidrs \<and>
         (\<forall>a\<in>set locals. \<forall>c\<in>set cidrs. disjoint_ranges a c))"

lemma validate_ranges:
  assumes "ProductionNetworkProfileV2_validate lib p = Ok ()"
  shows "profile_ranges_ok p"
proof -
  let ?c = "site2_private_cidrs (pp_site p)" and ?l = "tun2_local_addresses (pp_tunnel p)"
  from validate_parts [OF assms] obtain locals fam cidrs where
    l: "parse_production_host_addresses ?l = Some (locals, fam)"
    and c: "parse_production_private_cidrs ?c = Some (cidrs, fam)"
    and no: "\<not> prefix_sets_overlap locals cidrs" by blast
  from c have cn: "?c \<noteq> []" "length ?c \<le> 16"
    and cl: "private_cidrs_loop ?c 0 [] 0 = Some (cidrs, fam)"
    by (auto simp: parse_production_private_cidrs_def PRODUCTION_MAX_PRIVATE_CIDRS_def split: if_splits)
  from l have ln: "?l \<noteq> []" "length ?l \<le> 2"
    and ll: "host_addresses_loop ?l [] 0 = Some (locals, fam)"
    by (auto simp: parse_production_host_addresses_def split: if_splits)
  note fc = private_cidrs_loop_Some [OF cl] and fl = host_addresses_loop_Some [OF ll]
  have mem: "addresses_of s \<in> prefix_addresses ` set qs" if "map prefix_addresses qs = map addresses_of ss"
    "s \<in> set ss" for s qs ss
    using that by (metis imageI set_map)
  have "disjoint_ranges a b" if ab: "a \<in> set ?l" "b \<in> set ?c" for a b
  proof -
    obtain pa pb where "pa \<in> set locals" "addresses_of a = prefix_addresses pa" "prefix_wf pa"
      "pb \<in> set cidrs" "addresses_of b = prefix_addresses pb" "prefix_wf pb"
      using fc fl mem [of locals ?l a] mem [of cidrs ?c b] ab by (auto simp: list_all_iff)
    with no production_overlap_iff_meet [of pa pb] show ?thesis
      by (auto simp: prefix_sets_overlap_def list_ex_iff disjoint_ranges_def)
  qed
  with fc fl cn ln show ?thesis by (auto simp: profile_ranges_ok_def Let_def)
qed

text \<open>
  Claim C26. In a production profile that validates, there are one to sixteen private ranges and one
  or two tunnel addresses; all of them lie inside the private address blocks (10/8, 172.16/12,
  192.168/16, fc00::/7), no two ranges share an address, and no tunnel address lies in a range.
\<close>

theorem valid_profile_ranges:
  assumes "ProductionNetworkProfileV2_validate lib p = Ok ()"
  shows "profile_ranges_ok p"
  using assms by (rule validate_ranges)

text \<open>
  Claim C25. The private ranges of a production profile that validates are always an acceptable
  route plan: for every non-empty transaction, profile and interface name, the orchestrator's
  \<open>validate_plan\<close> accepts the routes that send these ranges to the interface.
\<close>

theorem valid_profile_routes_are_a_plan:
  assumes "ProductionNetworkProfileV2_validate lib p = Ok ()"
    and "transaction_id \<noteq> []" and "profile_id \<noteq> []" and "interface \<noteq> []"
  shows "validate_plan transaction_id profile_id
    (map (\<lambda>c. \<lparr>rs_destination = c, rs_interface = interface\<rparr>) (site2_private_cidrs (pp_site p))) = Ok ()"
proof -
  let ?route = "\<lambda>c. \<lparr>rs_destination = c, rs_interface = interface\<rparr>"
  have "(\<lambda>x y. routes_disjoint (?route x) (?route y)) = disjoint_ranges"
    by (simp add: fun_eq_iff routes_disjoint_def disjoint_ranges_def)
  moreover have "profile_ranges_ok p" using assms(1) by (rule validate_ranges)
  ultimately show ?thesis
    using assms(2-4)
    by (simp add: profile_ranges_ok_def Let_def validate_plan_def validate_plan_routes_Ok
        route_ok_def private_route_def sorted_wrt_map list_all_iff)
qed

subsection \<open>Endpoints and names\<close>

definition endpoint_text :: "string \<Rightarrow> string \<Rightarrow> nat \<Rightarrow> string \<Rightarrow> string" where
  "endpoint_text scheme host port path = scheme @ ''://'' @ host @ '':'' @ nat_to_string port @ path"

lemma parse_production_endpoint_Some:
  assumes "parse_production_endpoint lib transport raw = Some (host, port)"
  shows "raw = (case transport of
      Quic2 \<Rightarrow> endpoint_text ''https'' host port []
    | Wss2 \<Rightarrow> endpoint_text ''wss'' host port ''/kynp''
    | Tcp2 \<Rightarrow> endpoint_text ''tcp'' host port []) \<and>
    1024 \<le> port \<and> port \<le> 65535 \<and> valid_production_server_name host"
proof -
  obtain scheme path where sp: "(case transport of
      Quic2 \<Rightarrow> (''https'', []) | Wss2 \<Rightarrow> (''wss'', PRODUCTION_WSS_PATH) | Tcp2 \<Rightarrow> (''tcp'', [])) =
      (scheme, path)" by fastforce
  from assms obtain authority raw_port where
    st: "Option.bind (strip_prefix (scheme @ ''://'') raw) (strip_suffix path) = Some authority"
    and rp: "rsplit_once CHR '':'' authority = Some (host, raw_port)"
    and port: "parse_u16 raw_port = Some port" "1024 \<le> port" "raw_port = nat_to_string port"
      "valid_production_server_name host"
    unfolding parse_production_endpoint_def sp Let_def prod.case
    by (auto split: if_splits option.splits)
  from st have "raw = scheme @ ''://'' @ authority @ path"
    by (auto simp: bind_eq_Some_conv strip_prefix_Some strip_suffix_Some)
  moreover from rp port(3) have "authority = host @ '':'' @ nat_to_string port"
    by (simp add: rsplit_once_Some)
  ultimately have "raw = endpoint_text scheme host port path" by (simp add: endpoint_text_def)
  with sp port parse_u16_bound [OF port(1)] show ?thesis
    by (cases transport) (auto simp: PRODUCTION_WSS_PATH_def)
qed

lemma endpoints_loop_Cons:
  "production_endpoints_loop lib ((e, k) # rest) h ports \<longleftrightarrow>
     (\<exists>host port. te2_transport e = k \<and>
        parse_production_endpoint lib k (te2_url e) = Some (host, port) \<and>
        (h = None \<or> h = Some host) \<and> port \<notin> set ports \<and>
        production_endpoints_loop lib rest (Some host) (port # ports))"
  by (auto split: option.splits)

lemma valid_transports_endpoints:
  assumes "valid_production_transports lib t"
  shows "\<exists>host p1 p2 p3. distinct [p1, p2, p3] \<and> (\<forall>q\<in>{p1, p2, p3}. 1024 \<le> q \<and> q \<le> 65535) \<and>
    valid_production_server_name host \<and>
    tc2_primary t = Quic2 \<and> tc2_fallbacks t = [Wss2, Tcp2] \<and>
    map (\<lambda>e. (te2_transport e, te2_url e)) (tc2_endpoints t) =
      [(Quic2, endpoint_text ''https'' host p1 []), (Wss2, endpoint_text ''wss'' host p2 ''/kynp''),
       (Tcp2, endpoint_text ''tcp'' host p3 [])]"
proof -
  from assms have top: "tc2_primary t = Quic2" "tc2_fallbacks t = [Wss2, Tcp2]"
    "length (tc2_endpoints t) = 3"
    and loop: "production_endpoints_loop lib (zip (tc2_endpoints t) [Quic2, Wss2, Tcp2]) None []"
    by (auto simp: valid_production_transports_def split: if_splits)
  from top(3) obtain e1 e2 e3 where es: "tc2_endpoints t = [e1, e2, e3]"
    by (auto simp: numeral_3_eq_3 length_Suc_conv)
  from loop es obtain host p1 p2 p3 where
    "parse_production_endpoint lib Quic2 (te2_url e1) = Some (host, p1)" "te2_transport e1 = Quic2"
    "parse_production_endpoint lib Wss2 (te2_url e2) = Some (host, p2)" "te2_transport e2 = Wss2"
    "parse_production_endpoint lib Tcp2 (te2_url e3) = Some (host, p3)" "te2_transport e3 = Tcp2"
    "distinct [p1, p2, p3]"
    by (auto simp: endpoints_loop_Cons simp del: production_endpoints_loop.simps(2))
  from parse_production_endpoint_Some [OF this(1)] parse_production_endpoint_Some [OF this(3)]
    parse_production_endpoint_Some [OF this(5)] this top es
  show ?thesis by (intro exI [of _ host] exI [of _ p1] exI [of _ p2] exI [of _ p3]) simp
qed

text \<open>
  Claim C27. The transports of a production profile that validates are exactly QUIC, WSS and TCP in
  this order, on one server name and on three different unprivileged ports, and every endpoint URL
  has the one canonical spelling \<open>scheme://host:port\<close>, with the path \<open>/kynp\<close> for WSS.
\<close>

theorem valid_profile_endpoints:
  assumes "ProductionNetworkProfileV2_validate lib p = Ok ()"
  shows "\<exists>host p1 p2 p3. distinct [p1, p2, p3] \<and> (\<forall>q\<in>{p1, p2, p3}. 1024 \<le> q \<and> q \<le> 65535) \<and>
    valid_production_server_name host \<and>
    tc2_primary (pp_transports p) = Quic2 \<and> tc2_fallbacks (pp_transports p) = [Wss2, Tcp2] \<and>
    map (\<lambda>e. (te2_transport e, te2_url e)) (tc2_endpoints (pp_transports p)) =
      [(Quic2, endpoint_text ''https'' host p1 []), (Wss2, endpoint_text ''wss'' host p2 ''/kynp''),
       (Tcp2, endpoint_text ''tcp'' host p3 [])]"
proof -
  have "valid_production_transports lib (pp_transports p)"
    using assms by (auto simp: ProductionNetworkProfileV2_validate_def split: if_splits option.splits)
  then show ?thesis by (rule valid_transports_endpoints)
qed

lemma display_name_loop_eq:
  "display_name_loop n c cs = (if cs = [] \<or> n + length cs \<le> 128 then Some (last (c # cs)) else None)"
  by (induction n c cs rule: display_name_loop.induct) auto

text \<open>
  The display name check, which walks the characters and stops at the 129th, accepts
  exactly the names of 1 to 128 characters that neither start nor end with white space.
\<close>

theorem display_name_check:
  "valid_production_display_name s \<longleftrightarrow>
     (let cs = utf8_chars s
      in cs \<noteq> [] \<and> length cs \<le> 128 \<and>
         \<not> production_trim_space (hd cs) \<and> \<not> production_trim_space (last cs))"
  by (cases "utf8_chars s") (auto simp: valid_production_display_name_def display_name_loop_eq)

lemma NetworkProfile_validate_cases:
  "pr_schema_version p = 1 \<Longrightarrow>
     NetworkProfile_validate lib p = Ok () \<or> NetworkProfile_validate lib p = Err InvalidConfiguration"
  by (simp add: NetworkProfile_validate_def Let_def NETWORK_SCHEMA_VERSION_def split: option.split)

lemma NetworkProfile_validate_version:
  "pr_schema_version p \<noteq> 1 \<Longrightarrow> NetworkProfile_validate lib p = Err UnsupportedSchemaVersion"
  by (simp add: NetworkProfile_validate_def NETWORK_SCHEMA_VERSION_def)

lemma ProductionNetworkProfileV2_validate_cases:
  "pp_schema_version q = 2 \<Longrightarrow>
     ProductionNetworkProfileV2_validate lib q = Ok () \<or>
     ProductionNetworkProfileV2_validate lib q = Err InvalidConfiguration"
  by (simp add: ProductionNetworkProfileV2_validate_def PRODUCTION_NETWORK_SCHEMA_VERSION_def
      split: option.split prod.split)

lemma ProductionNetworkProfileV2_validate_version:
  "pp_schema_version q \<noteq> 2 \<Longrightarrow>
     ProductionNetworkProfileV2_validate lib q = Err UnsupportedSchemaVersion"
  by (simp add: ProductionNetworkProfileV2_validate_def PRODUCTION_NETWORK_SCHEMA_VERSION_def)

text \<open>
  Validation has two errors and their order is fixed: a wrong schema version is reported
  as \<open>UnsupportedSchemaVersion\<close> whatever else is wrong, and every other defect of a profile of
  either version as \<open>InvalidConfiguration\<close>.
\<close>

theorem validation_errors:
  "(\<forall>e. NetworkProfile_validate lib p = Err e \<longrightarrow>
      e = (if pr_schema_version p \<noteq> 1 then UnsupportedSchemaVersion else InvalidConfiguration)) \<and>
   (\<forall>e. ProductionNetworkProfileV2_validate lib q = Err e \<longrightarrow>
      e = (if pp_schema_version q \<noteq> 2 then UnsupportedSchemaVersion else InvalidConfiguration)) \<and>
   (pr_schema_version p \<noteq> 1 \<longrightarrow> NetworkProfile_validate lib p = Err UnsupportedSchemaVersion) \<and>
   (pp_schema_version q \<noteq> 2 \<longrightarrow>
      ProductionNetworkProfileV2_validate lib q = Err UnsupportedSchemaVersion)"
  using NetworkProfile_validate_cases [of p lib] ProductionNetworkProfileV2_validate_cases [of q lib]
    NetworkProfile_validate_version [of p lib] ProductionNetworkProfileV2_validate_version [of q lib]
  by auto

text \<open>
  A version 1 profile that validates uses QUIC first and never as a fallback, and has
  exactly one endpoint for each configured transport, each with a URL of that transport's scheme
  that carries no credentials, query or fragment and names a host.
\<close>

theorem valid_v1_profile_endpoints:
  assumes "NetworkProfile_validate lib p = Ok ()"
  shows "tc_primary (pr_transports p) = Quic \<and> distinct (Quic # tc_fallbacks (pr_transports p)) \<and>
    distinct (map te_transport (tc_endpoints (pr_transports p))) \<and>
    set (map te_transport (tc_endpoints (pr_transports p))) =
      insert Quic (set (tc_fallbacks (pr_transports p))) \<and>
    (\<forall>e\<in>set (tc_endpoints (pr_transports p)). \<exists>url. Url_parse lib (te_url e) = Some url \<and>
       endpoint_scheme_matches (te_transport e) (url_scheme url) \<and> url_username url = [] \<and>
       url_password url = None \<and> url_query url = None \<and> url_fragment url = None \<and>
       url_host_str url \<noteq> None)"
proof -
  from assms have "tc_primary (pr_transports p) = Quic"
    "distinct (Quic # tc_fallbacks (pr_transports p))"
    "distinct (map te_transport (tc_endpoints (pr_transports p)))"
    "set (map te_transport (tc_endpoints (pr_transports p))) =
      insert Quic (set (tc_fallbacks (pr_transports p)))"
    and ok: "list_all (endpoint_ok lib) (tc_endpoints (pr_transports p))"
    by (simp_all add: NetworkProfile_validate_def Let_def list_ex_iff list_all_iff
        split: if_splits option.splits, blast)
  moreover have "\<exists>url. Url_parse lib (te_url e) = Some url \<and>
       endpoint_scheme_matches (te_transport e) (url_scheme url) \<and> url_username url = [] \<and>
       url_password url = None \<and> url_query url = None \<and> url_fragment url = None \<and>
       url_host_str url \<noteq> None" if "e \<in> set (tc_endpoints (pr_transports p))" for e
    using ok that by (auto simp: list_all_iff endpoint_ok_def split: option.splits)
  ultimately show ?thesis by blast
qed

subsection \<open>A valid profile of each version\<close>

definition plain_url :: "string \<Rightarrow> string \<Rightarrow> nat \<Rightarrow> string \<Rightarrow> Url" where
  "plain_url scheme host port path =
     \<lparr>url_scheme = scheme, url_username = [], url_password = None, url_host_str = Some host,
      url_port = Some port, url_port_or_known_default = Some port, url_path = path,
      url_query = None, url_fragment = None\<rparr>"

definition sample_lib :: config_lib where
  "sample_lib =
     \<lparr>Url_parse = (\<lambda>s.
        if s = ''https://vpn.example:8443'' then Some (plain_url ''https'' ''vpn.example'' 8443 ''/'')
        else if s = ''wss://vpn.example:9443/kynp''
        then Some (plain_url ''wss'' ''vpn.example'' 9443 ''/kynp'')
        else if s = ''tcp://vpn.example:7443'' then Some (plain_url ''tcp'' ''vpn.example'' 7443 [])
        else None),
      base64_decode = (\<lambda>s.
        if s = ''CQAAAAAAAAAAAAAAAAAAAAAAAAAAAAAAAAAAAAAAAAA='' then Some (9 # replicate 31 0)
        else if s = ''CgAAAAAAAAAAAAAAAAAAAAAAAAAAAAAAAAAAAAAAAAA='' then Some (10 # replicate 31 0)
        else None),
      base64_encode = (\<lambda>k. if hd k = 9 then ''CQAAAAAAAAAAAAAAAAAAAAAAAAAAAAAAAAAAAAAAAAA=''
        else ''CgAAAAAAAAAAAAAAAAAAAAAAAAAAAAAAAAAAAAAAAAA='')\<rparr>"

definition sample_transports :: ProductionTransportConfigV2 where
  "sample_transports =
     \<lparr>tc2_primary = Quic2, tc2_fallbacks = [Wss2, Tcp2],
      tc2_endpoints =
        [\<lparr>te2_transport = Quic2, te2_url = ''https://vpn.example:8443''\<rparr>,
         \<lparr>te2_transport = Wss2, te2_url = ''wss://vpn.example:9443/kynp''\<rparr>,
         \<lparr>te2_transport = Tcp2, te2_url = ''tcp://vpn.example:7443''\<rparr>]\<rparr>"

definition sample_profile :: ProductionNetworkProfileV2 where
  "sample_profile =
     \<lparr>pp_schema_version = 2, pp_carrier_auth_version = 1, pp_profile_id = ''profile.1'',
      pp_control_plane = ''https://control.example/api'', pp_identity_ref = ''keychain:device.1'',
      pp_site = \<lparr>site2_id = ''site.1'', site2_display_name = ''Office'',
        site2_private_cidrs = [''10.64.0.0/16'', ''192.168.7.0/24'']\<rparr>,
      pp_tunnel = \<lparr>tun2_local_addresses = [''10.200.0.2/32''],
        tun2_local_public_key = ''CQAAAAAAAAAAAAAAAAAAAAAAAAAAAAAAAAAAAAAAAAA='',
        tun2_peer_public_key = ''CgAAAAAAAAAAAAAAAAAAAAAAAAAAAAAAAAAAAAAAAAA='',
        tun2_keepalive_seconds = 25\<rparr>,
      pp_transports = sample_transports,
      pp_policy = \<lparr>np2_connect_timeout_seconds = 10, np2_health_interval_seconds = 15,
        np2_fallback_threshold = 3\<rparr>\<rparr>"

definition sample_profile_v1 :: NetworkProfile where
  "sample_profile_v1 =
     \<lparr>pr_schema_version = 1, pr_profile_id = ''profile.1'',
      pr_control_plane = ''https://vpn.example:8443'', pr_identity_ref = ''keychain:device.1'',
      pr_site = \<lparr>site_id = ''site.1'', site_display_name = ''Office'',
        site_private_cidrs = [''10.64.0.0/16'']\<rparr>,
      pr_tunnel = \<lparr>tun_local_addresses = [''10.200.0.2/32''],
        tun_peer_public_key = ''CgAAAAAAAAAAAAAAAAAAAAAAAAAAAAAAAAAAAAAAAAA='',
        tun_keepalive_seconds = 25\<rparr>,
      pr_transports = \<lparr>tc_primary = Quic, tc_fallbacks = [Wss],
        tc_endpoints =
          [\<lparr>te_transport = Wss, te_url = ''wss://vpn.example:9443/kynp''\<rparr>,
           \<lparr>te_transport = Quic, te_url = ''https://vpn.example:8443''\<rparr>]\<rparr>,
      pr_policy = \<lparr>np_connect_timeout_seconds = 10, np_health_interval_seconds = 15,
        np_fallback_threshold = 3\<rparr>\<rparr>"

lemma sample_profile_valid: "ProductionNetworkProfileV2_validate sample_lib sample_profile = Ok ()"
  by code_simp

lemma sample_profile_v1_valid: "NetworkProfile_validate sample_lib sample_profile_v1 = Ok ()"
  by code_simp

theorem valid_profile_ranges_witness: "profile_ranges_ok sample_profile"
  using valid_profile_ranges [OF sample_profile_valid] .

theorem valid_profile_routes_are_a_plan_witness:
  "validate_plan ''tx.1'' ''profile.1''
     [\<lparr>rs_destination = ''10.64.0.0/16'', rs_interface = ''utun7''\<rparr>,
      \<lparr>rs_destination = ''192.168.7.0/24'', rs_interface = ''utun7''\<rparr>] = Ok ()"
  using valid_profile_routes_are_a_plan [OF sample_profile_valid, of "''tx.1''" "''profile.1''" "''utun7''"]
  by (simp add: sample_profile_def)

theorem valid_profile_endpoints_witness:
  "\<exists>host p1 p2 p3. distinct [p1, p2, p3] \<and> valid_production_server_name host \<and>
     tc2_primary sample_transports = Quic2 \<and>
     map te2_url (tc2_endpoints sample_transports) =
       [endpoint_text ''https'' host p1 [], endpoint_text ''wss'' host p2 ''/kynp'',
        endpoint_text ''tcp'' host p3 []]"
proof -
  have t: "pp_transports sample_profile = sample_transports" by (simp add: sample_profile_def)
  from valid_profile_endpoints [OF sample_profile_valid, unfolded t] obtain host p1 p2 p3 where "distinct [p1, p2, p3]"
    and "valid_production_server_name host" and "tc2_primary sample_transports = Quic2"
    and es: "map (\<lambda>e. (te2_transport e, te2_url e)) (tc2_endpoints sample_transports) =
      [(Quic2, endpoint_text ''https'' host p1 []), (Wss2, endpoint_text ''wss'' host p2 ''/kynp''),
       (Tcp2, endpoint_text ''tcp'' host p3 [])]"
    by (elim exE conjE) (rule that)
  moreover have "map te2_url (tc2_endpoints sample_transports) =
      [endpoint_text ''https'' host p1 [], endpoint_text ''wss'' host p2 ''/kynp'',
       endpoint_text ''tcp'' host p3 []]"
    using arg_cong [OF es, of "map snd"] by (simp add: comp_def)
  ultimately have "distinct [p1, p2, p3] \<and> valid_production_server_name host \<and>
     tc2_primary sample_transports = Quic2 \<and>
     map te2_url (tc2_endpoints sample_transports) =
       [endpoint_text ''https'' host p1 [], endpoint_text ''wss'' host p2 ''/kynp'',
        endpoint_text ''tcp'' host p3 []]" by (intro conjI)
  then show ?thesis by (intro exI)
qed

theorem validation_errors_witness:
  "NetworkProfile_validate sample_lib (sample_profile_v1\<lparr>pr_schema_version := 3\<rparr>) =
     Err UnsupportedSchemaVersion"
  using validation_errors [of sample_lib "sample_profile_v1\<lparr>pr_schema_version := 3\<rparr>" sample_profile]
  by simp

theorem valid_v1_profile_endpoints_witness:
  "distinct (map te_transport (tc_endpoints (pr_transports sample_profile_v1)))"
  using valid_v1_profile_endpoints [OF sample_profile_v1_valid] by blast

end
