(* ===== verification/Policy.thy ===== *)
theory Policy
  imports Net_Config Net_Config_Facts Route
begin

section \<open>Signed policies\<close>

text \<open>
  \<open>networking/policy.rs\<close>: the trust store of Ed25519 keys and the verification of a signed policy
  envelope.  JSON decoding, base64, SHA-256 and signature verification are library code, given as
  the arguments \<open>config_lib\<close> and \<open>policy_lib\<close>.  The hash map of the store is an association
  list with at most one value per key.
\<close>

subsection \<open>Data\<close>

definition SIGNED_POLICY_ENVELOPE_VERSION :: u8 where "SIGNED_POLICY_ENVELOPE_VERSION = 2"

definition SIGNED_POLICY_ALGORITHM :: string where "SIGNED_POLICY_ALGORITHM = ''ed25519''"

record SignedNetworkPolicyEnvelope =
  ev_envelope_version :: u8
  ev_key_id :: string
  ev_algorithm :: string
  ev_payload_base64 :: string
  ev_signature_base64 :: string

record SignedNetworkPolicyPayload =
  py_issued_at :: u64
  py_expires_at :: u64
  py_revision :: u64
  py_profile :: NetworkProfile

record VerifiedNetworkPolicy =
  vp_key_id :: string
  vp_envelope_sha256 :: string
  vp_issued_at :: u64
  vp_expires_at :: u64
  vp_revision :: u64
  vp_profile :: NetworkProfile

record PolicyTrustKey =
  tk_key_id :: string
  tk_public_key_base64 :: string

record PolicyTrustBundle =
  tb_schema_version :: u8
  tb_keys :: "PolicyTrustKey list"

record policy_lib =
  envelope_from_slice :: "u8 list \<Rightarrow> SignedNetworkPolicyEnvelope option"
  payload_from_slice :: "u8 list \<Rightarrow> SignedNetworkPolicyPayload option"
  bundle_from_slice :: "u8 list \<Rightarrow> PolicyTrustBundle option"
  sha256 :: "u8 list \<Rightarrow> u8 list"
  ed25519_verify :: "u8 list \<Rightarrow> u8 list \<Rightarrow> u8 list \<Rightarrow> bool"

type_synonym PolicyTrustStore = "(string \<times> u8 list) list"

subsection \<open>Operations\<close>

definition validate_at :: "u64 \<Rightarrow> VerifiedNetworkPolicy \<Rightarrow> unit net_result" where
  "validate_at now v =
     (if vp_revision v = 0 \<or> now < vp_issued_at v \<or> vp_expires_at v \<le> now \<or>
         vp_expires_at v \<le> vp_issued_at v
      then Err PolicySignatureInvalid else Ok ())"

definition hex_sha256 :: "policy_lib \<Rightarrow> u8 list \<Rightarrow> string" where
  "hex_sha256 plib bytes = hex_bytes (sha256 plib bytes)"

definition signing_message :: "string \<Rightarrow> string \<Rightarrow> u8 list \<Rightarrow> u8 list" where
  "signing_message key_id algorithm payload =
     as_bytes ''kyclash-policy-envelope-v2'' @ [0] @ as_bytes key_id @ [0] @ as_bytes algorithm @ [0] @
     payload"

definition valid_key_id :: "string \<Rightarrow> bool" where
  "valid_key_id s \<longleftrightarrow>
     s \<noteq> [] \<and> length s \<le> 128 \<and>
     list_all (\<lambda>(i, c). is_ascii_alphanumeric c \<or> (0 < i \<and> c \<in> set ''._:-'')) (enumerate 0 s)"

fun insert_keys :: "(string \<times> u8 list) list \<Rightarrow> PolicyTrustStore \<Rightarrow> PolicyTrustStore net_result" where
  "insert_keys [] public_keys = Ok public_keys"
| "insert_keys ((key_id, public_key) # keys) public_keys =
     (if \<not> valid_key_id key_id \<or> length public_key \<noteq> 32 then Err InvalidConfiguration
      else if map_of public_keys key_id \<noteq> None then Err InvalidConfiguration
      else insert_keys keys (assoc_insert key_id public_key public_keys))"

definition from_ed25519_keys :: "(string \<times> u8 list) list \<Rightarrow> PolicyTrustStore net_result" where
  "from_ed25519_keys keys =
     (case insert_keys keys [] of Err e \<Rightarrow> Err e
      | Ok public_keys \<Rightarrow> if public_keys = [] then Err InvalidConfiguration else Ok public_keys)"

definition from_json :: "config_lib \<Rightarrow> policy_lib \<Rightarrow> u8 list \<Rightarrow> PolicyTrustStore net_result" where
  "from_json lib plib encoded =
     (case bundle_from_slice plib encoded of None \<Rightarrow> Err InvalidConfiguration
      | Some bundle \<Rightarrow>
          if tb_schema_version bundle \<noteq> 1 \<or> tb_keys bundle = [] then Err InvalidConfiguration
          else case collect_results
                 (\<lambda>key. case base64_decode lib (tk_public_key_base64 key) of
                    None \<Rightarrow> Err InvalidConfiguration
                  | Some public_key \<Rightarrow> Ok (tk_key_id key, public_key)) (tb_keys bundle) of
            Err e \<Rightarrow> Err e
          | Ok keys \<Rightarrow> from_ed25519_keys keys)"

definition policy_verify ::
  "config_lib \<Rightarrow> policy_lib \<Rightarrow> u8 list \<Rightarrow> u64 \<Rightarrow> PolicyTrustStore \<Rightarrow> VerifiedNetworkPolicy net_result" where
  "policy_verify lib plib encoded now store =
     (case envelope_from_slice plib encoded of None \<Rightarrow> Err PolicySignatureInvalid
      | Some envelope \<Rightarrow>
      if ev_envelope_version envelope \<noteq> SIGNED_POLICY_ENVELOPE_VERSION \<or>
         ev_algorithm envelope \<noteq> SIGNED_POLICY_ALGORITHM \<or> \<not> valid_key_id (ev_key_id envelope)
      then Err PolicySignatureInvalid
      else case map_of store (ev_key_id envelope) of None \<Rightarrow> Err PolicySignatureInvalid
      | Some public_key \<Rightarrow>
     (case base64_decode lib (ev_payload_base64 envelope) of None \<Rightarrow> Err PolicySignatureInvalid
      | Some payload_bytes \<Rightarrow>
     (case base64_decode lib (ev_signature_base64 envelope) of None \<Rightarrow> Err PolicySignatureInvalid
      | Some signature \<Rightarrow>
      if \<not> ed25519_verify plib public_key
             (signing_message (ev_key_id envelope) (ev_algorithm envelope) payload_bytes) signature
      then Err PolicySignatureInvalid
      else case payload_from_slice plib payload_bytes of None \<Rightarrow> Err PolicySignatureInvalid
      | Some payload \<Rightarrow>
     (case NetworkProfile_validate lib (py_profile payload) of Err e \<Rightarrow> Err e
      | Ok _ \<Rightarrow>
          let verified =
            \<lparr>vp_key_id = ev_key_id envelope, vp_envelope_sha256 = hex_sha256 plib encoded,
             vp_issued_at = py_issued_at payload, vp_expires_at = py_expires_at payload,
             vp_revision = py_revision payload, vp_profile = py_profile payload\<rparr>
          in case validate_at now verified of Err e \<Rightarrow> Err e | Ok _ \<Rightarrow> Ok verified))))"

definition verify_profile ::
  "config_lib \<Rightarrow> policy_lib \<Rightarrow> u8 list \<Rightarrow> u64 \<Rightarrow> PolicyTrustStore \<Rightarrow> NetworkProfile net_result" where
  "verify_profile lib plib encoded now store =
     map_ok vp_profile (policy_verify lib plib encoded now store)"

subsection \<open>The trust store\<close>

lemma insert_keys_Ok:
  "insert_keys keys store = Ok s \<longleftrightarrow>
     distinct (map fst keys) \<and> fst ` set keys \<inter> fst ` set store = {} \<and>
     (\<forall>(k, p)\<in>set keys. valid_key_id k \<and> length p = 32) \<and> s = store @ keys"
proof (induction keys arbitrary: store)
  case (Cons key keys)
  obtain k p where key: "key = (k, p)" by (cases key)
  have new: "assoc_insert k p m = m @ [(k, p)]" if "k \<notin> fst ` set m" for m
    using that by (induction m) auto
  show ?case
  proof (cases "k \<in> fst ` set store")
    case True
    then show ?thesis by (auto simp: key map_of_eq_None_iff)
  next
    case False
    then have "map_of store k = None" by (simp add: map_of_eq_None_iff)
    with False show ?thesis by (auto simp: key Cons.IH new)
  qed
qed auto

text \<open>
  A trust store is built exactly from a non-empty list of keys with pairwise distinct,
  well-formed identifiers and 32 bytes each, and then looks up every identifier as given; any other
  list is refused with \<open>InvalidConfiguration\<close>.
\<close>

theorem trust_store_holds_the_keys:
  "from_ed25519_keys keys =
     (if keys \<noteq> [] \<and> distinct (map fst keys) \<and>
         list_all (\<lambda>(k, p). valid_key_id k \<and> length p = 32) keys
      then Ok keys else Err InvalidConfiguration)"
proof (cases "insert_keys keys []")
  case (Ok s)
  then have "distinct (map fst keys) \<and> list_all (\<lambda>(k, p). valid_key_id k \<and> length p = 32) keys \<and> s = keys"
    by (simp add: insert_keys_Ok list_all_iff)
  with Ok show ?thesis by (simp add: from_ed25519_keys_def)
next
  case (Err e)
  then have "\<not> (distinct (map fst keys) \<and> list_all (\<lambda>(k, p). valid_key_id k \<and> length p = 32) keys)"
    using insert_keys_Ok [of keys "[]" keys] by (auto simp: list_all_iff)
  moreover have "insert_keys keys store = Err e \<Longrightarrow> e = InvalidConfiguration" for store
    by (induction keys store rule: insert_keys.induct) (auto split: if_splits)
  ultimately show ?thesis using Err by (auto simp: from_ed25519_keys_def)
qed

subsection \<open>What a signature covers\<close>

lemma valid_key_id_chars: "valid_key_id k \<Longrightarrow> c \<in> set k \<Longrightarrow> is_ascii_alphanumeric c \<or> c \<in> set ''._:-''"
  by (auto simp: valid_key_id_def list_all_iff in_set_conv_nth enumerate_eq_zip set_zip)

lemma valid_key_id_no_nul: "valid_key_id k \<Longrightarrow> 0 \<notin> set (as_bytes k)"
proof
  assume k: "valid_key_id k" and "0 \<in> set (as_bytes k)"
  then obtain c where c: "c \<in> set k" "0 = (word_of_nat (of_char c) :: u8)"
    unfolding as_bytes_def set_map by (elim imageE)
  have "of_char c = unat (0 :: u8)" unfolding c(2) by (rule unat_as_byte [symmetric])
  then have "of_char c = (0 :: nat)" by simp
  then have "c = CHR 0x00" by (cases c) (auto simp: of_char_def)
  moreover have "\<not> is_ascii_alphanumeric CHR 0x00" "CHR 0x00 \<notin> set ''._:-''" by code_simp+
  ultimately show False using valid_key_id_chars [OF k c(1)] by blast
qed

lemma append_sep_inject:
  "z \<notin> set a \<Longrightarrow> z \<notin> set b \<Longrightarrow> a @ z # x = b @ z # y \<longleftrightarrow> a = b \<and> x = y"
proof (induction a arbitrary: b)
  case Nil
  then show ?case by (cases b) auto
next
  case (Cons c a)
  then show ?case by (cases b) auto
qed

text \<open>
  The signed message is unambiguous: two messages with well-formed key identifiers and
  algorithm names without a zero byte are equal only when key identifier, algorithm and payload are,
  so a signature can be valid for one triple only.
\<close>

lemma signing_message_inject:
  assumes "valid_key_id k" and "valid_key_id k'" and "0 \<notin> set (as_bytes a)" and "0 \<notin> set (as_bytes a')"
  shows "signing_message k a p = signing_message k' a' p' \<longleftrightarrow> k = k' \<and> a = a' \<and> p = p'"
  using assms valid_key_id_no_nul by (simp add: signing_message_def append_sep_inject)

subsection \<open>Verification\<close>

text \<open>
  Claim C38. A policy is accepted only if its envelope names a key of the store under the version and
  algorithm of the application, and the signature verifies under that key for the bytes made of the
  domain name, the key identifier, the algorithm and the payload the policy is read from; no other
  payload and no other key identifier yields the same signed bytes.  The profile validates, the
  revision is positive and the current time lies in the validity interval.  The result carries the
  fields of this payload and the digest of the bytes received.
\<close>

theorem accepted_policy_is_signed:
  assumes "policy_verify lib plib encoded now store = Ok v"
  shows "\<exists>envelope payload_bytes payload public_key signature.
    envelope_from_slice plib encoded = Some envelope \<and> ev_envelope_version envelope = 2 \<and>
    ev_algorithm envelope = ''ed25519'' \<and>
    map_of store (vp_key_id v) = Some public_key \<and> vp_key_id v = ev_key_id envelope \<and>
    base64_decode lib (ev_payload_base64 envelope) = Some payload_bytes \<and>
    base64_decode lib (ev_signature_base64 envelope) = Some signature \<and>
    signing_message (vp_key_id v) (ev_algorithm envelope) payload_bytes =
      as_bytes ''kyclash-policy-envelope-v2'' @ [0] @ as_bytes (vp_key_id v) @ [0] @
      as_bytes ''ed25519'' @ [0] @ payload_bytes \<and>
    ed25519_verify plib public_key
      (signing_message (vp_key_id v) (ev_algorithm envelope) payload_bytes) signature \<and>
    (\<forall>key_id bytes. valid_key_id key_id \<longrightarrow>
       signing_message key_id (ev_algorithm envelope) bytes =
         signing_message (vp_key_id v) (ev_algorithm envelope) payload_bytes \<longrightarrow>
       key_id = vp_key_id v \<and> bytes = payload_bytes) \<and>
    payload_from_slice plib payload_bytes = Some payload \<and>
    v = \<lparr>vp_key_id = ev_key_id envelope, vp_envelope_sha256 = hex_bytes (sha256 plib encoded),
         vp_issued_at = py_issued_at payload, vp_expires_at = py_expires_at payload,
         vp_revision = py_revision payload, vp_profile = py_profile payload\<rparr> \<and>
    NetworkProfile_validate lib (vp_profile v) = Ok () \<and>
    0 < vp_revision v \<and> vp_issued_at v \<le> now \<and> now < vp_expires_at v"
proof -
  from assms obtain envelope where e: "envelope_from_slice plib encoded = Some envelope"
    "ev_envelope_version envelope = 2" "ev_algorithm envelope = ''ed25519''" "valid_key_id (ev_key_id envelope)"
    by (auto simp: policy_verify_def SIGNED_POLICY_ENVELOPE_VERSION_def SIGNED_POLICY_ALGORITHM_def
        split: option.splits if_splits)
  from assms e obtain public_key payload_bytes signature where
    "map_of store (ev_key_id envelope) = Some public_key"
    "base64_decode lib (ev_payload_base64 envelope) = Some payload_bytes"
    "base64_decode lib (ev_signature_base64 envelope) = Some signature"
    "ed25519_verify plib public_key (signing_message (ev_key_id envelope) ''ed25519'' payload_bytes) signature"
    by (auto simp: policy_verify_def split: option.splits if_splits)
  moreover from this assms e obtain payload where
    "payload_from_slice plib payload_bytes = Some payload"
    "NetworkProfile_validate lib (py_profile payload) = Ok ()"
    "v = \<lparr>vp_key_id = ev_key_id envelope, vp_envelope_sha256 = hex_sha256 plib encoded,
         vp_issued_at = py_issued_at payload, vp_expires_at = py_expires_at payload,
         vp_revision = py_revision payload, vp_profile = py_profile payload\<rparr>"
    "validate_at now v = Ok ()"
    by (auto simp: policy_verify_def Let_def split: option.splits if_splits result.splits)
  moreover from this(4) have "0 < vp_revision v \<and> vp_issued_at v \<le> now \<and> now < vp_expires_at v"
    by (auto simp: validate_at_def word_neq_0_conv not_le not_less split: if_splits)
  moreover have "0 \<notin> set (as_bytes ''ed25519'')" by code_simp
  then have "\<forall>key_id bytes. valid_key_id key_id \<longrightarrow>
      signing_message key_id ''ed25519'' bytes = signing_message (ev_key_id envelope) ''ed25519'' payload_bytes \<longrightarrow>
      key_id = ev_key_id envelope \<and> bytes = payload_bytes"
    using signing_message_inject e(4) by blast
  ultimately show ?thesis
    using e by (intro exI [of _ envelope] exI [of _ payload_bytes] exI [of _ payload]
        exI [of _ public_key] exI [of _ signature]) (simp add: hex_sha256_def signing_message_def)
qed

definition sample_policy_lib :: policy_lib where
  "sample_policy_lib =
     \<lparr>envelope_from_slice = (\<lambda>bytes. if bytes = [1] then Some
        \<lparr>ev_envelope_version = 2, ev_key_id = ''key.1'', ev_algorithm = ''ed25519'',
         ev_payload_base64 = ''cGF5bG9hZA=='', ev_signature_base64 = ''c2ln''\<rparr> else None),
      payload_from_slice = (\<lambda>bytes. if bytes = [2] then Some
        \<lparr>py_issued_at = 100, py_expires_at = 200, py_revision = 7, py_profile = sample_profile_v1\<rparr>
        else None),
      bundle_from_slice = (\<lambda>_. None), sha256 = (\<lambda>_. replicate 32 0),
      ed25519_verify = (\<lambda>key message signature. key = replicate 32 9 \<and> signature = [3])\<rparr>"

definition sample_policy_base64 :: config_lib where
  "sample_policy_base64 = sample_lib\<lparr>base64_decode := (\<lambda>s.
     if s = ''cGF5bG9hZA=='' then Some [2] else if s = ''c2ln'' then Some [3]
     else base64_decode sample_lib s)\<rparr>"

theorem accepted_policy_is_signed_witness:
  "\<exists>v. policy_verify sample_policy_base64 sample_policy_lib [1] 150 [(''key.1'', replicate 32 9)] = Ok v \<and>
     vp_key_id v = ''key.1'' \<and> vp_revision v = 7 \<and> 0 < vp_revision v"
proof -
  let ?r = "policy_verify sample_policy_base64 sample_policy_lib [1] 150 [(''key.1'', replicate 32 9)]"
  have "is_ok ?r \<and> vp_key_id (the_ok ?r) = ''key.1'' \<and> vp_revision (the_ok ?r) = 7" by code_simp
  then obtain v where v: "?r = Ok v" "vp_key_id v = ''key.1''" "vp_revision v = 7"
    by (auto simp: is_ok_iff)
  with accepted_policy_is_signed [OF v(1)] show ?thesis by blast
qed

end
