(* ===== verification/Data_Plane.thy ===== *)
theory Data_Plane
  imports Net_Config Net_Config_Facts
begin

section \<open>The data plane\<close>

text \<open>
  \<open>networking/data_plane.rs\<close>: \<open>DataPlaneController\<close> brings up the tunnel, a transport and the
  private routes, in this order, falls back to another transport, and takes everything down again.
  The three adapters are traits.  They may share state (the adapters of the tests share one event
  log), so the model keeps one state \<open>dp_world\<close> behind the operations of all three, in the record
  \<open>DataPlaneAdapters\<close>.  What an adapter promises is the locale \<open>data_plane_adapters\<close>, interpreted
  on the adapters of the tests.
\<close>

subsection \<open>Adapters\<close>

record TransportHealth =
  th_reachable :: bool
  th_latency_ms :: u32
  th_jitter_ms :: u32
  th_packet_loss_percent :: u8

definition healthy :: "TransportHealth \<Rightarrow> bool" where
  "healthy h \<longleftrightarrow> th_reachable h \<and> th_packet_loss_percent h < 50"

record 'x DataPlaneAdapters =
  wg_start :: "TunnelConfig \<Rightarrow> 'x \<Rightarrow> unit net_result \<times> 'x"
  wg_stop :: "'x \<Rightarrow> unit net_result \<times> 'x"
  ra_apply :: "NetworkProfile \<Rightarrow> 'x \<Rightarrow> unit net_result \<times> 'x"
  ra_rollback :: "'x \<Rightarrow> unit net_result \<times> 'x"
  tr_connect :: "TransportEndpoint \<Rightarrow> 'x \<Rightarrow> unit net_result \<times> 'x"
  tr_disconnect :: "TransportKind \<Rightarrow> 'x \<Rightarrow> unit net_result \<times> 'x"
  tr_health :: "TransportKind \<Rightarrow> 'x \<Rightarrow> TransportHealth net_result \<times> 'x"

subsection \<open>The controller\<close>

record 'x DataPlaneController =
  dp_world :: 'x
  dp_state :: NetworkState
  dp_active_transport :: "TransportKind option"
  dp_unhealthy_samples :: u8

definition dp_new :: "'x \<Rightarrow> 'x DataPlaneController" where
  "dp_new adapters =
     \<lparr>dp_world = adapters, dp_state = Disconnected, dp_active_transport = None,
      dp_unhealthy_samples = 0\<rparr>"

text \<open>A call of an adapter, and \<open>self.state.transition_to\<close>.\<close>

definition dp_call ::
  "('x \<Rightarrow> 'a net_result \<times> 'x) \<Rightarrow> 'x DataPlaneController \<Rightarrow> 'a net_result \<times> 'x DataPlaneController" where
  "dp_call f c = (case f (dp_world c) of (r, x) \<Rightarrow> (r, c\<lparr>dp_world := x\<rparr>))"

definition dp_to ::
  "NetworkState \<Rightarrow> 'x DataPlaneController \<Rightarrow> unit net_result \<times> 'x DataPlaneController" where
  "dp_to n c = (case transition_to (dp_state c) n of (r, s) \<Rightarrow> (r, c\<lparr>dp_state := s\<rparr>))"

definition disconnect_active ::
  "'x DataPlaneAdapters \<Rightarrow> TransportKind \<Rightarrow> 'x DataPlaneController \<Rightarrow>
     unit net_result \<times> 'x DataPlaneController" where
  "disconnect_active A kind c =
     (case dp_call (tr_disconnect A kind) c of
        (Err e, c) \<Rightarrow> (Err e, c)
      | (Ok _, c) \<Rightarrow> (Ok (), c\<lparr>dp_active_transport := None\<rparr>))"

definition connect_kind ::
  "'x DataPlaneAdapters \<Rightarrow> NetworkProfile \<Rightarrow> TransportKind \<Rightarrow> 'x DataPlaneController \<Rightarrow>
     unit net_result \<times> 'x DataPlaneController" where
  "connect_kind A profile kind c =
     (case find (\<lambda>e. te_transport e = kind) (tc_endpoints (pr_transports profile)) of
        None \<Rightarrow> (Err InvalidConfiguration, c)
      | Some endpoint \<Rightarrow>
          (case dp_call (tr_connect A endpoint) c of
             (Err e, c) \<Rightarrow> (Err e, c)
           | (Ok _, c) \<Rightarrow> (Ok (), c\<lparr>dp_active_transport := Some kind\<rparr>)))"

definition connect_kind_healthy ::
  "'x DataPlaneAdapters \<Rightarrow> NetworkProfile \<Rightarrow> TransportKind \<Rightarrow> 'x DataPlaneController \<Rightarrow>
     unit net_result \<times> 'x DataPlaneController" where
  "connect_kind_healthy A profile kind c =
     (case connect_kind A profile kind c of
        (Err e, c) \<Rightarrow> (Err e, c)
      | (Ok _, c) \<Rightarrow>
          (case dp_call (tr_health A kind) c of
             (Err e, c) \<Rightarrow> (Err e, c)
           | (Ok h, c) \<Rightarrow> (if healthy h then Ok () else Err PrimaryTransportUnavailable, c)))"

fun fallback_loop ::
  "'x DataPlaneAdapters \<Rightarrow> NetworkProfile \<Rightarrow> TransportKind list \<Rightarrow> 'x DataPlaneController \<Rightarrow>
     unit net_result \<times> 'x DataPlaneController" where
  "fallback_loop A profile [] c = (Err FallbackTransportUnavailable, c)"
| "fallback_loop A profile (kind # kinds) c =
     (case connect_kind_healthy A profile kind c of
        (Ok _, c) \<Rightarrow> (Ok (), c)
      | (Err _, c) \<Rightarrow>
          if dp_active_transport c \<noteq> None
          then case disconnect_active A kind c of
                 (Err e, c) \<Rightarrow> (Err e, c)
               | (Ok _, c) \<Rightarrow> fallback_loop A profile kinds c
          else fallback_loop A profile kinds c)"

definition connect_first_fallback ::
  "'x DataPlaneAdapters \<Rightarrow> NetworkProfile \<Rightarrow> 'x DataPlaneController \<Rightarrow>
     unit net_result \<times> 'x DataPlaneController" where
  "connect_first_fallback A profile c = fallback_loop A profile (tc_fallbacks (pr_transports profile)) c"

definition fail_to_disconnected ::
  "'x DataPlaneController \<Rightarrow> unit net_result \<times> 'x DataPlaneController" where
  "fail_to_disconnected c =
     (case dp_to Error c of (Err e, c) \<Rightarrow> (Err e, c) | (Ok _, c) \<Rightarrow> dp_to Disconnected c)"

definition cleanup_after_failure ::
  "'x DataPlaneAdapters \<Rightarrow> 'x DataPlaneController \<Rightarrow> unit net_result \<times> 'x DataPlaneController" where
  "cleanup_after_failure A c =
     (let c = c\<lparr>dp_active_transport := None\<rparr>;
          (route_result, c) = dp_call (ra_rollback A) c;
          (tunnel_result, c) = dp_call (wg_stop A) c
      in case dp_to Error c of (Err e, c) \<Rightarrow> (Err e, c)
         | (Ok _, c) \<Rightarrow>
        (case dp_to Disconnected c of (Err e, c) \<Rightarrow> (Err e, c)
         | (Ok _, c) \<Rightarrow> (result_and route_result tunnel_result, c)))"

text \<open>The tail of \<open>connect\<close> after a transport is up: the routes, then the final state.\<close>

definition connect_routes ::
  "'x DataPlaneAdapters \<Rightarrow> NetworkProfile \<Rightarrow> NetworkState \<Rightarrow> 'x DataPlaneController \<Rightarrow>
     unit net_result \<times> 'x DataPlaneController" where
  "connect_routes A profile n c =
     (case dp_call (ra_apply A profile) c of
        (Err error, c) \<Rightarrow>
          (case cleanup_after_failure A c of (Err e, c) \<Rightarrow> (Err e, c) | (Ok _, c) \<Rightarrow> (Err error, c))
      | (Ok _, c) \<Rightarrow> dp_to n c)"

definition connect_transports ::
  "'x DataPlaneAdapters \<Rightarrow> NetworkProfile \<Rightarrow> 'x DataPlaneController \<Rightarrow>
     unit net_result \<times> 'x DataPlaneController" where
  "connect_transports A profile c =
     (case connect_kind_healthy A profile (tc_primary (pr_transports profile)) c of
        (Ok _, c) \<Rightarrow> connect_routes A profile ConnectedPrimary c
      | (Err _, c) \<Rightarrow>
     (case (if dp_active_transport c \<noteq> None
            then disconnect_active A (tc_primary (pr_transports profile)) c else (Ok (), c)) of
        (Err e, c) \<Rightarrow> (Err e, c)
      | (Ok _, c) \<Rightarrow>
     (case connect_first_fallback A profile c of
        (Ok _, c) \<Rightarrow> connect_routes A profile DegradedFallback c
      | (Err _, c) \<Rightarrow>
          (case cleanup_after_failure A c of
             (Err e, c) \<Rightarrow> (Err e, c)
           | (Ok _, c) \<Rightarrow> (Err FallbackTransportUnavailable, c)))))"

fun dp_path :: "NetworkState list \<Rightarrow> 'x DataPlaneController \<Rightarrow> unit net_result \<times> 'x DataPlaneController" where
  "dp_path [] c = (Ok (), c)"
| "dp_path (n # ns) c = (case dp_to n c of (Err e, c) \<Rightarrow> (Err e, c) | (Ok _, c) \<Rightarrow> dp_path ns c)"

definition dp_connect ::
  "config_lib \<Rightarrow> 'x DataPlaneAdapters \<Rightarrow> NetworkProfile \<Rightarrow> 'x DataPlaneController \<Rightarrow>
     unit net_result \<times> 'x DataPlaneController" where
  "dp_connect lib A profile c =
     (case NetworkProfile_validate lib profile of
        Err e \<Rightarrow> (Err e, c)
      | Ok _ \<Rightarrow>
     (case dp_path [Authenticating, FetchingConfig, PreparingTunnel] c of
        (Err e, c) \<Rightarrow> (Err e, c)
      | (Ok _, c) \<Rightarrow>
     (case dp_call (wg_start A (pr_tunnel profile)) c of
        (Err error, c) \<Rightarrow>
          (case fail_to_disconnected c of (Err e, c) \<Rightarrow> (Err e, c) | (Ok _, c) \<Rightarrow> (Err error, c))
      | (Ok _, c) \<Rightarrow>
     (case dp_to ConnectingPrimary c of
        (Err e, c) \<Rightarrow> (Err e, c)
      | (Ok _, c) \<Rightarrow> connect_transports A profile c))))"

text \<open>The shared ending of \<open>switch_after_failure\<close>: a fallback, or everything down.\<close>

definition fallback_or_cleanup ::
  "'x DataPlaneAdapters \<Rightarrow> NetworkProfile \<Rightarrow> 'x DataPlaneController \<Rightarrow>
     unit net_result \<times> 'x DataPlaneController" where
  "fallback_or_cleanup A profile c =
     (case connect_first_fallback A profile c of
        (Err error, c) \<Rightarrow>
          (case cleanup_after_failure A c of (Err e, c) \<Rightarrow> (Err e, c) | (Ok _, c) \<Rightarrow> (Err error, c))
      | (Ok _, c) \<Rightarrow> dp_to DegradedFallback c)"

definition switch_after_failure ::
  "'x DataPlaneAdapters \<Rightarrow> NetworkProfile \<Rightarrow> TransportKind \<Rightarrow> 'x DataPlaneController \<Rightarrow>
     unit net_result \<times> 'x DataPlaneController" where
  "switch_after_failure A profile failed c =
     (case disconnect_active A failed c of
        (Err e, c) \<Rightarrow> (Err e, c)
      | (Ok _, c) \<Rightarrow>
          if failed = tc_primary (pr_transports profile) then fallback_or_cleanup A profile c
          else case dp_to Reconnecting c of
                 (Err e, c) \<Rightarrow> (Err e, c)
               | (Ok _, c) \<Rightarrow>
                   (case connect_kind A profile (tc_primary (pr_transports profile)) c of
                      (Ok _, c) \<Rightarrow> dp_to ConnectedPrimary c
                    | (Err _, c) \<Rightarrow> fallback_or_cleanup A profile c))"

definition sample_health ::
  "'x DataPlaneAdapters \<Rightarrow> NetworkProfile \<Rightarrow> 'x DataPlaneController \<Rightarrow>
     TransportHealth net_result \<times> 'x DataPlaneController" where
  "sample_health A profile c =
     (case dp_active_transport c of
        None \<Rightarrow> (Err InvalidStateTransition, c)
      | Some active \<Rightarrow>
     (case dp_call (tr_health A active) c of
        (Err e, c) \<Rightarrow> (Err e, c)
      | (Ok health, c) \<Rightarrow>
          if healthy health then (Ok health, c\<lparr>dp_unhealthy_samples := 0\<rparr>)
          else let c = c\<lparr>dp_unhealthy_samples := saturating_add (dp_unhealthy_samples c) 1\<rparr>
          in if dp_unhealthy_samples c < np_fallback_threshold (pr_policy profile) then (Ok health, c)
             else case switch_after_failure A profile active (c\<lparr>dp_unhealthy_samples := 0\<rparr>) of
                    (Err e, c) \<Rightarrow> (Err e, c)
                  | (Ok _, c) \<Rightarrow> (Ok health, c)))"

definition reconnect_after_network_change ::
  "'x DataPlaneAdapters \<Rightarrow> NetworkProfile \<Rightarrow> 'x DataPlaneController \<Rightarrow>
     unit net_result \<times> 'x DataPlaneController" where
  "reconnect_after_network_change A profile c =
     (case dp_active_transport c of
        None \<Rightarrow> (Err InvalidStateTransition, c)
      | Some active \<Rightarrow>
     (case dp_to Reconnecting c of
        (Err e, c) \<Rightarrow> (Err e, c)
      | (Ok _, c) \<Rightarrow>
     (case disconnect_active A active c of
        (Err e, c) \<Rightarrow> (Err e, c)
      | (Ok _, c) \<Rightarrow>
     (case connect_kind A profile (tc_primary (pr_transports profile)) c of
        (Ok _, c) \<Rightarrow> dp_to ConnectedPrimary c
      | (Err _, c) \<Rightarrow>
          (case connect_first_fallback A profile c of
             (Err e, c) \<Rightarrow> (Err e, c)
           | (Ok _, c) \<Rightarrow> dp_to DegradedFallback c)))))"

definition dp_disconnect ::
  "'x DataPlaneAdapters \<Rightarrow> 'x DataPlaneController \<Rightarrow> unit net_result \<times> 'x DataPlaneController" where
  "dp_disconnect A c =
     (if dp_state c = Disconnected then (Ok (), c)
      else case dp_to Disconnecting c of
        (Err e, c) \<Rightarrow> (Err e, c)
      | (Ok _, c) \<Rightarrow>
          let (transport_result, c) = (case dp_active_transport c of
                 None \<Rightarrow> (Ok (), c) | Some active \<Rightarrow> disconnect_active A active c);
              (route_result, c) = dp_call (ra_rollback A) c;
              (tunnel_result, c) = dp_call (wg_stop A) c
          in case dp_to Disconnected c of
               (Err e, c) \<Rightarrow> (Err e, c)
             | (Ok _, c) \<Rightarrow> (result_and (result_and transport_result route_result) tunnel_result, c))"

subsection \<open>What the steps do to the controller\<close>

text \<open>
  Each step is described by its effect on state, active transport and counter, whatever the adapters
  answer; \<open>dp_steps\<close> collects these facts.
\<close>

named_theorems dp_steps \<open>effect of the private steps on state and active transport\<close>

lemma dp_call_eq [dp_steps]:
  "dp_call f c = (r, c') \<Longrightarrow>
     dp_state c' = dp_state c \<and> dp_active_transport c' = dp_active_transport c \<and>
     f (dp_world c) = (r, dp_world c')"
  by (auto simp: dp_call_def split: prod.splits)

lemma dp_to_eq [dp_steps]:
  "dp_to n c = (r, c') \<Longrightarrow>
     dp_state c' = (if can_transition_to (dp_state c) n then n else dp_state c) \<and>
     dp_active_transport c' = dp_active_transport c \<and> dp_world c' = dp_world c \<and>
     (r = Ok () \<longleftrightarrow> can_transition_to (dp_state c) n)"
  by (auto simp: dp_to_def transition_to_def split: if_splits)

lemma disconnect_active_eq [dp_steps]:
  "disconnect_active A kind c = (r, c') \<Longrightarrow>
     dp_state c' = dp_state c \<and>
     dp_active_transport c' = (if r = Ok () then None else dp_active_transport c) \<and>
     tr_disconnect A kind (dp_world c) = (r, dp_world c')"
  by (auto simp: disconnect_active_def split: prod.splits result.splits dest!: dp_call_eq)

lemma connect_kind_eq [dp_steps]:
  "connect_kind A profile kind c = (r, c') \<Longrightarrow>
     dp_state c' = dp_state c \<and>
     dp_active_transport c' = (if r = Ok () then Some kind else dp_active_transport c)"
  by (auto simp: connect_kind_def split: option.splits prod.splits result.splits dest!: dp_call_eq)

lemma connect_kind_healthy_eq [dp_steps]:
  "connect_kind_healthy A profile kind c = (r, c') \<Longrightarrow>
     dp_state c' = dp_state c \<and> (r = Ok () \<longrightarrow> dp_active_transport c' = Some kind)"
  by (auto simp: connect_kind_healthy_def split: prod.splits result.splits if_splits
      dest!: dp_call_eq connect_kind_eq)

lemma fallback_loop_eq [dp_steps]:
  "fallback_loop A profile kinds c = (r, c') \<Longrightarrow>
     dp_state c' = dp_state c \<and> (r = Ok () \<longrightarrow> dp_active_transport c' \<in> Some ` set kinds)"
proof (induction kinds arbitrary: c)
  case (Cons kind kinds)
  obtain r1 c1 where 1: "connect_kind_healthy A profile kind c = (r1, c1)" by fastforce
  obtain r2 c2 where 2: "disconnect_active A kind c1 = (r2, c2)" by fastforce
  show ?case
    using Cons.prems Cons.IH [of c1] Cons.IH [of c2]
      connect_kind_healthy_eq [OF 1] disconnect_active_eq [OF 2]
    by (simp add: 1 2 split: result.splits if_splits) blast+
qed auto

lemma connect_first_fallback_eq [dp_steps]:
  "connect_first_fallback A profile c = (r, c') \<Longrightarrow>
     dp_state c' = dp_state c \<and>
     (r = Ok () \<longrightarrow> dp_active_transport c' \<in> Some ` set (tc_fallbacks (pr_transports profile)))"
  unfolding connect_first_fallback_def by (rule fallback_loop_eq)

lemma cleanup_after_failure_eq [dp_steps]:
  assumes "cleanup_after_failure A c = (r, c')"
  shows "dp_active_transport c' = None \<and>
    dp_state c' = (if can_transition_to (dp_state c) Error then Disconnected else dp_state c)"
proof -
  obtain r1 c1 where 1: "dp_call (ra_rollback A) (c\<lparr>dp_active_transport := None\<rparr>) = (r1, c1)" by fastforce
  obtain r2 c2 where 2: "dp_call (wg_stop A) c1 = (r2, c2)" by fastforce
  obtain r3 c3 where 3: "dp_to Error c2 = (r3, c3)" by fastforce
  obtain r4 c4 where 4: "dp_to Disconnected c3 = (r4, c4)" by fastforce
  show ?thesis
    using assms dp_call_eq [OF 1] dp_call_eq [OF 2] dp_to_eq [OF 3] dp_to_eq [OF 4]
    by (auto simp: cleanup_after_failure_def Let_def 1 2 3 4 split: result.splits if_splits)
qed

subsection \<open>Where the controller rests\<close>

definition rests :: "'x DataPlaneController \<Rightarrow> bool" where
  "rests c \<longleftrightarrow>
     dp_state c \<in> {Disconnected, ConnectingPrimary, ConnectedPrimary, DegradedFallback, Reconnecting} \<and>
     (dp_state c \<in> {ConnectedPrimary, DegradedFallback} \<longrightarrow> dp_active_transport c \<noteq> None)"

text \<open>
  All histories of a controller: its operations in any order with any profiles, while the adapters
  may change by themselves between two calls.
\<close>

inductive dp_reach :: "config_lib \<Rightarrow> 'x DataPlaneAdapters \<Rightarrow> 'x DataPlaneController \<Rightarrow> bool" for lib A where
  reach_new: "dp_reach lib A (dp_new x)"
| reach_world: "dp_reach lib A c \<Longrightarrow> dp_reach lib A (c\<lparr>dp_world := x\<rparr>)"
| reach_connect: "dp_reach lib A c \<Longrightarrow> dp_reach lib A (snd (dp_connect lib A p c))"
| reach_sample: "dp_reach lib A c \<Longrightarrow> dp_reach lib A (snd (sample_health A p c))"
| reach_reconnect: "dp_reach lib A c \<Longrightarrow> dp_reach lib A (snd (reconnect_after_network_change A p c))"
| reach_disconnect: "dp_reach lib A c \<Longrightarrow> dp_reach lib A (snd (dp_disconnect A c))"

lemma rests_connect_routes:
  assumes "connect_routes A profile n c = (r, c')" and "dp_state c = ConnectingPrimary"
    and "dp_active_transport c \<noteq> None" and "n = ConnectedPrimary \<or> n = DegradedFallback"
  shows "rests c' \<and> (r = Ok () \<longrightarrow> dp_state c' = n \<and> dp_active_transport c' = dp_active_transport c)"
proof -
  obtain r1 c1 where 1: "dp_call (ra_apply A profile) c = (r1, c1)" by fastforce
  obtain r2 c2 where 2: "cleanup_after_failure A c1 = (r2, c2)" by fastforce
  obtain r3 c3 where 3: "dp_to n c1 = (r3, c3)" by fastforce
  show ?thesis
    using assms dp_call_eq [OF 1] cleanup_after_failure_eq [OF 2] dp_to_eq [OF 3]
    by (auto simp: connect_routes_def rests_def 1 2 3 split: result.splits)
qed

lemma rests_connect_transports:
  assumes "connect_transports A profile c = (r, c')" and "dp_state c = ConnectingPrimary"
  shows "rests c' \<and> (r = Ok () \<longrightarrow> dp_state c' \<in> {ConnectedPrimary, DegradedFallback})"
proof -
  have routes: "rests c' \<and> (r = Ok () \<longrightarrow> dp_state c' \<in> {ConnectedPrimary, DegradedFallback})"
    if "connect_routes A profile n c1 = (r, c')" "dp_state c1 = ConnectingPrimary"
      "dp_active_transport c1 \<noteq> None" "n = ConnectedPrimary \<or> n = DegradedFallback" for n c1
    using rests_connect_routes [OF that] that(4) by auto
  show ?thesis
    using assms(1) unfolding connect_transports_def
  proof (elim case_runE, goal_cases)
    case (1 e c1 e' c2)
    then show ?case
      using assms(2) by (auto simp: rests_def split: if_splits dest!: connect_kind_healthy_eq disconnect_active_eq)
  next
    case (2 e c1 u c2 e' c3 e'' c4)
    then show ?case
      using assms(2) by (auto simp: rests_def split: if_splits
          dest!: connect_kind_healthy_eq disconnect_active_eq connect_first_fallback_eq cleanup_after_failure_eq)
  next
    case (3 e c1 u c2 e' c3 u' c4)
    then show ?case
      using assms(2) by (auto simp: rests_def split: if_splits
          dest!: connect_kind_healthy_eq disconnect_active_eq connect_first_fallback_eq cleanup_after_failure_eq)
  next
    case (4 e c1 u c2 u' c3)
    then have "dp_state c3 = ConnectingPrimary" "dp_active_transport c3 \<noteq> None"
      using assms(2) by (auto split: if_splits
          dest!: connect_kind_healthy_eq disconnect_active_eq connect_first_fallback_eq)
    with 4 routes show ?case by blast
  next
    case (5 u c1)
    then have "dp_state c1 = ConnectingPrimary" "dp_active_transport c1 \<noteq> None"
      using assms(2) by (auto dest!: connect_kind_healthy_eq)
    with 5 routes show ?case by blast
  qed
qed

lemma dp_path_start:
  assumes "dp_path [Authenticating, FetchingConfig, PreparingTunnel] c = (r, c')"
  shows "dp_world c' = dp_world c \<and> dp_active_transport c' = dp_active_transport c \<and>
    (if dp_state c = Disconnected then r = Ok () \<and> dp_state c' = PreparingTunnel
     else r \<noteq> Ok () \<and> (rests c \<longrightarrow> c' = c))"
  using assms
  by (cases "dp_state c") (auto simp: dp_to_def transition_to_def rests_def split: result.splits)

declare dp_path.simps [simp del]

lemma rests_connect:
  assumes "rests c" and "dp_connect lib A profile c = (r, c')"
  shows "rests c' \<and> (r = Ok () \<longrightarrow> dp_state c' \<in> {ConnectedPrimary, DegradedFallback})"
  using assms(2) unfolding dp_connect_def fail_to_disconnected_def
proof (elim case_resultE case_runE, goal_cases)
  case (8 u1 u2 c1 u3 c2 u4 c3)
  then have "dp_state c3 = ConnectingPrimary" by (auto split: if_splits dest!: dp_to_eq)
  with 8 show ?case by (auto dest: rests_connect_transports)
qed (use assms(1) in \<open>auto simp: rests_def split: if_splits dest!: dp_path_start dp_call_eq dp_to_eq\<close>)

lemma rests_fallback_or_cleanup:
  assumes "fallback_or_cleanup A profile c = (r, c')"
    and "dp_state c \<in> {Disconnected, ConnectingPrimary, ConnectedPrimary, DegradedFallback, Reconnecting}"
  shows "rests c'"
  using assms unfolding fallback_or_cleanup_def
  by (elim case_runE)
    (auto simp: rests_def split: if_splits
      dest!: connect_first_fallback_eq cleanup_after_failure_eq dp_to_eq)

lemma rests_switch:
  assumes "rests c" and "dp_active_transport c \<noteq> None" and "switch_after_failure A profile failed c = (r, c')"
  shows "rests c'"
  using assms(3) unfolding switch_after_failure_def
proof (elim case_runE case_ifE, goal_cases)
  case (2 u c1)
  then show ?case
    using assms(1) rests_fallback_or_cleanup [of A profile c1 r c']
    by (auto simp: rests_def dest!: disconnect_active_eq)
next
  case (4 u c1 u' c2 e c3)
  then show ?case
    using assms(1) rests_fallback_or_cleanup [of A profile c3 r c']
    by (auto simp: rests_def split: if_splits dest!: disconnect_active_eq dp_to_eq connect_kind_eq)
qed (use assms(1,2) in \<open>auto simp: rests_def split: if_splits
      dest!: disconnect_active_eq dp_to_eq connect_kind_eq\<close>)

lemma rests_sample:
  assumes "rests c" and "sample_health A profile c = (r, c')"
  shows "rests c'"
  using assms(2) unfolding sample_health_def Let_def
proof (elim case_optionE case_runE case_ifE, goal_cases)
  case (5 k h c1 e c2)
  then show ?case
    using assms(1) rests_switch [of "c1\<lparr>dp_unhealthy_samples := 0\<rparr>" A profile k "Err e" c2]
    by (auto simp: rests_def dest!: dp_call_eq)
next
  case (6 k h c1 u c2)
  then show ?case
    using assms(1) rests_switch [of "c1\<lparr>dp_unhealthy_samples := 0\<rparr>" A profile k "Ok u" c2]
    by (auto simp: rests_def dest!: dp_call_eq)
qed (use assms(1) in \<open>auto simp: rests_def dest!: dp_call_eq\<close>)

lemma rests_reconnect:
  assumes "rests c" and "reconnect_after_network_change A profile c = (r, c')"
  shows "rests c'"
  using assms unfolding reconnect_after_network_change_def
  by (elim case_optionE case_runE)
    (auto simp: rests_def split: if_splits
      dest!: dp_to_eq disconnect_active_eq connect_kind_eq connect_first_fallback_eq)

lemma dp_disconnect_eq:
  assumes "rests c" and "dp_disconnect A c = (r, c')"
  shows "dp_state c' = Disconnected"
proof (cases "dp_state c = Disconnected")
  case False
  then obtain c1 where 1: "dp_to Disconnecting c = (Ok (), c1)" "dp_state c1 = Disconnecting"
    using assms(1) by (auto simp: rests_def dp_to_def transition_to_def)
  obtain r2 c2 where 2: "(case dp_active_transport c1 of None \<Rightarrow> (Ok (), c1)
      | Some active \<Rightarrow> disconnect_active A active c1) = (r2, c2)" by fastforce
  obtain r3 c3 where 3: "dp_call (ra_rollback A) c2 = (r3, c3)" by fastforce
  obtain r4 c4 where 4: "dp_call (wg_stop A) c3 = (r4, c4)" by fastforce
  have "dp_state c4 = Disconnecting"
    using 1(2) 2 dp_call_eq [OF 3] dp_call_eq [OF 4]
    by (auto split: option.splits dest!: disconnect_active_eq)
  then have "dp_to Disconnected c4 = (Ok (), c4\<lparr>dp_state := Disconnected\<rparr>)"
    by (simp add: dp_to_def transition_to_def)
  with assms(2) False show ?thesis by (auto simp: dp_disconnect_def 1 2 3 4)
qed (use assms(2) in \<open>simp add: dp_disconnect_def\<close>)

lemma dp_reach_rests: "dp_reach lib A c \<Longrightarrow> rests c"
proof (induction rule: dp_reach.induct)
  case (reach_connect c p)
  then show ?case using rests_connect [of c lib A p] by (cases "dp_connect lib A p c") simp
next
  case (reach_sample c p)
  then show ?case using rests_sample [of c A p] by (cases "sample_health A p c") simp
next
  case (reach_reconnect c p)
  then show ?case using rests_reconnect [of c A p] by (cases "reconnect_after_network_change A p c") simp
next
  case (reach_disconnect c)
  obtain r c' where d: "dp_disconnect A c = (r, c')" by fastforce
  from dp_disconnect_eq [OF reach_disconnect.IH this] show ?case by (simp add: d rests_def)
qed (simp_all add: rests_def dp_new_def)

text \<open>
  Claim C33. Whatever the adapters answer and however its operations are interleaved, the controller
  rests in one of five states between two calls: disconnected, the two connected states, which always
  have an active transport, and the two states in which a failed attempt can get stuck
  (\<open>ConnectingPrimary\<close>, \<open>Reconnecting\<close>).  From every one of them \<open>disconnect\<close> reaches
  \<open>Disconnected\<close>, so no history blocks the way down.
\<close>

theorem disconnect_is_always_possible:
  assumes "dp_reach lib A c"
  shows "dp_state c \<in> {Disconnected, ConnectingPrimary, ConnectedPrimary, DegradedFallback, Reconnecting} \<and>
    (dp_state c \<in> {ConnectedPrimary, DegradedFallback} \<longrightarrow> dp_active_transport c \<noteq> None) \<and>
    dp_state (snd (dp_disconnect A c)) = Disconnected"
proof -
  obtain r c' where d: "dp_disconnect A c = (r, c')" by fastforce
  from dp_disconnect_eq [OF dp_reach_rests [OF assms] this] dp_reach_rests [OF assms]
  show ?thesis by (simp add: d rests_def)
qed

subsection \<open>What the adapters promise\<close>

text \<open>
  The contract of the adapters, on four observations of their state: is the tunnel up, are the private
  routes installed, which transports are connected, and which calls were made so far, each with whether
  it succeeded.  Every operation touches only its own resource.  A failing stop, apply or rollback
  promises nothing about it.
\<close>

datatype adapter_call =
    CallStart bool | CallStop bool | CallApply bool | CallRollback bool
  | CallLink TransportKind bool | CallUnlink TransportKind bool

text \<open>The calls that take something down, when they fail; and a refusal of the routes.\<close>

fun botched :: "adapter_call \<Rightarrow> bool" where
  "botched (CallStop ok) \<longleftrightarrow> \<not> ok"
| "botched (CallRollback ok) \<longleftrightarrow> \<not> ok"
| "botched (CallUnlink k ok) \<longleftrightarrow> \<not> ok"
| "botched _ \<longleftrightarrow> False"

definition clean_calls :: "adapter_call list \<Rightarrow> bool" where
  "clean_calls cs \<longleftrightarrow> list_all (\<lambda>a. \<not> botched a) cs"

definition routes_refused :: "adapter_call list \<Rightarrow> bool" where
  "routes_refused cs \<longleftrightarrow> CallApply False \<in> set cs"

lemma clean_simps [simp]:
  "clean_calls []" "clean_calls (a # cs) \<longleftrightarrow> \<not> botched a \<and> clean_calls cs"
  "clean_calls (cs @ ds) \<longleftrightarrow> clean_calls cs \<and> clean_calls ds"
  by (auto simp: clean_calls_def)

lemma refused_simps [simp]:
  "\<not> routes_refused []" "routes_refused (a # cs) \<longleftrightarrow> a = CallApply False \<or> routes_refused cs"
  "routes_refused (cs @ ds) \<longleftrightarrow> routes_refused cs \<or> routes_refused ds"
  by (auto simp: routes_refused_def)

locale data_plane_adapters =
  fixes A :: "'x DataPlaneAdapters"
    and tunnel_up :: "'x \<Rightarrow> bool" and routes_up :: "'x \<Rightarrow> bool"
    and links :: "'x \<Rightarrow> TransportKind set"
    and calls :: "'x \<Rightarrow> adapter_call list"
  assumes start_law: "wg_start A cfg x = (r, x') \<Longrightarrow> calls x' = calls x @ [CallStart (is_ok r)] \<and>
      routes_up x' = routes_up x \<and> links x' = links x \<and> tunnel_up x' = (tunnel_up x \<or> is_ok r)"
    and stop_law: "wg_stop A x = (r, x') \<Longrightarrow> calls x' = calls x @ [CallStop (is_ok r)] \<and>
      routes_up x' = routes_up x \<and> links x' = links x \<and> (is_ok r \<longrightarrow> \<not> tunnel_up x')"
    and apply_law: "ra_apply A p x = (r, x') \<Longrightarrow> calls x' = calls x @ [CallApply (is_ok r)] \<and>
      tunnel_up x' = tunnel_up x \<and> links x' = links x \<and> (is_ok r \<longrightarrow> routes_up x')"
    and rollback_law: "ra_rollback A x = (r, x') \<Longrightarrow> calls x' = calls x @ [CallRollback (is_ok r)] \<and>
      tunnel_up x' = tunnel_up x \<and> links x' = links x \<and> (is_ok r \<longrightarrow> \<not> routes_up x')"
    and connect_law: "tr_connect A e x = (r, x') \<Longrightarrow>
      calls x' = calls x @ [CallLink (te_transport e) (is_ok r)] \<and>
      tunnel_up x' = tunnel_up x \<and> routes_up x' = routes_up x \<and>
      links x' = (if is_ok r then insert (te_transport e) (links x) else links x)"
    and disconnect_law: "tr_disconnect A k x = (r, x') \<Longrightarrow> calls x' = calls x @ [CallUnlink k (is_ok r)] \<and>
      tunnel_up x' = tunnel_up x \<and> routes_up x' = routes_up x \<and>
      links x' = (if is_ok r then links x - {k} else links x)"
    and health_law: "tr_health A k x = (h, x') \<Longrightarrow> calls x' = calls x \<and>
      tunnel_up x' = tunnel_up x \<and> routes_up x' = routes_up x \<and> links x' = links x"
begin

definition up :: "'x DataPlaneController \<Rightarrow> bool \<times> bool" where
  "up c = (tunnel_up (dp_world c), routes_up (dp_world c))"

definition tidy :: "'x DataPlaneController \<Rightarrow> bool" where
  "tidy c \<longleftrightarrow> links (dp_world c) = set_option (dp_active_transport c)"

definition made :: "'x DataPlaneController \<Rightarrow> 'x DataPlaneController \<Rightarrow> adapter_call list \<Rightarrow> bool" where
  "made c c' cs \<longleftrightarrow> calls (dp_world c') = calls (dp_world c) @ cs"

lemma made_trans: "made c c1 cs \<Longrightarrow> made c1 c2 ds \<Longrightarrow> made c c2 (cs @ ds)"
  by (simp add: made_def)

lemma connect_kind_view:
  assumes "connect_kind A profile kind c = (r, c')"
  shows "up c' = up c \<and> (\<exists>cs. made c c' cs \<and> clean_calls cs \<and> \<not> routes_refused cs) \<and>
    links (dp_world c') = (if is_ok r then insert kind (links (dp_world c)) else links (dp_world c)) \<and>
    dp_active_transport c' = (if is_ok r then Some kind else dp_active_transport c)"
  using assms unfolding connect_kind_def
proof (elim case_optionE case_runE, goal_cases)
  case 1
  then show ?case by (auto simp: made_def intro!: exI [of _ "[]"])
next
  case (2 endpoint e c1)
  have "te_transport endpoint = kind" using 2(1) by (auto simp: find_Some_iff)
  then show ?case
    using 2(3) dp_call_eq [OF 2(2)] connect_law [of endpoint "dp_world c"]
    by (auto simp: made_def up_def intro!: exI [of _ "[CallLink kind False]"])
next
  case (3 endpoint u c1)
  have "te_transport endpoint = kind" using 3(1) by (auto simp: find_Some_iff)
  then show ?case
    using 3(3) dp_call_eq [OF 3(2)] connect_law [of endpoint "dp_world c"]
    by (auto simp: made_def up_def intro!: exI [of _ "[CallLink kind True]"])
qed

lemma connect_kind_healthy_view:
  assumes "connect_kind_healthy A profile kind c = (r, c')" and "tidy c" and "dp_active_transport c = None"
  shows "up c' = up c \<and> (\<exists>cs. made c c' cs \<and> clean_calls cs \<and> \<not> routes_refused cs) \<and> tidy c' \<and>
    dp_active_transport c' \<in> {None, Some kind} \<and> (is_ok r \<longrightarrow> dp_active_transport c' = Some kind)"
  using assms(1) unfolding connect_kind_healthy_def
proof (elim case_runE, goal_cases)
  case (1 e c1)
  then show ?case using connect_kind_view [OF 1(1)] assms(2,3) by (auto simp: tidy_def)
next
  case (2 u c1 e c2)
  have "tr_health A kind (dp_world c1) = (Err e, dp_world c2)" "dp_active_transport c2 = dp_active_transport c1"
    using dp_call_eq [OF 2(2)] by auto
  then show ?case
    using 2 connect_kind_view [OF 2(1)] assms(2,3) health_law [of kind "dp_world c1"]
    by (auto simp: tidy_def up_def made_def)
next
  case (3 u c1 h c2)
  have "tr_health A kind (dp_world c1) = (Ok h, dp_world c2)" "dp_active_transport c2 = dp_active_transport c1"
    using dp_call_eq [OF 3(2)] by auto
  then show ?case
    using 3 connect_kind_view [OF 3(1)] assms(2,3) health_law [of kind "dp_world c1"]
    by (auto simp: tidy_def up_def made_def)
qed

lemma disconnect_active_view:
  assumes "disconnect_active A kind c = (r, c')"
  shows "up c' = up c \<and> made c c' [CallUnlink kind (is_ok r)] \<and>
    links (dp_world c') = (if is_ok r then links (dp_world c) - {kind} else links (dp_world c)) \<and>
    dp_active_transport c' = (if is_ok r then None else dp_active_transport c)"
proof -
  have "r = Ok () \<longleftrightarrow> is_ok r" by (cases r) auto
  then show ?thesis
    using disconnect_active_eq [OF assms] disconnect_law [of kind "dp_world c" r "dp_world c'"]
    by (simp add: up_def made_def)
qed

lemma fallback_loop_view:
  assumes "fallback_loop A profile kinds c = (r, c')" and "tidy c" and "dp_active_transport c = None"
  shows "up c' = up c \<and> (\<exists>cs. made c c' cs \<and> \<not> routes_refused cs \<and> (is_ok r \<longrightarrow> clean_calls cs) \<and>
    (clean_calls cs \<longrightarrow> tidy c' \<and> (is_ok r \<longleftrightarrow> dp_active_transport c' \<noteq> None)))"
  using assms
proof (induction kinds arbitrary: c)
  case Nil
  then show ?case by (auto simp: made_def)
next
  case (Cons kind kinds)
  obtain r1 c1 where 1: "connect_kind_healthy A profile kind c = (r1, c1)" by fastforce
  note k1 = connect_kind_healthy_view [OF 1 Cons.prems(2,3)]
  then obtain cs where cs: "made c c1 cs" "clean_calls cs" "\<not> routes_refused cs" by blast
  show ?case
  proof (cases "is_ok r1")
    case True
    then have "r = Ok ()" "c' = c1" using Cons.prems(1) by (auto simp: 1 is_ok_iff)
    then show ?thesis using True k1 cs by auto
  next
    case False
    then have loop: "(if dp_active_transport c1 \<noteq> None then case disconnect_active A kind c1 of
           (Err e, c) \<Rightarrow> (Err e, c) | (Ok _, c) \<Rightarrow> fallback_loop A profile kinds c
         else fallback_loop A profile kinds c1) = (r, c')"
      using Cons.prems(1) by (auto simp: 1 not_is_ok_iff)
    show ?thesis
    proof (cases "dp_active_transport c1")
      case None
      then obtain ds where ds: "made c1 c' ds" "\<not> routes_refused ds" "is_ok r \<longrightarrow> clean_calls ds"
        "clean_calls ds \<longrightarrow> tidy c' \<and> (is_ok r \<longleftrightarrow> dp_active_transport c' \<noteq> None)" "up c' = up c1"
        using loop Cons.IH [of c1] k1 by auto
      show ?thesis
        using ds cs k1 made_trans [OF cs(1) ds(1)] by (auto intro!: exI [of _ "cs @ ds"])
    next
      case (Some k)
      then have k: "k = kind" "links (dp_world c1) = {kind}" using k1 by (auto simp: tidy_def)
      obtain r2 c2 where 2: "disconnect_active A kind c1 = (r2, c2)" by fastforce
      note k2 = disconnect_active_view [OF 2]
      have m: "made c c2 (cs @ [CallUnlink kind (is_ok r2)])" using made_trans [OF cs(1)] k2 by blast
      show ?thesis
      proof (cases "is_ok r2")
        case True
        then have c2: "up c2 = up c1" "tidy c2" "dp_active_transport c2 = None"
          using k2 k by (auto simp: tidy_def)
        moreover have "fallback_loop A profile kinds c2 = (r, c')"
          using loop Some True by (auto simp: 2 is_ok_iff)
        ultimately obtain ds where ds: "made c2 c' ds" "\<not> routes_refused ds" "is_ok r \<longrightarrow> clean_calls ds"
          "clean_calls ds \<longrightarrow> tidy c' \<and> (is_ok r \<longleftrightarrow> dp_active_transport c' \<noteq> None)" "up c' = up c2"
          using Cons.IH [of c2] by auto
        show ?thesis
          using ds cs k1 c2 True made_trans [OF m ds(1)]
          by (auto intro!: exI [of _ "(cs @ [CallUnlink kind (is_ok r2)]) @ ds"])
      next
        case False
        then have "\<not> is_ok r" "c' = c2" using loop Some by (auto simp: 2 not_is_ok_iff)
        then show ?thesis
          using False cs k1 k2 m by (auto intro!: exI [of _ "cs @ [CallUnlink kind (is_ok r2)]"])
      qed
    qed
  qed
qed

lemma cleanup_view:
  assumes "cleanup_after_failure A c = (r, c')"
  shows "links (dp_world c') = links (dp_world c) \<and>
    (\<exists>a b. made c c' [CallRollback a, CallStop b] \<and> (a \<and> b \<longrightarrow> up c' = (False, False)))"
proof -
  obtain r1 c1 where 1: "dp_call (ra_rollback A) (c\<lparr>dp_active_transport := None\<rparr>) = (r1, c1)" by fastforce
  obtain r2 c2 where 2: "dp_call (wg_stop A) c1 = (r2, c2)" by fastforce
  have w: "dp_world c' = dp_world c2"
    using assms(1) unfolding cleanup_after_failure_def Let_def
    by (auto simp: 1 2 elim!: case_runE dest!: dp_to_eq)
  have 3: "ra_rollback A (dp_world c) = (r1, dp_world c1)" using dp_call_eq [OF 1] by simp
  have 4: "wg_stop A (dp_world c1) = (r2, dp_world c2)" using dp_call_eq [OF 2] by simp
  show ?thesis
    using rollback_law [OF 3] stop_law [OF 4] by (auto simp: w up_def made_def)
qed

text \<open>
  How a run of \<open>connect\<close> ends: connected, with one transport, the tunnel and the routes; or everything
  down again, apart from the transport that a refusal of the routes leaves behind.
\<close>

definition connected_in :: "NetworkProfile \<Rightarrow> 'x DataPlaneController \<Rightarrow> bool" where
  "connected_in profile c \<longleftrightarrow>
     (\<exists>k. dp_active_transport c = Some k \<and> links (dp_world c) = {k} \<and> up c = (True, True) \<and>
       (dp_state c = ConnectedPrimary \<and> k = tc_primary (pr_transports profile) \<or>
        dp_state c = DegradedFallback \<and> k \<in> set (tc_fallbacks (pr_transports profile))))"

definition ended :: "NetworkProfile \<Rightarrow> unit net_result \<Rightarrow> 'x DataPlaneController \<Rightarrow> adapter_call list \<Rightarrow> bool" where
  "ended profile r c cs \<longleftrightarrow>
     (is_ok r \<longrightarrow> connected_in profile c \<and> clean_calls cs \<and> \<not> routes_refused cs) \<and>
     (\<not> is_ok r \<and> clean_calls cs \<longrightarrow> dp_state c = Disconnected \<and> dp_active_transport c = None \<and>
        up c = (False, False) \<and> (links (dp_world c) = {} \<or> routes_refused cs)) \<and>
     (routes_refused cs \<longrightarrow> \<not> is_ok r \<and> dp_state c = Disconnected \<and> dp_active_transport c = None \<and>
        (\<exists>k. links (dp_world c) = {k} \<and>
           (k = tc_primary (pr_transports profile) \<or> k \<in> set (tc_fallbacks (pr_transports profile)))))"

lemma ended_after:
  "ended profile r c ds \<Longrightarrow> clean_calls cs \<Longrightarrow> \<not> routes_refused cs \<Longrightarrow> ended profile r c (cs @ ds)"
  by (simp add: ended_def)

lemma connect_routes_view:
  assumes "connect_routes A profile n c = (r, c')"
    and "dp_state c = ConnectingPrimary" and "tidy c" and "dp_active_transport c = Some k"
    and "fst (up c)" and "n = ConnectedPrimary \<and> k = tc_primary (pr_transports profile) \<or>
      n = DegradedFallback \<and> k \<in> set (tc_fallbacks (pr_transports profile))"
  shows "\<exists>cs. made c c' cs \<and> ended profile r c' cs"
proof -
  have k: "k = tc_primary (pr_transports profile) \<or> k \<in> set (tc_fallbacks (pr_transports profile))"
    using assms(6) by blast
  have down: "\<exists>cs. made c c2 cs \<and> ended profile (Err e'') c2 cs"
    if 1: "dp_call (ra_apply A profile) c = (Err e, c1)" and 2: "cleanup_after_failure A c1 = (q, c2)"
    for e e'' c1 q c2
  proof -
    note c1 = dp_call_eq [OF 1] and c2 = cleanup_after_failure_eq [OF 2]
    obtain a b where v: "made c1 c2 [CallRollback a, CallStop b]" "a \<and> b \<longrightarrow> up c2 = (False, False)"
      "links (dp_world c2) = links (dp_world c1)"
      using cleanup_view [OF 2] by blast
    have m: "made c c1 [CallApply False]" "links (dp_world c1) = {k}"
      using c1 apply_law [of profile "dp_world c"] assms(3,4) by (auto simp: made_def tidy_def)
    show ?thesis
      using made_trans [OF m(1) v(1)] v(2,3) m(2) c1 c2 assms(2) k
      by (auto simp: ended_def intro!: exI [of _ "[CallApply False] @ [CallRollback a, CallStop b]"])
  qed
  show ?thesis
    using assms(1) unfolding connect_routes_def
  proof (elim case_runE, goal_cases)
    case (1 e c1 e' c2)
    then show ?case using down [OF 1(1,2), of e'] by auto
  next
    case (2 e c1 u c2)
    then show ?case using down [OF 2(1,2), of e] by auto
  next
    case (3 u c1)
    note c = dp_call_eq [OF 3(1)] and t = dp_to_eq [OF 3(2)]
    have "ra_apply A profile (dp_world c) = (Ok u, dp_world c1)" using c by simp
    from apply_law [OF this] have w: "tunnel_up (dp_world c1)" "links (dp_world c1) = {k}" "routes_up (dp_world c1)"
      "calls (dp_world c1) = calls (dp_world c) @ [CallApply True]"
      using assms(3-5) by (auto simp: tidy_def up_def)
    moreover have "can_transition_to ConnectingPrimary n" using assms(6) by auto
    ultimately have "connected_in profile c'" "is_ok r" "made c c' [CallApply True]"
      using c t assms(2,4,6) by (auto simp: connected_in_def up_def made_def)
    then show ?case by (auto simp: ended_def intro!: exI [of _ "[CallApply True]"])
  qed
qed

lemma fallback_tail_view:
  assumes "(case connect_first_fallback A profile c of
        (Ok _, c) \<Rightarrow> connect_routes A profile DegradedFallback c
      | (Err _, c) \<Rightarrow> (case cleanup_after_failure A c of
             (Err e, c) \<Rightarrow> (Err e, c) | (Ok _, c) \<Rightarrow> (Err FallbackTransportUnavailable, c))) = (r, c')"
    and "dp_state c = ConnectingPrimary" and "tidy c" and "dp_active_transport c = None" and "fst (up c)"
  shows "\<exists>cs. made c c' cs \<and> ended profile r c' cs"
proof -
  obtain r1 c1 where 1: "connect_first_fallback A profile c = (r1, c1)" by fastforce
  note s1 = connect_first_fallback_eq [OF 1]
  obtain cs where cs: "made c c1 cs" "\<not> routes_refused cs" "is_ok r1 \<longrightarrow> clean_calls cs" "up c1 = up c"
    "clean_calls cs \<longrightarrow> tidy c1 \<and> (is_ok r1 \<longleftrightarrow> dp_active_transport c1 \<noteq> None)"
    using fallback_loop_view [OF 1 [unfolded connect_first_fallback_def] assms(3,4)] by blast
  show ?thesis
  proof (cases r1)
    case (Ok u)
    then obtain k where k: "dp_active_transport c1 = Some k" "k \<in> set (tc_fallbacks (pr_transports profile))"
      using s1 by auto
    have "connect_routes A profile DegradedFallback c1 = (r, c')" using assms(1) by (simp add: 1 Ok)
    from connect_routes_view [OF this _ _ k(1)] obtain ds where "made c1 c' ds" "ended profile r c' ds"
      using s1 cs k assms(2,5) Ok by auto
    then show ?thesis using made_trans [OF cs(1), of c' ds] ended_after [of profile r c' ds cs] cs(2,3) Ok by auto
  next
    case (Err e)
    then obtain q where 2: "cleanup_after_failure A c1 = (q, c')" and r: "\<not> is_ok r"
      using assms(1) by (auto simp: 1 elim!: case_runE)
    obtain a b where v: "made c1 c' [CallRollback a, CallStop b]" "a \<and> b \<longrightarrow> up c' = (False, False)"
      "links (dp_world c') = links (dp_world c1)"
      using cleanup_view [OF 2] by blast
    have "clean_calls cs \<longrightarrow> links (dp_world c') = {}" using cs(5) v(3) Err by (auto simp: tidy_def)
    then have "ended profile r c' (cs @ [CallRollback a, CallStop b])"
      using cleanup_after_failure_eq [OF 2] s1 assms(2) r v(2) cs(2) by (auto simp: ended_def)
    then show ?thesis using made_trans [OF cs(1) v(1)] by blast
  qed
qed

lemma connect_transports_view:
  assumes "connect_transports A profile c = (r, c')"
    and "dp_state c = ConnectingPrimary" and "tidy c" and "dp_active_transport c = None" and "fst (up c)"
  shows "\<exists>cs. made c c' cs \<and> ended profile r c' cs"
proof -
  let ?p = "tc_primary (pr_transports profile)"
  obtain r1 c1 where 1: "connect_kind_healthy A profile ?p c = (r1, c1)" by fastforce
  note k1 = connect_kind_healthy_view [OF 1 assms(3,4)] and s1 = connect_kind_healthy_eq [OF 1]
  then obtain cs where cs: "made c c1 cs" "clean_calls cs" "\<not> routes_refused cs" by blast
  have after: "\<exists>cs. made c c' cs \<and> ended profile r c' cs"
    if "\<exists>ds. made c1 c' ds \<and> ended profile r c' ds"
    using that cs made_trans ended_after by blast
  show ?thesis
  proof (cases r1)
    case (Ok u)
    then have "connect_routes A profile ConnectedPrimary c1 = (r, c')"
      using assms(1) by (simp add: connect_transports_def 1)
    from connect_routes_view [OF this, of ?p] show ?thesis using Ok k1 s1 assms(2,5) by (intro after) simp
  next
    case (Err e)
    show ?thesis
    proof (cases "dp_active_transport c1")
      case None
      then show ?thesis
        using fallback_tail_view [of profile c1 r c'] assms(1,2,5) Err k1 s1
        by (intro after) (simp add: connect_transports_def 1)
    next
      case (Some k)
      then have k: "links (dp_world c1) = {?p}" using k1 by (auto simp: tidy_def)
      obtain r2 c2 where 2: "disconnect_active A ?p c1 = (r2, c2)" by fastforce
      note k2 = disconnect_active_view [OF 2] and s2 = disconnect_active_eq [OF 2]
      show ?thesis
      proof (cases r2)
        case (Err e')
        then have "c' = c2" "\<not> is_ok r"
          using assms(1) Some \<open>r1 = Err e\<close> by (auto simp: connect_transports_def 1 2)
        then show ?thesis
          using k2 Err by (intro after exI [of _ "[CallUnlink ?p (is_ok r2)]"]) (simp add: ended_def)
      next
        case (Ok v)
        then have c2: "tidy c2" "dp_active_transport c2 = None" "up c2 = up c" "dp_state c2 = ConnectingPrimary"
          using k k1 k2 s1 s2 assms(2) by (auto simp: tidy_def)
        then obtain ds where "made c2 c' ds" "ended profile r c' ds"
          using fallback_tail_view [of profile c2 r c'] assms(1,5) Ok Some \<open>r1 = Err e\<close>
          by (auto simp: connect_transports_def 1 2)
        then show ?thesis
          using k2 Ok made_trans [of c1 c2 "[CallUnlink ?p True]" c' ds]
            ended_after [of profile r c' ds "[CallUnlink ?p True]"]
          by (intro after exI [of _ "[CallUnlink ?p True] @ ds"]) simp
      qed
    qed
  qed
qed

lemma dp_connect_view:
  assumes "dp_connect lib A profile c = (r, c')"
    and "dp_state c = Disconnected" and "dp_active_transport c = None"
    and "up c = (False, False)" and "links (dp_world c) = {}"
  shows "\<exists>cs. made c c' cs \<and> ended profile r c' cs"
  using assms(1) unfolding dp_connect_def
proof (elim case_resultE, goal_cases)
  case (1 e)
  then have "r = Err e" "c' = c" by simp_all
  then show ?case using assms(2-5) by (intro exI [of _ "[]"]) (simp add: ended_def made_def)
next
  case (2 u)
  obtain r1 c1 where 1: "dp_path [Authenticating, FetchingConfig, PreparingTunnel] c = (r1, c1)" by fastforce
  obtain r2 c2 where 2: "dp_call (wg_start A (pr_tunnel profile)) c1 = (r2, c2)" by fastforce
  note k1 = dp_path_start [OF 1] and k2 = dp_call_eq [OF 2]
  have p: "r1 = Ok ()" "dp_state c2 = PreparingTunnel" "dp_active_transport c2 = None"
    "wg_start A (pr_tunnel profile) (dp_world c) = (r2, dp_world c2)"
    using k1 k2 assms(2,3) by auto
  have w: "up c2 = (is_ok r2, False)" "links (dp_world c2) = {}" "made c c2 [CallStart (is_ok r2)]"
    using start_law [OF p(4)] assms(4,5) by (auto simp: up_def made_def)
  show ?case
  proof (cases r2)
    case (Err e)
    have "fail_to_disconnected c2 = (Ok (), c2\<lparr>dp_state := Disconnected\<rparr>)"
      using p(2) by (simp add: fail_to_disconnected_def dp_to_def transition_to_def)
    then have "\<not> is_ok r" "c' = c2\<lparr>dp_state := Disconnected\<rparr>"
      using assms(1) \<open>NetworkProfile_validate lib profile = Ok u\<close> Err p(1)
      by (auto simp: dp_connect_def 1 2)
    then show ?thesis
      using w p Err by (intro exI [of _ "[CallStart (is_ok r2)]"]) (simp add: ended_def made_def up_def)
  next
    case (Ok v)
    let ?c3 = "c2\<lparr>dp_state := ConnectingPrimary\<rparr>"
    have "dp_to ConnectingPrimary c2 = (Ok (), ?c3)" using p(2) by (simp add: dp_to_def transition_to_def)
    then have "connect_transports A profile ?c3 = (r, c')"
      using assms(1) \<open>NetworkProfile_validate lib profile = Ok u\<close> Ok p(1)
      by (auto simp: dp_connect_def 1 2)
    from connect_transports_view [OF this] obtain ds where "made ?c3 c' ds" "ended profile r c' ds"
      using w p Ok by (auto simp: tidy_def up_def)
    then show ?thesis
      using w(3) ended_after [of profile r c' ds "[CallStart (is_ok r2)]"]
      by (intro exI [of _ "[CallStart (is_ok r2)] @ ds"]) (simp add: made_def)
  qed
qed

lemma dp_disconnect_view:
  assumes "dp_disconnect A c = (r, c')" and "rests c" and "dp_state c \<noteq> Disconnected"
  shows "(\<exists>a b d. (is_ok r \<longleftrightarrow> (dp_active_transport c = None \<or> a) \<and> b \<and> d) \<and>
      made c c' ((case dp_active_transport c of None \<Rightarrow> [] | Some k \<Rightarrow> [CallUnlink k a]) @ [CallRollback b, CallStop d])) \<and>
    (is_ok r \<longrightarrow> up c' = (False, False) \<and> dp_active_transport c' = None \<and>
      links (dp_world c') = links (dp_world c) - set_option (dp_active_transport c))"
proof -
  obtain c1 where 1: "dp_to Disconnecting c = (Ok (), c1)" "dp_state c1 = Disconnecting"
    "dp_world c1 = dp_world c" "dp_active_transport c1 = dp_active_transport c"
    using assms(2,3) by (auto simp: rests_def dp_to_def transition_to_def)
  obtain r2 c2 where 2: "(case dp_active_transport c1 of None \<Rightarrow> (Ok (), c1)
      | Some active \<Rightarrow> disconnect_active A active c1) = (r2, c2)" by fastforce
  obtain r3 c3 where 3: "dp_call (ra_rollback A) c2 = (r3, c3)" by fastforce
  obtain r4 c4 where 4: "dp_call (wg_stop A) c3 = (r4, c4)" by fastforce
  have s4: "dp_state c4 = Disconnecting"
    using 1(2) 2 dp_call_eq [OF 3] dp_call_eq [OF 4]
    by (auto split: option.splits dest!: disconnect_active_eq)
  then have "dp_to Disconnected c4 = (Ok (), c4\<lparr>dp_state := Disconnected\<rparr>)"
    by (simp add: dp_to_def transition_to_def)
  then have res: "r = result_and (result_and r2 r3) r4" "c' = c4\<lparr>dp_state := Disconnected\<rparr>"
    using assms(1,3) by (auto simp: dp_disconnect_def 1(1) 2 3 4)
  have ok: "is_ok r \<longleftrightarrow> is_ok r2 \<and> is_ok r3 \<and> is_ok r4"
    unfolding res by (cases r2; cases r3; cases r4) auto
  have "dp_active_transport c = None \<Longrightarrow> is_ok r2" using 2 1(4) by auto
  with ok have all: "is_ok r \<longleftrightarrow> (dp_active_transport c = None \<or> is_ok r2) \<and> is_ok r3 \<and> is_ok r4" by blast
  have w3: "ra_rollback A (dp_world c2) = (r3, dp_world c3)" "dp_active_transport c4 = dp_active_transport c2"
    and w4: "wg_stop A (dp_world c3) = (r4, dp_world c4)"
    using dp_call_eq [OF 3] dp_call_eq [OF 4] by simp_all
  have l2: "made c c2 (case dp_active_transport c of None \<Rightarrow> [] | Some k \<Rightarrow> [CallUnlink k (is_ok r2)]) \<and>
      (is_ok r2 \<longrightarrow> dp_active_transport c2 = None \<and>
        links (dp_world c2) = links (dp_world c) - set_option (dp_active_transport c))"
  proof (cases "dp_active_transport c")
    case None
    then show ?thesis using 2 1(3,4) by (auto simp: made_def)
  next
    case (Some k)
    then have "disconnect_active A k c1 = (r2, c2)" using 2 1(4) by simp
    from disconnect_active_view [OF this] show ?thesis using 1(3) Some by (simp add: made_def)
  qed
  have m: "made c2 c' [CallRollback (is_ok r3), CallStop (is_ok r4)]"
    using rollback_law [OF w3(1)] stop_law [OF w4] by (simp add: res made_def)
  have "made c c' ((case dp_active_transport c of None \<Rightarrow> [] | Some k \<Rightarrow> [CallUnlink k (is_ok r2)]) @
      [CallRollback (is_ok r3), CallStop (is_ok r4)])"
    by (rule made_trans [OF l2 [THEN conjunct1] m])
  moreover have "is_ok r \<longrightarrow> up c' = (False, False) \<and> dp_active_transport c' = None \<and>
      links (dp_world c') = links (dp_world c) - set_option (dp_active_transport c)"
    using l2 rollback_law [OF w3(1)] stop_law [OF w4] w3(2) ok by (auto simp: res up_def)
  ultimately show ?thesis
    using all by (intro conjI exI [of _ "is_ok r2"] exI [of _ "is_ok r3"] exI [of _ "is_ok r4"])
qed

end

subsection \<open>The adapters of the tests\<close>

record FakeAdapters =
  fa_events :: "string list"
  fa_fail_start :: bool
  fa_fail_connect :: "TransportKind list"
  fa_health :: "TransportHealth list"
  fa_fail_apply :: bool
  fa_fail_rollback :: bool

fun kind_debug :: "TransportKind \<Rightarrow> string" where
  "kind_debug Quic = ''Quic''" | "kind_debug Wss = ''Wss''" | "kind_debug Tcp = ''Tcp''"

definition fa_push :: "string \<Rightarrow> FakeAdapters \<Rightarrow> FakeAdapters" where
  "fa_push event f = f\<lparr>fa_events := fa_events f @ [event]\<rparr>"

definition FakeWireGuard_start :: "TunnelConfig \<Rightarrow> FakeAdapters \<Rightarrow> unit net_result \<times> FakeAdapters" where
  "FakeWireGuard_start config f =
     (if fa_fail_start f then Err TunnelStartFailed else Ok (), fa_push ''wireguard:start'' f)"

definition FakeWireGuard_stop :: "FakeAdapters \<Rightarrow> unit net_result \<times> FakeAdapters" where
  "FakeWireGuard_stop f = (Ok (), fa_push ''wireguard:stop'' f)"

definition FakeRoutes_apply :: "NetworkProfile \<Rightarrow> FakeAdapters \<Rightarrow> unit net_result \<times> FakeAdapters" where
  "FakeRoutes_apply profile f =
     (if fa_fail_apply f then Err RouteConflict else Ok (), fa_push ''routes:apply'' f)"

definition FakeRoutes_rollback :: "FakeAdapters \<Rightarrow> unit net_result \<times> FakeAdapters" where
  "FakeRoutes_rollback f =
     (if fa_fail_rollback f then Err RouteRollbackFailed else Ok (), fa_push ''routes:rollback'' f)"

definition FakeTransport_connect ::
  "TransportEndpoint \<Rightarrow> FakeAdapters \<Rightarrow> unit net_result \<times> FakeAdapters" where
  "FakeTransport_connect endpoint f =
     (if te_transport endpoint \<in> set (fa_fail_connect f) then Err PrimaryTransportUnavailable else Ok (),
      fa_push (''connect:'' @ kind_debug (te_transport endpoint)) f)"

definition FakeTransport_disconnect ::
  "TransportKind \<Rightarrow> FakeAdapters \<Rightarrow> unit net_result \<times> FakeAdapters" where
  "FakeTransport_disconnect transport f = (Ok (), fa_push (''disconnect:'' @ kind_debug transport) f)"

definition FakeTransport_health ::
  "TransportKind \<Rightarrow> FakeAdapters \<Rightarrow> TransportHealth net_result \<times> FakeAdapters" where
  "FakeTransport_health transport f =
     (case fa_health f of
        h # hs \<Rightarrow> (Ok h, f\<lparr>fa_health := hs\<rparr>)
      | [] \<Rightarrow> (Ok \<lparr>th_reachable = True, th_latency_ms = 1, th_jitter_ms = 0, th_packet_loss_percent = 0\<rparr>, f))"

definition FakeAdapters_impl :: "FakeAdapters DataPlaneAdapters" where
  "FakeAdapters_impl =
     \<lparr>wg_start = FakeWireGuard_start, wg_stop = FakeWireGuard_stop, ra_apply = FakeRoutes_apply,
      ra_rollback = FakeRoutes_rollback, tr_connect = FakeTransport_connect,
      tr_disconnect = FakeTransport_disconnect, tr_health = FakeTransport_health\<rparr>"

text \<open>What is up is read off the event log: the last event that switches it.\<close>

definition switched :: "string \<Rightarrow> string \<Rightarrow> string list \<Rightarrow> bool" where
  "switched on off events = foldl (\<lambda>b e. if e = on then True else if e = off then False else b) False events"

definition fake_tunnel_up :: "FakeAdapters \<Rightarrow> bool" where
  "fake_tunnel_up f \<longleftrightarrow> \<not> fa_fail_start f \<and> switched ''wireguard:start'' ''wireguard:stop'' (fa_events f)"

definition fake_routes_up :: "FakeAdapters \<Rightarrow> bool" where
  "fake_routes_up f \<longleftrightarrow> switched ''routes:apply'' ''routes:rollback'' (fa_events f)"

definition fake_links :: "FakeAdapters \<Rightarrow> TransportKind set" where
  "fake_links f = {k. k \<notin> set (fa_fail_connect f) \<and>
     switched (''connect:'' @ kind_debug k) (''disconnect:'' @ kind_debug k) (fa_events f)}"

lemma switched_snoc [simp]:
  "switched on off (es @ [e]) = (if e = on then True else if e = off then False else switched on off es)"
  by (simp add: switched_def)

lemma kind_debug_inject [simp]: "kind_debug a = kind_debug b \<longleftrightarrow> a = b"
  by (cases a; cases b) simp_all

text \<open>
  The log holds the calls in their order; whether a call succeeded is fixed by the switches of the fake,
  which no call changes.
\<close>

definition fake_call :: "FakeAdapters \<Rightarrow> string \<Rightarrow> adapter_call" where
  "fake_call f e =
     (if e = ''wireguard:start'' then CallStart (\<not> fa_fail_start f)
      else if e = ''wireguard:stop'' then CallStop True
      else if e = ''routes:apply'' then CallApply (\<not> fa_fail_apply f)
      else if e = ''routes:rollback'' then CallRollback (\<not> fa_fail_rollback f)
      else if e = ''connect:Quic'' then CallLink Quic (Quic \<notin> set (fa_fail_connect f))
      else if e = ''connect:Wss'' then CallLink Wss (Wss \<notin> set (fa_fail_connect f))
      else if e = ''connect:Tcp'' then CallLink Tcp (Tcp \<notin> set (fa_fail_connect f))
      else if e = ''disconnect:Quic'' then CallUnlink Quic True
      else if e = ''disconnect:Wss'' then CallUnlink Wss True
      else CallUnlink Tcp True)"

definition fake_calls :: "FakeAdapters \<Rightarrow> adapter_call list" where
  "fake_calls f = map (fake_call f) (fa_events f)"

lemma fake_call_transport [simp]:
  "fake_call f (CHR ''c'' # CHR ''o'' # CHR ''n'' # CHR ''n'' # CHR ''e'' # CHR ''c'' # CHR ''t'' # CHR '':'' # kind_debug k) =
     CallLink k (k \<notin> set (fa_fail_connect f))"
  "fake_call f (CHR ''d'' # CHR ''i'' # CHR ''s'' # CHR ''c'' # CHR ''o'' # CHR ''n'' # CHR ''n'' # CHR ''e'' # CHR ''c'' #
     CHR ''t'' # CHR '':'' # kind_debug k) = CallUnlink k True"
  by (cases k; simp add: fake_call_def)+

lemma fake_call_switches:
  "fa_fail_start f = fa_fail_start g \<Longrightarrow> fa_fail_apply f = fa_fail_apply g \<Longrightarrow>
   fa_fail_rollback f = fa_fail_rollback g \<Longrightarrow> fa_fail_connect f = fa_fail_connect g \<Longrightarrow>
     fake_call f = fake_call g"
  by (rule ext) (simp add: fake_call_def)

lemma fake_calls_push [simp]: "fake_calls (fa_push e f) = fake_calls f @ [fake_call f e]"
proof -
  have "fake_call (fa_push e f) = fake_call f" by (rule fake_call_switches) (simp_all add: fa_push_def)
  then show ?thesis by (simp add: fake_calls_def) (simp add: fa_push_def)
qed

lemma fake_calls_health [simp]: "fake_calls (f\<lparr>fa_health := hs\<rparr>) = fake_calls f"
proof -
  have "fake_call (f\<lparr>fa_health := hs\<rparr>) = fake_call f" by (rule fake_call_switches) simp_all
  then show ?thesis by (simp add: fake_calls_def)
qed

lemma fake_events [simp]:
  "fa_events (fa_push e f) = fa_events f @ [e]" "fa_fail_start (fa_push e f) = fa_fail_start f"
  "fa_fail_connect (fa_push e f) = fa_fail_connect f"
  by (simp_all add: fa_push_def)

lemmas fake_simps = FakeAdapters_impl_def fake_tunnel_up_def fake_routes_up_def fake_links_def

interpretation fake: data_plane_adapters FakeAdapters_impl fake_tunnel_up fake_routes_up fake_links fake_calls
proof (unfold_locales, goal_cases)
  case (1 cfg x r x')
  then show ?case by (auto simp: fake_simps FakeWireGuard_start_def fake_call_def)
next
  case (2 x r x')
  then show ?case by (auto simp: fake_simps FakeWireGuard_stop_def fake_call_def)
next
  case (3 p x r x')
  then show ?case by (auto simp: fake_simps FakeRoutes_apply_def fake_call_def)
next
  case (4 x r x')
  then show ?case by (auto simp: fake_simps FakeRoutes_rollback_def fake_call_def split: if_splits)
next
  case (5 e x r x')
  then show ?case by (auto simp: fake_simps FakeTransport_connect_def split: if_splits)
next
  case (6 k x r x')
  then show ?case by (auto simp: fake_simps FakeTransport_disconnect_def split: if_splits)
next
  case (7 k x h x')
  then show ?case by (auto simp: fake_simps FakeTransport_health_def split: list.splits)
qed

subsection \<open>Properties\<close>

text \<open>
  Claim C31. For all adapters that keep the contract, \<open>connect\<close> from \<open>Disconnected\<close> with nothing up is all
  or nothing.  On success the tunnel and the routes are up and exactly one transport is connected, the
  primary one in \<open>ConnectedPrimary\<close> and a configured fallback in \<open>DegradedFallback\<close>.  On an error, if none of
  the calls of this run that take something down (disconnect, rollback, stop) failed, the controller is
  \<open>Disconnected\<close> without an active transport, the tunnel and the routes are down, and no transport is left
  connected unless a call of this run that applies the routes was refused.
\<close>

theorem connect_all_or_nothing:
  assumes L: "data_plane_adapters A tunnel_up routes_up links calls"
    and c: "dp_state c = Disconnected" "dp_active_transport c = None"
    and down: "\<not> tunnel_up (dp_world c)" "\<not> routes_up (dp_world c)" "links (dp_world c) = {}"
    and run: "dp_connect lib A profile c = (r, c')"
  shows "\<exists>new. calls (dp_world c') = calls (dp_world c) @ new \<and>
    (if is_ok r
     then tunnel_up (dp_world c') \<and> routes_up (dp_world c') \<and>
       (\<exists>k. dp_active_transport c' = Some k \<and> links (dp_world c') = {k} \<and>
         (dp_state c' = ConnectedPrimary \<and> k = tc_primary (pr_transports profile) \<or>
          dp_state c' = DegradedFallback \<and> k \<in> set (tc_fallbacks (pr_transports profile))))
     else list_all (\<lambda>a. \<not> botched a) new \<longrightarrow>
       dp_state c' = Disconnected \<and> dp_active_transport c' = None \<and>
       \<not> tunnel_up (dp_world c') \<and> \<not> routes_up (dp_world c') \<and>
       (links (dp_world c') = {} \<or> CallApply False \<in> set new))"
proof -
  have "data_plane_adapters.up tunnel_up routes_up c = (False, False)"
    using down by (simp add: data_plane_adapters.up_def [OF L])
  from data_plane_adapters.dp_connect_view [OF L run c this down(3)]
  obtain new where "data_plane_adapters.made calls c c' new"
    "data_plane_adapters.ended tunnel_up routes_up links profile r c' new" by blast
  then show ?thesis
    unfolding data_plane_adapters.made_def [OF L] data_plane_adapters.ended_def [OF L]
      data_plane_adapters.up_def [OF L] data_plane_adapters.connected_in_def [OF L]
      clean_calls_def routes_refused_def
    by (intro exI [of _ new]) (cases "is_ok r"; simp; blast)
qed

text \<open>
  Claim C34. When the routes are refused, \<open>connect\<close> forgets the transport it has just connected.  For all
  adapters that keep the contract and every profile: if a run of \<open>connect\<close> from \<open>Disconnected\<close> with nothing
  up makes a call that applies the routes and is refused, then it reports an error and ends in
  \<open>Disconnected\<close> without an active transport, exactly one transport of the profile is still connected, and
  a following \<open>disconnect\<close> reports success and does nothing about it.
\<close>

theorem refused_routes_leave_transport_connected:
  assumes L: "data_plane_adapters A tunnel_up routes_up links calls"
    and c: "dp_state c = Disconnected" "dp_active_transport c = None"
    and down: "\<not> tunnel_up (dp_world c)" "\<not> routes_up (dp_world c)" "links (dp_world c) = {}"
    and run: "dp_connect lib A profile c = (r, c')"
    and new: "calls (dp_world c') = calls (dp_world c) @ new" "CallApply False \<in> set new"
  shows "\<not> is_ok r \<and> dp_state c' = Disconnected \<and> dp_active_transport c' = None \<and>
    (\<exists>k. links (dp_world c') = {k} \<and>
       (k = tc_primary (pr_transports profile) \<or> k \<in> set (tc_fallbacks (pr_transports profile)))) \<and>
    dp_disconnect A c' = (Ok (), c')"
proof -
  have "data_plane_adapters.up tunnel_up routes_up c = (False, False)"
    using down by (simp add: data_plane_adapters.up_def [OF L])
  from data_plane_adapters.dp_connect_view [OF L run c this down(3)]
  obtain cs where "data_plane_adapters.made calls c c' cs"
    "data_plane_adapters.ended tunnel_up routes_up links profile r c' cs" by blast
  moreover from this(1) have "cs = new" using new(1) by (simp add: data_plane_adapters.made_def [OF L])
  ultimately show ?thesis
    using new(2) by (simp add: data_plane_adapters.ended_def [OF L] routes_refused_def dp_disconnect_def)
qed


subsection \<open>Witnesses\<close>

definition fresh_fake :: FakeAdapters where
  "fresh_fake = \<lparr>fa_events = [], fa_fail_start = False, fa_fail_connect = [Quic], fa_health = [],
     fa_fail_apply = False, fa_fail_rollback = False\<rparr>"

lemma fresh_fake_down:
  "\<not> fake_tunnel_up fresh_fake" "\<not> fake_routes_up fresh_fake" "fake_links fresh_fake = {}"
  by (simp_all add: fresh_fake_def fake_simps switched_def)

theorem connect_all_or_nothing_witness:
  "let (r, c) = dp_connect sample_lib FakeAdapters_impl sample_profile_v1 (dp_new fresh_fake)
   in is_ok r \<and> dp_state c = DegradedFallback \<and> fake_tunnel_up (dp_world c) \<and> fake_routes_up (dp_world c)"
proof -
  obtain r c where run: "dp_connect sample_lib FakeAdapters_impl sample_profile_v1 (dp_new fresh_fake) = (r, c)"
    by fastforce
  have "is_ok (fst (dp_connect sample_lib FakeAdapters_impl sample_profile_v1 (dp_new fresh_fake)))"
    "dp_state (snd (dp_connect sample_lib FakeAdapters_impl sample_profile_v1 (dp_new fresh_fake))) = DegradedFallback"
    by code_simp+
  then have "is_ok r" "dp_state c = DegradedFallback" by (simp_all add: run)
  moreover have "fake_tunnel_up (dp_world c) \<and> fake_routes_up (dp_world c)"
    using connect_all_or_nothing [OF fake.data_plane_adapters_axioms _ _ _ _ _ run] \<open>is_ok r\<close> fresh_fake_down
    by (simp add: dp_new_def)
  ultimately show ?thesis by (simp add: run)
qed

text \<open>A refused application: the primary transport stays connected.\<close>

theorem refused_routes_leave_transport_connected_witness:
  "let (r, c) = dp_connect sample_lib FakeAdapters_impl sample_profile_v1
         (dp_new (fresh_fake\<lparr>fa_fail_apply := True\<rparr>))
   in r = Err RouteConflict \<and> dp_active_transport c = None \<and> (\<exists>k. fake_links (dp_world c) = {k}) \<and>
      dp_disconnect FakeAdapters_impl c = (Ok (), c)"
proof -
  let ?f = "fresh_fake\<lparr>fa_fail_apply := True\<rparr>"
  let ?run = "dp_connect sample_lib FakeAdapters_impl sample_profile_v1 (dp_new ?f)"
  obtain r c where run: "?run = (r, c)" by fastforce
  have "fst ?run = Err RouteConflict" "CallApply False \<in> set (fake_calls (dp_world (snd ?run)))" by code_simp+
  then have e: "r = Err RouteConflict" "CallApply False \<in> set (fake_calls (dp_world c))" by (simp_all add: run)
  have "\<not> fake_tunnel_up ?f" "\<not> fake_routes_up ?f" "fake_links ?f = {}" "fake_calls ?f = []"
    by (simp_all add: fresh_fake_def fake_simps switched_def fake_calls_def)
  with refused_routes_leave_transport_connected [OF fake.data_plane_adapters_axioms _ _ _ _ _ run _ e(2)]
  show ?thesis unfolding run using e(1) by (auto simp: dp_new_def)
qed


theorem disconnect_is_always_possible_witness:
  "dp_state (snd (dp_disconnect FakeAdapters_impl
     (snd (dp_connect sample_lib FakeAdapters_impl sample_profile_v1 (dp_new fresh_fake))))) = Disconnected"
  using disconnect_is_always_possible [OF reach_connect [OF reach_new], of sample_lib FakeAdapters_impl]
  by blast

end
