(* ===== verification/Ipc.thy ===== *)
theory Ipc
  imports Net_Config
begin

section \<open>The sidecar protocol\<close>

text \<open>
  \<open>networking/ipc.rs\<close>: requests, responses and their validation, with the
  interface name check of \<open>route_helper.rs\<close> they call; and the sidecar and
  control plane of \<open>mock.rs\<close> and \<open>mock_control.rs\<close>, which speak the protocol.
\<close>

subsection \<open>Identifiers and interface names\<close>

definition valid_ipc_id :: "string \<Rightarrow> bool" where
  "valid_ipc_id s \<longleftrightarrow>
     8 \<le> length s \<and> length s \<le> 64 \<and>
     (s = [] \<or> hd s \<noteq> CHR ''.'') \<and> (s = [] \<or> last s \<noteq> CHR ''.'') \<and>
     \<not> list_ex (\<lambda>(a, b). a = CHR ''.'' \<and> b = CHR ''.'') (windows2 s) \<and>
     list_all (\<lambda>c. is_ascii_alphanumeric c \<or> c \<in> set ''-_.'') s"

definition valid_utun_interface :: "string \<Rightarrow> bool" where
  "valid_utun_interface s \<longleftrightarrow>
     5 \<le> length s \<and> length s \<le> 15 \<and> starts_with s ''utun'' \<and>
     (length s = 5 \<or> s ! 4 \<noteq> CHR ''0'') \<and> list_all is_ascii_digit (drop 4 s)"

definition valid_profile_id :: "string \<Rightarrow> bool" where
  "valid_profile_id s \<longleftrightarrow>
     s \<noteq> [] \<and> length s \<le> 128 \<and>
     list_all (\<lambda>(i, c). is_ascii_alphanumeric c \<or> (0 < i \<and> c \<in> set ''._:-'')) (enumerate 0 s)"

subsection \<open>Messages\<close>

definition NETWORK_IPC_PROTOCOL_VERSION :: u8 where "NETWORK_IPC_PROTOCOL_VERSION = 2"

datatype IpcRequestPayload =
    GetStatus
  | ApplyProfile NetworkProfile
  | PrepareTunnel
  | StopTunnel
  | ConnectTransport TransportKind
  | DisconnectTransport
  | SampleHealth
  | SamplePrivateReachability
  | Connect
  | Disconnect
  | Cancel string

record IpcRequest =
  rq_protocol_version :: u8
  rq_request_id :: string
  rq_payload :: IpcRequestPayload

record TunnelDeviceFacts =
  tf_interface_name :: string
  tf_mtu :: u16
  tf_has_ipv4 :: bool
  tf_has_ipv6 :: bool
  tf_instance_id :: string
  tf_operation_id :: string

record NetworkHealth =
  nh_reachable :: bool
  nh_latency_ms :: u32
  nh_jitter_ms :: u32
  nh_loss_percent :: u8

record PrivateReachability =
  pv_reachable :: bool
  pv_latency_ms :: u32
  pv_mihomo_coexisting :: "bool option"
  pv_overlay_ssh_verified :: "bool option"
  pv_system_ssh_verified :: "bool option"

record IpcError =
  ie_code :: NetworkErrorCode
  ie_message :: string
  ie_retryable :: bool

record NetworkStatus =
  ns_state :: NetworkState
  ns_active_profile_id :: "string option"
  ns_active_transport :: "TransportKind option"
  ns_last_error :: "NetworkErrorCode option"

datatype IpcResponsePayload =
    Acknowledged
  | CancelAccepted string
  | Status NetworkStatus
  | Health NetworkHealth
  | PrivateReachabilityResponse PrivateReachability
  | TunnelPrepared TunnelDeviceFacts

record IpcResponse =
  rp_protocol_version :: u8
  rp_request_id :: string
  rp_result :: "(IpcError, IpcResponsePayload) result"

subsection \<open>Validation\<close>

definition TunnelDeviceFacts_validate_owner ::
  "string \<Rightarrow> string \<Rightarrow> TunnelDeviceFacts \<Rightarrow> unit net_result" where
  "TunnelDeviceFacts_validate_owner instance_id operation_id f =
     (if tf_mtu f \<noteq> 1420 \<or> tf_instance_id f \<noteq> instance_id \<or> tf_operation_id f \<noteq> operation_id
      then Err AuthenticationFailed else Ok ())"

definition TunnelDeviceFacts_validate ::
  "string \<Rightarrow> string \<Rightarrow> TunnelDeviceFacts \<Rightarrow> unit net_result" where
  "TunnelDeviceFacts_validate instance_id operation_id f =
     (case TunnelDeviceFacts_validate_owner instance_id operation_id f of
        Err e \<Rightarrow> Err e
      | Ok _ \<Rightarrow> if \<not> valid_utun_interface (tf_interface_name f) then Err AuthenticationFailed else Ok ())"

definition validate_sidecar_response ::
  "string \<Rightarrow> string \<Rightarrow> TunnelDeviceFacts \<Rightarrow> unit net_result" where
  "validate_sidecar_response instance_id operation_id f =
     (case TunnelDeviceFacts_validate_owner instance_id operation_id f of
        Err e \<Rightarrow> Err e
      | Ok _ \<Rightarrow>
          if tf_interface_name f \<noteq> ''userspace'' \<and> \<not> valid_utun_interface (tf_interface_name f)
          then Err AuthenticationFailed else Ok ())"

definition NetworkHealth_validate :: "NetworkHealth \<Rightarrow> unit net_result" where
  "NetworkHealth_validate h = (if nh_loss_percent h \<le> 100 then Ok () else Err InvalidConfiguration)"

definition IpcRequest_validate_protocol :: "IpcRequest \<Rightarrow> unit net_result" where
  "IpcRequest_validate_protocol r =
     (if rq_protocol_version r \<noteq> NETWORK_IPC_PROTOCOL_VERSION then Err UnsupportedProtocolVersion
      else if \<not> valid_ipc_id (rq_request_id r) then Err InvalidConfiguration
      else case rq_payload r of
        Cancel target \<Rightarrow>
          if \<not> valid_ipc_id target \<or> target = rq_request_id r then Err InvalidConfiguration else Ok ()
      | _ \<Rightarrow> Ok ())"

definition require_status ::
  "NetworkStatus \<Rightarrow> NetworkState \<Rightarrow> TransportKind option \<Rightarrow> unit net_result" where
  "require_status s expected_state expected_transport =
     (if ns_state s = expected_state \<and> ns_active_transport s = expected_transport \<and>
         ns_last_error s = None
      then Ok () else Err InvalidConfiguration)"

definition validate_network_status :: "NetworkStatus \<Rightarrow> unit net_result" where
  "validate_network_status s =
     (if (case ns_active_profile_id s of None \<Rightarrow> False | Some i \<Rightarrow> \<not> valid_profile_id i)
      then Err InvalidConfiguration
      else let valid_state = (case ns_state s of
             Disconnected \<Rightarrow> ns_active_transport s = None
           | PreparingTunnel \<Rightarrow> ns_active_profile_id s \<noteq> None \<and> ns_active_transport s = None
           | ConnectedPrimary \<Rightarrow>
               ns_active_profile_id s \<noteq> None \<and> ns_active_transport s = Some Quic
           | DegradedFallback \<Rightarrow>
               ns_active_profile_id s \<noteq> None \<and> ns_active_transport s \<in> {Some Wss, Some Tcp}
           | _ \<Rightarrow> False)
      in if valid_state then Ok () else Err InvalidConfiguration)"

definition validate_ipc_error :: "IpcError \<Rightarrow> unit net_result" where
  "validate_ipc_error e =
     (if ie_message e = [] \<or> 512 < length (ie_message e) \<or>
         list_ex is_control (utf8_chars (ie_message e))
      then Err InvalidConfiguration else Ok ())"

definition validate_response_payload :: "IpcRequest \<Rightarrow> IpcResponsePayload \<Rightarrow> unit net_result" where
  "validate_response_payload request response =
     (case (rq_payload request, response) of
        (GetStatus, Status s) \<Rightarrow> validate_network_status s
      | (Connect, Status s) \<Rightarrow>
          and_then (validate_network_status s)
            (\<lambda>_. require_status s ConnectedPrimary (Some Quic))
      | (StopTunnel, Status s) \<Rightarrow>
          and_then (validate_network_status s) (\<lambda>_. require_status s Disconnected None)
      | (ConnectTransport t, Status s) \<Rightarrow>
          and_then (validate_network_status s)
            (\<lambda>_. require_status s (if t = Quic then ConnectedPrimary else DegradedFallback) (Some t))
      | (DisconnectTransport, Status s) \<Rightarrow>
          and_then (validate_network_status s) (\<lambda>_. require_status s PreparingTunnel None)
      | (ApplyProfile _, Acknowledged) \<Rightarrow> Ok ()
      | (Disconnect, Acknowledged) \<Rightarrow> Ok ()
      | (Cancel target, CancelAccepted accepted) \<Rightarrow>
          if valid_ipc_id target \<and> target \<noteq> rq_request_id request \<and> accepted = target
          then Ok () else Err InvalidConfiguration
      | (PrepareTunnel, TunnelPrepared f) \<Rightarrow>
          and_then (map_err (\<lambda>_. InvalidConfiguration)
              (validate_sidecar_response (tf_instance_id f) (rq_request_id request) f))
            (\<lambda>_. if \<not> valid_ipc_id (tf_instance_id f) \<or> (\<not> tf_has_ipv4 f \<and> \<not> tf_has_ipv6 f)
                  then Err InvalidConfiguration else Ok ())
      | (SampleHealth, Health h) \<Rightarrow> NetworkHealth_validate h
      | (SamplePrivateReachability, PrivateReachabilityResponse _) \<Rightarrow> Ok ()
      | _ \<Rightarrow> Err InvalidConfiguration)"

definition IpcResponse_validate_protocol :: "IpcRequest \<Rightarrow> IpcResponse \<Rightarrow> unit net_result" where
  "IpcResponse_validate_protocol request r =
     (case IpcRequest_validate_protocol request of
        Err e \<Rightarrow> Err e
      | Ok _ \<Rightarrow>
          if rp_protocol_version r \<noteq> NETWORK_IPC_PROTOCOL_VERSION
          then Err UnsupportedProtocolVersion
          else if \<not> valid_ipc_id (rp_request_id r) \<or> rp_request_id r \<noteq> rq_request_id request
          then Err AuthenticationFailed
          else case rp_result r of
            Ok payload \<Rightarrow> validate_response_payload request payload
          | Err e \<Rightarrow> validate_ipc_error e)"

subsection \<open>The sidecar and control plane in memory\<close>

record MockNetworkSidecar =
  mk_profile :: "NetworkProfile option"
  mk_state :: NetworkState
  mk_next_connect_error :: "NetworkErrorCode option"

definition mock_default :: MockNetworkSidecar where
  "mock_default = \<lparr>mk_profile = None, mk_state = Disconnected, mk_next_connect_error = None\<rparr>"

definition fail_next_connect_with :: "NetworkErrorCode \<Rightarrow> MockNetworkSidecar \<Rightarrow> MockNetworkSidecar" where
  "fail_next_connect_with e m = m\<lparr>mk_next_connect_error := Some e\<rparr>"

definition mock_status :: "MockNetworkSidecar \<Rightarrow> NetworkStatus" where
  "mock_status m =
     \<lparr>ns_state = mk_state m, ns_active_profile_id = map_option pr_profile_id (mk_profile m),
      ns_active_transport = (if mk_state m = ConnectedPrimary then Some Quic else None),
      ns_last_error = None\<rparr>"

fun mock_transitions :: "NetworkState list \<Rightarrow> MockNetworkSidecar \<Rightarrow> unit net_result \<times> MockNetworkSidecar" where
  "mock_transitions [] m = (Ok (), m)"
| "mock_transitions (n # ns) m =
     (case transition_to (mk_state m) n of
        (Err e, s) \<Rightarrow> (Err e, m\<lparr>mk_state := s\<rparr>)
      | (Ok _, s) \<Rightarrow> mock_transitions ns (m\<lparr>mk_state := s\<rparr>))"

definition handle_payload ::
  "config_lib \<Rightarrow> IpcRequestPayload \<Rightarrow> MockNetworkSidecar \<Rightarrow>
     IpcResponsePayload net_result \<times> MockNetworkSidecar" where
  "handle_payload lib payload m =
     (case payload of
        GetStatus \<Rightarrow> (Ok (Status (mock_status m)), m)
      | ApplyProfile p \<Rightarrow>
          (case NetworkProfile_validate lib p of
             Err e \<Rightarrow> (Err e, m)
           | Ok _ \<Rightarrow>
               if mk_state m \<noteq> Disconnected then (Err InvalidStateTransition, m)
               else (Ok Acknowledged, m\<lparr>mk_profile := Some p\<rparr>))
      | Connect \<Rightarrow>
          (case mk_next_connect_error m of
             Some e \<Rightarrow> (Err e, m\<lparr>mk_next_connect_error := None\<rparr>)
           | None \<Rightarrow>
               if mk_profile m = None then (Err InvalidConfiguration, m)
               else (case mock_transitions [Authenticating, FetchingConfig, PreparingTunnel,
                            ConnectingPrimary, ConnectedPrimary] m of
                       (Err e, m) \<Rightarrow> (Err e, m)
                     | (Ok _, m) \<Rightarrow> (Ok (Status (mock_status m)), m)))
      | Disconnect \<Rightarrow>
          (case mock_transitions [Disconnecting, Disconnected] m of
             (Err e, m) \<Rightarrow> (Err e, m)
           | (Ok _, m) \<Rightarrow> (Ok Acknowledged, m))
      | Cancel _ \<Rightarrow> (Err InvalidStateTransition, m)
      | _ \<Rightarrow> (Err SidecarUnavailable, m))"

text \<open>The derived \<open>Debug\<close> of the error codes.\<close>

fun error_code_debug :: "NetworkErrorCode \<Rightarrow> string" where
  "error_code_debug UnsupportedSchemaVersion = ''UnsupportedSchemaVersion''"
| "error_code_debug UnsupportedProtocolVersion = ''UnsupportedProtocolVersion''"
| "error_code_debug InvalidConfiguration = ''InvalidConfiguration''"
| "error_code_debug AuthenticationFailed = ''AuthenticationFailed''"
| "error_code_debug PermissionDenied = ''PermissionDenied''"
| "error_code_debug PolicySignatureInvalid = ''PolicySignatureInvalid''"
| "error_code_debug RouteDiscoveryFailed = ''RouteDiscoveryFailed''"
| "error_code_debug RouteConflict = ''RouteConflict''"
| "error_code_debug RouteJournalCorrupted = ''RouteJournalCorrupted''"
| "error_code_debug RouteJournalUnavailable = ''RouteJournalUnavailable''"
| "error_code_debug RouteRollbackFailed = ''RouteRollbackFailed''"
| "error_code_debug TunnelStartFailed = ''TunnelStartFailed''"
| "error_code_debug PrimaryTransportUnavailable = ''PrimaryTransportUnavailable''"
| "error_code_debug FallbackTransportUnavailable = ''FallbackTransportUnavailable''"
| "error_code_debug OperationCancelled = ''OperationCancelled''"
| "error_code_debug OperationTimedOut = ''OperationTimedOut''"
| "error_code_debug SidecarUnavailable = ''SidecarUnavailable''"
| "error_code_debug InvalidStateTransition = ''InvalidStateTransition''"

definition mock_error :: "NetworkErrorCode \<Rightarrow> IpcError" where
  "mock_error code =
     \<lparr>ie_code = code, ie_message = ''mock sidecar rejected request: '' @ error_code_debug code,
      ie_retryable = (code \<in> {SidecarUnavailable, OperationTimedOut})\<rparr>"

definition mock_handle ::
  "config_lib \<Rightarrow> IpcRequest \<Rightarrow> MockNetworkSidecar \<Rightarrow> IpcResponse \<times> MockNetworkSidecar" where
  "mock_handle lib request m =
     (case (case IpcRequest_validate_protocol request of
              Err e \<Rightarrow> (Err e, m)
            | Ok _ \<Rightarrow> handle_payload lib (rq_payload request) m) of
        (r, m') \<Rightarrow>
          (\<lparr>rp_protocol_version = NETWORK_IPC_PROTOCOL_VERSION, rp_request_id = rq_request_id request,
            rp_result = map_err mock_error r\<rparr>, m'))"

record MockControlPlane =
  mc_profile :: NetworkProfile

definition MockControlPlane_new :: "config_lib \<Rightarrow> NetworkProfile \<Rightarrow> MockControlPlane net_result" where
  "MockControlPlane_new lib p =
     (case NetworkProfile_validate lib p of Err e \<Rightarrow> Err e | Ok _ \<Rightarrow> Ok \<lparr>mc_profile = p\<rparr>)"

definition fetch_profile :: "string \<Rightarrow> MockControlPlane \<Rightarrow> NetworkProfile net_result" where
  "fetch_profile identity_ref c =
     (if identity_ref \<noteq> pr_identity_ref (mc_profile c) then Err AuthenticationFailed
      else Ok (mc_profile c))"

subsection \<open>Responses answer their requests\<close>

text \<open>A status in which the connection state, the profile and the transport fit together.\<close>

definition status_consistent :: "NetworkStatus \<Rightarrow> bool" where
  "status_consistent s \<longleftrightarrow>
     (connected (ns_state s) \<longleftrightarrow> ns_active_transport s \<noteq> None) \<and>
     (ns_active_transport s = Some Quic \<longleftrightarrow> ns_state s = ConnectedPrimary) \<and>
     (connected (ns_state s) \<longrightarrow> ns_active_profile_id s \<noteq> None)"

lemma validate_network_status_consistent:
  "validate_network_status s = Ok () \<Longrightarrow> status_consistent s"
  by (cases "ns_state s")
    (auto simp: validate_network_status_def status_consistent_def connected_def split: if_splits)

lemma response_status:
  assumes "validate_response_payload request (Status s) = Ok ()"
  shows "validate_network_status s = Ok ()"
  using assms
  by (cases "rq_payload request") (auto simp: validate_response_payload_def result_simps)

text \<open>
  Claim C29. A response that validates answers its request: both speak protocol version 2 and carry
  the same well-formed identifier, a reported status is consistent (a transport is active exactly in
  a connected state, QUIC exactly in \<open>ConnectedPrimary\<close>, and then a profile is active), and a request
  to connect a transport is only answered by a status that has this very transport active.
\<close>

theorem valid_response_answers_request:
  assumes "IpcResponse_validate_protocol request response = Ok ()"
  shows "rq_protocol_version request = 2 \<and> rp_protocol_version response = 2 \<and>
    rp_request_id response = rq_request_id request \<and> valid_ipc_id (rq_request_id request) \<and>
    (\<forall>s. rp_result response = Ok (Status s) \<longrightarrow> status_consistent s) \<and>
    (\<forall>t s. rq_payload request = ConnectTransport t \<longrightarrow> rp_result response = Ok (Status s) \<longrightarrow>
       ns_active_transport s = Some t \<and> connected (ns_state s)) \<and>
    (\<forall>t x. rq_payload request = ConnectTransport t \<longrightarrow> rp_result response = Ok x \<longrightarrow> (\<exists>s. x = Status s))"
proof -
  from assms have v: "IpcRequest_validate_protocol request = Ok ()" "rp_protocol_version response = 2"
    "rp_request_id response = rq_request_id request" "valid_ipc_id (rq_request_id request)"
    by (auto simp: IpcResponse_validate_protocol_def NETWORK_IPC_PROTOCOL_VERSION_def
        split: result.splits if_splits)
  then have "rq_protocol_version request = 2"
    by (auto simp: IpcRequest_validate_protocol_def NETWORK_IPC_PROTOCOL_VERSION_def split: if_splits)
  moreover have pay: "validate_response_payload request x = Ok ()" if "rp_result response = Ok x" for x
    using assms that v by (auto simp: IpcResponse_validate_protocol_def split: if_splits)
  moreover have "status_consistent s" if "rp_result response = Ok (Status s)" for s
    using pay [OF that] by (intro validate_network_status_consistent response_status)
  moreover have "ns_active_transport s = Some t \<and> connected (ns_state s)"
    if "rq_payload request = ConnectTransport t" "rp_result response = Ok (Status s)" for t s
    using pay [OF that(2)] that(1)
    by (auto simp: validate_response_payload_def result_simps require_status_def connected_def
        split: if_splits)
  moreover have "\<exists>s. x = Status s"
    if "rq_payload request = ConnectTransport t" "rp_result response = Ok x" for t x
    using pay [OF that(2)] that(1) by (cases x) (auto simp: validate_response_payload_def)
  ultimately show ?thesis using v by blast
qed

definition sample_request :: IpcRequest where
  "sample_request =
     \<lparr>rq_protocol_version = 2, rq_request_id = ''request-1'', rq_payload = ConnectTransport Wss\<rparr>"

definition sample_response :: IpcResponse where
  "sample_response =
     \<lparr>rp_protocol_version = 2, rp_request_id = ''request-1'',
      rp_result = Ok (Status \<lparr>ns_state = DegradedFallback, ns_active_profile_id = Some ''profile.1'',
        ns_active_transport = Some Wss, ns_last_error = None\<rparr>)\<rparr>"

theorem valid_response_answers_request_witness:
  "rp_request_id sample_response = rq_request_id sample_request \<and>
   status_consistent \<lparr>ns_state = DegradedFallback, ns_active_profile_id = Some ''profile.1'',
     ns_active_transport = Some Wss, ns_last_error = None\<rparr>"
proof -
  have "IpcResponse_validate_protocol sample_request sample_response = Ok ()" by code_simp
  from valid_response_answers_request [OF this] show ?thesis by (simp add: sample_response_def)
qed

subsection \<open>The mock keeps the protocol\<close>

text \<open>Between requests the mock is disconnected or connected, with a validated profile.\<close>

definition mock_inv :: "config_lib \<Rightarrow> MockNetworkSidecar \<Rightarrow> bool" where
  "mock_inv lib m \<longleftrightarrow>
     (mk_state m = Disconnected \<or> mk_state m = ConnectedPrimary \<and> mk_profile m \<noteq> None) \<and>
     (\<forall>p. mk_profile m = Some p \<longrightarrow> NetworkProfile_validate lib p = Ok ())"

lemma valid_profile_id_eq: "valid_profile_id = valid_id"
  by (simp add: fun_eq_iff valid_profile_id_def valid_id_def)

lemma validated_profile_id: "NetworkProfile_validate lib p = Ok () \<Longrightarrow> valid_id (pr_profile_id p)"
  by (simp add: NetworkProfile_validate_def split: if_splits)

lemma mock_status_valid: "mock_inv lib m \<Longrightarrow> validate_network_status (mock_status m) = Ok ()"
  by (auto simp: mock_inv_def mock_status_def validate_network_status_def valid_profile_id_eq
      dest: validated_profile_id split: option.splits)

lemma mock_error_valid: "validate_ipc_error (mock_error code) = Ok ()"
proof -
  have "list_all (\<lambda>code. validate_ipc_error (mock_error code) = Ok ())
    [UnsupportedSchemaVersion, UnsupportedProtocolVersion, InvalidConfiguration,
     AuthenticationFailed, PermissionDenied, PolicySignatureInvalid, RouteDiscoveryFailed,
     RouteConflict, RouteJournalCorrupted, RouteJournalUnavailable, RouteRollbackFailed,
     TunnelStartFailed, PrimaryTransportUnavailable, FallbackTransportUnavailable,
     OperationCancelled, OperationTimedOut, SidecarUnavailable, InvalidStateTransition]"
    by code_simp
  then show ?thesis by (cases code) simp_all
qed

lemma mock_transitions_connect:
  "mock_inv lib m \<Longrightarrow>
     mock_transitions [Authenticating, FetchingConfig, PreparingTunnel, ConnectingPrimary,
       ConnectedPrimary] m =
     (if mk_state m = Disconnected then (Ok (), m\<lparr>mk_state := ConnectedPrimary\<rparr>)
      else (Err InvalidStateTransition, m))"
  by (auto simp: mock_inv_def transition_to_def)

lemma mock_transitions_disconnect:
  "mock_inv lib m \<Longrightarrow>
     mock_transitions [Disconnecting, Disconnected] m =
     (if mk_state m = Disconnected then (Err InvalidStateTransition, m)
      else (Ok (), m\<lparr>mk_state := Disconnected\<rparr>))"
  by (auto simp: mock_inv_def transition_to_def)

lemma require_mock_status:
  "mk_state m = ConnectedPrimary \<Longrightarrow> require_status (mock_status m) ConnectedPrimary (Some Quic) = Ok ()"
  by (simp add: require_status_def mock_status_def)

declare mock_transitions.simps [simp del]

lemma handle_payload_inv:
  "mock_inv lib m \<Longrightarrow> mock_inv lib (snd (handle_payload lib p m))"
  by (cases p)
    (auto simp: handle_payload_def mock_transitions_connect mock_transitions_disconnect
      mock_inv_def split: option.splits result.splits)

lemma handle_payload_valid:
  assumes "mock_inv lib m" and "handle_payload lib (rq_payload request) m = (Ok x, m')"
  shows "validate_response_payload request x = Ok ()"
proof -
  have "mock_inv lib m'" using handle_payload_inv [OF assms(1)] assms(2) by (metis snd_conv)
  with assms show ?thesis
    using mock_status_valid [of lib m'] mock_status_valid [of lib m]
    by (cases "rq_payload request")
      (auto simp: handle_payload_def validate_response_payload_def mock_transitions_connect
        mock_transitions_disconnect require_mock_status
        split: option.splits result.splits if_splits)
qed

text \<open>
  The mock sidecar speaks the protocol it is checked against: from its initial state,
  through any requests (valid or not) and injected connect failures, every answer to a request that
  validates is a response that validates for that request.
\<close>

theorem mock_responses_validate:
  assumes "mock_inv lib m" and "IpcRequest_validate_protocol request = Ok ()"
  shows "IpcResponse_validate_protocol request (fst (mock_handle lib request m)) = Ok () \<and>
    mock_inv lib (snd (mock_handle lib request m)) \<and> mock_inv lib (fail_next_connect_with e m) \<and>
    mock_inv lib mock_default"
proof -
  obtain r m' where run: "handle_payload lib (rq_payload request) m = (r, m')" by fastforce
  have id: "valid_ipc_id (rq_request_id request)"
    using assms(2) by (auto simp: IpcRequest_validate_protocol_def split: if_splits)
  have "IpcResponse_validate_protocol request (fst (mock_handle lib request m)) = Ok ()"
    using assms run id handle_payload_valid [OF assms(1), of request] mock_error_valid
    by (cases r) (auto simp: mock_handle_def IpcResponse_validate_protocol_def)
  moreover have "mock_inv lib (snd (mock_handle lib request m))"
    using assms run handle_payload_inv [OF assms(1), of "rq_payload request"]
    by (simp add: mock_handle_def)
  ultimately show ?thesis
    using assms(1) by (simp add: mock_inv_def fail_next_connect_with_def mock_default_def)
qed

definition no_lib :: config_lib where
  "no_lib = \<lparr>Url_parse = (\<lambda>_. None), base64_decode = (\<lambda>_. None), base64_encode = (\<lambda>_. [])\<rparr>"

theorem mock_responses_validate_witness:
  "IpcResponse_validate_protocol (sample_request\<lparr>rq_payload := GetStatus\<rparr>)
     (fst (mock_handle no_lib (sample_request\<lparr>rq_payload := GetStatus\<rparr>) mock_default)) = Ok ()"
proof -
  have "IpcRequest_validate_protocol (sample_request\<lparr>rq_payload := GetStatus\<rparr>) = Ok ()" by code_simp
  moreover have "mock_inv no_lib mock_default" by (simp add: mock_inv_def mock_default_def)
  ultimately show ?thesis using mock_responses_validate by blast
qed

end
