(* ===== verification/Route_Helper.thy ===== *)
theory Route_Helper
  imports Ipc Net_Config_Facts
begin

section \<open>Route leases\<close>

text \<open>
  \<open>networking/route_helper.rs\<close>: the lease that the application hands to the
  privileged route helper, and its validation; and \<open>mihomo_tun_source.rs\<close>, the
  observation of the one foreign TUN interface a lease may trust.  Prefix
  lengths are natural numbers bounded by the parser.  The shifts by
  \<open>32 - prefix\<close> and \<open>128 - prefix\<close> are in range because a parsed prefix is
  at least one.
\<close>

definition ROUTE_HELPER_PROTOCOL_VERSION :: u8 where "ROUTE_HELPER_PROTOCOL_VERSION = 2"
definition MAX_MIHOMO_TUN_INTERFACES :: nat where "MAX_MIHOMO_TUN_INTERFACES = 1"

subsection \<open>Prefixes\<close>

text \<open>\<open>Ipv6Addr::octets\<close>, most significant byte first.\<close>

definition v6_octets :: "u128 \<Rightarrow> u8 list" where
  "v6_octets v = map (\<lambda>i. ucast (drop_bit (120 - 8 * i) v)) [0..<16]"

text \<open>The \<open>while remaining >= 8\<close> loop.\<close>

function zero_bytes :: "u8 list \<Rightarrow> nat \<Rightarrow> nat \<Rightarrow> bool" where
  "zero_bytes bytes remaining index =
     (if 8 \<le> remaining
      then if bytes ! index \<noteq> 0 then False else zero_bytes bytes (remaining - 8) (index + 1)
      else True)"
  by pat_completeness auto

termination
  by (relation "measure (\<lambda>(bytes, remaining, index). remaining)") auto

declare zero_bytes.simps [simp del]

definition is_network_base :: "IpAddr \<Rightarrow> nat \<Rightarrow> bool" where
  "is_network_base address prefix =
     (case address of
        V4 v \<Rightarrow>
          (let host_bits = 32 - prefix;
               m = (if host_bits = 32 then - 1 else push_bit host_bits 1 - 1)
           in v AND m = 0)
      | V6 v \<Rightarrow>
          (let bytes = v6_octets v; remaining = 128 - prefix; index = prefix div 8
           in if 0 < remaining \<and> prefix mod 8 \<noteq> 0
              then let host_bits = 8 - prefix mod 8
                   in if bytes ! index AND (push_bit host_bits 1 - 1) \<noteq> 0 then False
                      else zero_bytes bytes (remaining - host_bits) (index + 1)
              else zero_bytes bytes remaining index))"

definition parse_cidr :: "string \<Rightarrow> (IpAddr \<times> nat) option" where
  "parse_cidr s =
     (case split_once CHR ''/'' s of None \<Rightarrow> None
      | Some (address, prefix) \<Rightarrow>
     (case parse_ip address of None \<Rightarrow> None
      | Some address \<Rightarrow>
     (case parse_u8 prefix of None \<Rightarrow> None
      | Some prefix \<Rightarrow>
          if prefix = 0 \<or> is_unspecified address \<or> is_multicast address \<or>
             (if is_ipv4 address then 32 else 128) < prefix
          then None
          else if is_network_base address prefix then Some (address, prefix) else None)))"

definition helper_valid_cidr :: "string \<Rightarrow> bool" where
  "helper_valid_cidr s \<longleftrightarrow> parse_cidr s \<noteq> None"

definition cidr_overlaps :: "IpAddr \<Rightarrow> nat \<Rightarrow> IpAddr \<Rightarrow> nat \<Rightarrow> bool" where
  "cidr_overlaps l lp r rp =
     (case (l, r) of
        (V4 l, V4 r) \<Rightarrow>
          (let m = push_bit (32 - min lp rp) (- 1) in l AND m = r AND m)
      | (V6 l, V6 r) \<Rightarrow>
          (let m = push_bit (128 - min lp rp) (- 1) in l AND m = r AND m)
      | _ \<Rightarrow> False)"

fun parse_cidrs :: "string list \<Rightarrow> (IpAddr \<times> nat) list option" where
  "parse_cidrs [] = Some []"
| "parse_cidrs (s # ss) =
     (case parse_cidr s of None \<Rightarrow> None
      | Some c \<Rightarrow> map_option (\<lambda>cs. c # cs) (parse_cidrs ss))"

fun no_overlaps :: "(IpAddr \<times> nat) list \<Rightarrow> bool" where
  "no_overlaps [] = True"
| "no_overlaps ((a, p) # cs) =
     (\<not> list_ex (\<lambda>(b, q). cidr_overlaps a p b q) cs \<and> no_overlaps cs)"

definition cidrs_are_non_overlapping :: "string list \<Rightarrow> bool" where
  "cidrs_are_non_overlapping ss =
     (case parse_cidrs ss of None \<Rightarrow> False | Some parsed \<Rightarrow> no_overlaps parsed)"

definition tunnel_supports_cidr :: "TunnelDeviceFacts \<Rightarrow> string \<Rightarrow> bool" where
  "tunnel_supports_cidr tunnel cidr =
     (case map_option fst (parse_cidr cidr) of
        Some (V4 _) \<Rightarrow> tf_has_ipv4 tunnel
      | Some (V6 _) \<Rightarrow> tf_has_ipv6 tunnel
      | None \<Rightarrow> False)"

definition valid_mihomo_interfaces :: "string list \<Rightarrow> bool" where
  "valid_mihomo_interfaces vs \<longleftrightarrow>
     length vs \<le> MAX_MIHOMO_TUN_INTERFACES \<and> all_unique vs \<and>
     list_all (\<lambda>(a, b). str_less a b) (windows2 vs) \<and> list_all valid_utun_interface vs"

subsection \<open>Leases\<close>

record RouteLeaseOwner =
  lo_protocol_version :: u8
  lo_lease_id :: string
  lo_operation_id :: string
  lo_sidecar_instance_id :: string
  lo_profile_revision :: u64
  lo_tunnel :: TunnelDeviceFacts
  lo_active_mihomo_tun_interfaces :: "string list"
  lo_private_cidrs :: "string list"

definition valid_identifier :: "string \<Rightarrow> bool" where
  "valid_identifier s = valid_ipc_id s"

definition i64_max :: u64 where "i64_max = 0x7fffffffffffffff"

definition RouteLeaseOwner_validate :: "RouteLeaseOwner \<Rightarrow> unit net_result" where
  "RouteLeaseOwner_validate lease =
     (if lo_protocol_version lease \<noteq> ROUTE_HELPER_PROTOCOL_VERSION \<or>
         \<not> valid_identifier (lo_lease_id lease) \<or> \<not> valid_identifier (lo_operation_id lease) \<or>
         \<not> valid_identifier (lo_sidecar_instance_id lease) \<or>
         lo_profile_revision lease = 0 \<or> i64_max < lo_profile_revision lease \<or>
         lo_private_cidrs lease = [] \<or> 64 < length (lo_private_cidrs lease) \<or>
         \<not> all_unique (lo_private_cidrs lease) \<or>
         \<not> list_all helper_valid_cidr (lo_private_cidrs lease) \<or>
         \<not> list_all (tunnel_supports_cidr (lo_tunnel lease)) (lo_private_cidrs lease) \<or>
         \<not> valid_utun_interface (tf_interface_name (lo_tunnel lease)) \<or>
         \<not> valid_mihomo_interfaces (lo_active_mihomo_tun_interfaces lease) \<or>
         list_ex (\<lambda>i. i = tf_interface_name (lo_tunnel lease)) (lo_active_mihomo_tun_interfaces lease) \<or>
         \<not> cidrs_are_non_overlapping (lo_private_cidrs lease)
      then Err InvalidConfiguration
      else TunnelDeviceFacts_validate (lo_sidecar_instance_id lease)
             (lo_operation_id lease @ ''.prepare'') (lo_tunnel lease))"

record RouteLeaseReference =
  lr_protocol_version :: u8
  lr_lease_id :: string
  lr_operation_id :: string

definition RouteLeaseReference_validate :: "RouteLeaseReference \<Rightarrow> unit net_result" where
  "RouteLeaseReference_validate r =
     (if lr_protocol_version r \<noteq> ROUTE_HELPER_PROTOCOL_VERSION \<or>
         \<not> valid_identifier (lr_lease_id r) \<or> \<not> valid_identifier (lr_operation_id r)
      then Err InvalidConfiguration else Ok ())"

definition RouteLeaseReference_matches :: "RouteLeaseOwner \<Rightarrow> RouteLeaseReference \<Rightarrow> bool" where
  "RouteLeaseReference_matches lease r \<longleftrightarrow>
     is_ok (RouteLeaseReference_validate r) \<and> lr_lease_id r = lo_lease_id lease \<and>
     lr_operation_id r = lo_operation_id lease"

datatype RouteHelperState = HelperIdle | HelperPrepared | HelperApplied | HelperRollingBack | HelperFailedClosed

record RouteHelperStatus =
  hs_protocol_version :: u8
  hs_state :: RouteHelperState
  hs_operation_id :: "string option"
  hs_error_code :: "NetworkErrorCode option"

definition RouteHelperStatus_validate :: "RouteHelperStatus \<Rightarrow> unit net_result" where
  "RouteHelperStatus_validate s =
     (if hs_protocol_version s \<noteq> ROUTE_HELPER_PROTOCOL_VERSION then Err UnsupportedProtocolVersion
      else if (case hs_operation_id s of None \<Rightarrow> False | Some i \<Rightarrow> \<not> valid_identifier i)
      then Err InvalidConfiguration else Ok ())"

subsection \<open>The trusted TUN interface\<close>

definition MAX_ACTIVE_MIHOMO_TUN_INTERFACES :: nat where "MAX_ACTIVE_MIHOMO_TUN_INTERFACES = 1"

record MihomoTunSnapshot =
  mt_active_mihomo_tun_interfaces :: "string list"

definition all_unique_and_sorted :: "string list \<Rightarrow> bool" where
  "all_unique_and_sorted vs = list_all (\<lambda>(a, b). str_less a b) (windows2 vs)"

definition MihomoTunSnapshot_inactive :: MihomoTunSnapshot where
  "MihomoTunSnapshot_inactive = \<lparr>mt_active_mihomo_tun_interfaces = []\<rparr>"

definition MihomoTunSnapshot_validate_for :: "string \<Rightarrow> MihomoTunSnapshot \<Rightarrow> unit net_result" where
  "MihomoTunSnapshot_validate_for kyclash_interface s =
     (if \<not> valid_utun_interface kyclash_interface \<or>
         MAX_ACTIVE_MIHOMO_TUN_INTERFACES < length (mt_active_mihomo_tun_interfaces s) \<or>
         \<not> all_unique_and_sorted (mt_active_mihomo_tun_interfaces s) \<or>
         list_ex (\<lambda>i. \<not> valid_utun_interface i) (mt_active_mihomo_tun_interfaces s)
      then Err InvalidConfiguration
      else if list_ex (\<lambda>i. i = kyclash_interface) (mt_active_mihomo_tun_interfaces s)
      then Err RouteConflict else Ok ())"

definition MihomoTunSnapshot_active :: "string \<Rightarrow> string \<Rightarrow> MihomoTunSnapshot net_result" where
  "MihomoTunSnapshot_active interface_name kyclash_interface =
     (let snapshot = \<lparr>mt_active_mihomo_tun_interfaces = [interface_name]\<rparr>
      in case MihomoTunSnapshot_validate_for kyclash_interface snapshot of
           Err e \<Rightarrow> Err e | Ok _ \<Rightarrow> Ok snapshot)"

definition snapshot_from_observation ::
  "bool \<Rightarrow> bool \<Rightarrow> bool \<Rightarrow> string \<Rightarrow> string \<Rightarrow> bool \<Rightarrow> MihomoTunSnapshot net_result" where
  "snapshot_from_observation core_running app_tun_enabled mihomo_tun_enabled mihomo_device
      kyclash_interface interface_exists =
     (if \<not> valid_utun_interface kyclash_interface then Err InvalidConfiguration
      else if \<not> core_running then Ok MihomoTunSnapshot_inactive
      else if app_tun_enabled \<noteq> mihomo_tun_enabled then Err RouteDiscoveryFailed
      else if \<not> mihomo_tun_enabled then Ok MihomoTunSnapshot_inactive
      else if \<not> interface_exists then Err RouteDiscoveryFailed
      else MihomoTunSnapshot_active mihomo_device kyclash_interface)"

record StaticActiveMihomoTunSource =
  sm_result :: "MihomoTunSnapshot net_result"

definition StaticActiveMihomoTunSource_snapshot ::
  "string \<Rightarrow> StaticActiveMihomoTunSource \<Rightarrow> MihomoTunSnapshot net_result" where
  "StaticActiveMihomoTunSource_snapshot kyclash_interface s =
     (case sm_result s of Err e \<Rightarrow> Err e
      | Ok snapshot \<Rightarrow>
          (case MihomoTunSnapshot_validate_for kyclash_interface snapshot of
             Err e \<Rightarrow> Err e | Ok _ \<Rightarrow> Ok snapshot))"

subsection \<open>The network base test\<close>

lemma take_bit_zero_iff:
  fixes v :: "'w::len word"
  shows "take_bit k v = 0 \<longleftrightarrow> (\<forall>n<k. \<not> bit v n)"
  by (auto simp: bit_eq_iff bit_simps dest: bit_imp_le_length)

lemma and_low_mask_zero:
  fixes v :: "'w::len word"
  assumes "k < LENGTH('w)"
  shows "v AND (push_bit k 1 - 1) = 0 \<longleftrightarrow> (\<forall>n<k. \<not> bit v n)"
proof -
  have "push_bit k 1 - 1 = (mask k :: 'w word)"
    by (simp add: mask_eq_decr_exp push_bit_eq_mult)
  then show ?thesis by (simp add: take_bit_eq_mask [symmetric] take_bit_zero_iff)
qed

lemma bit_v6_octet:
  assumes "i < 16" and "n < 8"
  shows "bit (v6_octets v ! i) n \<longleftrightarrow> bit v (120 - 8 * i + n)"
  using assms by (simp add: v6_octets_def bit_simps)

lemma v6_octet_zero:
  assumes "i < 16"
  shows "v6_octets v ! i = 0 \<longleftrightarrow> (\<forall>n. 120 - 8 * i \<le> n \<and> n < 128 - 8 * i \<longrightarrow> \<not> bit v n)"
proof -
  have "v6_octets v ! i = 0 \<longleftrightarrow> (\<forall>n<8. \<not> bit (v6_octets v ! i) n)"
    by (auto simp: bit_eq_iff dest: bit_imp_le_length)
  also have "\<dots> \<longleftrightarrow> (\<forall>n<8. \<not> bit v (120 - 8 * i + n))"
    using bit_v6_octet [OF assms] by simp
  also have "\<dots> \<longleftrightarrow> (\<forall>n. 120 - 8 * i \<le> n \<and> n < 128 - 8 * i \<longrightarrow> \<not> bit v n)"
  proof (intro iffI allI impI)
    fix n assume a: "\<forall>m<8. \<not> bit v (120 - 8 * i + m)" and n: "120 - 8 * i \<le> n \<and> n < 128 - 8 * i"
    have "n - (120 - 8 * i) < 8" "120 - 8 * i + (n - (120 - 8 * i)) = n" using n assms by auto
    with a show "\<not> bit v n" by metis
  next
    fix n :: nat assume a: "\<forall>n. 120 - 8 * i \<le> n \<and> n < 128 - 8 * i \<longrightarrow> \<not> bit v n" and n: "n < 8"
    have "120 - 8 * i \<le> 120 - 8 * i + n" "120 - 8 * i + n < 128 - 8 * i" using assms n by auto
    with a show "\<not> bit v (120 - 8 * i + n)" by blast
  qed
  finally show ?thesis .
qed

lemma below_between:
  "a \<le> b \<Longrightarrow> (\<forall>n. a \<le> n \<and> n < b \<longrightarrow> P n) \<and> (\<forall>n<a. P n) \<longleftrightarrow> (\<forall>n<b. P n)" for a b :: nat
  by (metis less_le_trans not_le)

lemma zero_bytes_iff:
  "index \<le> 16 \<Longrightarrow>
     zero_bytes (v6_octets v) (128 - 8 * index) index \<longleftrightarrow> (\<forall>n<128 - 8 * index. \<not> bit v n)"
proof (induction "16 - index" arbitrary: index)
  case 0
  then have "128 - 8 * index = 0" by simp
  then show ?case by (subst zero_bytes.simps) simp
next
  case (Suc k)
  then have i: "index < 16" by simp
  have "zero_bytes (v6_octets v) (128 - 8 * index) index \<longleftrightarrow>
      v6_octets v ! index = 0 \<and> zero_bytes (v6_octets v) (128 - 8 * Suc index) (Suc index)"
    using i by (subst zero_bytes.simps) auto
  also have "zero_bytes (v6_octets v) (128 - 8 * Suc index) (Suc index) \<longleftrightarrow>
      (\<forall>n<128 - 8 * Suc index. \<not> bit v n)"
    using Suc by (intro Suc.hyps) auto
  finally have "zero_bytes (v6_octets v) (128 - 8 * index) index \<longleftrightarrow>
      (\<forall>n. 120 - 8 * index \<le> n \<and> n < 128 - 8 * index \<longrightarrow> \<not> bit v n) \<and>
      (\<forall>n<120 - 8 * index. \<not> bit v n)"
    using v6_octet_zero [OF i, of v] by simp
  also have "\<dots> \<longleftrightarrow> (\<forall>n<128 - 8 * index. \<not> bit v n)"
    by (rule below_between) simp
  finally show ?case .
qed

lemma below_split:
  "(\<forall>n<a + h. \<not> P n) \<longleftrightarrow> (\<forall>n<h. \<not> P (a + n)) \<and> (\<forall>n<a. \<not> P n)" for a h :: nat
proof (intro iffI conjI allI impI)
  fix n assume s: "(\<forall>n<h. \<not> P (a + n)) \<and> (\<forall>n<a. \<not> P n)" and n: "n < a + h"
  show "\<not> P n"
  proof (cases "n < a")
    case False
    then have "n - a < h" "a + (n - a) = n" using n by auto
    with s show ?thesis by metis
  qed (use s in blast)
qed auto

lemma octet_split:
  assumes "p = 8 * i + r" and "r < 8" and "r \<noteq> 0" and "p \<le> (128 :: nat)"
  shows "i < 16 \<and> 8 - r < 8 \<and> 128 - p - (8 - r) = 128 - 8 * Suc i \<and> 128 - p = 120 - 8 * i + (8 - r)"
  using assms by simp

lemma is_network_base_V6:
  "is_network_base (V6 v) p =
     (if 0 < 128 - p \<and> p mod 8 \<noteq> 0
      then v6_octets v ! (p div 8) AND (push_bit (8 - p mod 8) 1 - 1) = 0 \<and>
           zero_bytes (v6_octets v) (128 - p - (8 - p mod 8)) (Suc (p div 8))
      else zero_bytes (v6_octets v) (128 - p) (p div 8))"
  by (simp add: is_network_base_def Let_def)

text \<open>
  The two network base tests, a bit mask for IPv4 and a loop over the octets for IPv6,
  accept a prefix exactly when every bit of the address below the prefix is zero.
\<close>

theorem network_base_test:
  assumes "1 \<le> prefix" and "prefix \<le> (if is_ipv4 address then 32 else 128)"
  shows "is_network_base address prefix \<longleftrightarrow>
    (case address of V4 v \<Rightarrow> \<forall>n<32 - prefix. \<not> bit v n | V6 v \<Rightarrow> \<forall>n<128 - prefix. \<not> bit v n)"
proof (cases address)
  case (V4 v)
  then have "32 - prefix \<noteq> 32" "32 - prefix < 32" using assms by simp_all
  with V4 show ?thesis
    using and_low_mask_zero [of "32 - prefix" v] by (simp add: is_network_base_def Let_def)
next
  case (V6 v)
  let ?i = "prefix div 8" and ?r = "prefix mod 8"
  have p: "prefix = 8 * ?i + ?r" by simp
  have le: "prefix \<le> 128" using assms V6 by simp
  show ?thesis
  proof (cases "?r = 0")
    case True
    then have "128 - prefix = 128 - 8 * ?i" by (metis add.right_neutral p)
    moreover have "?i \<le> 16" using le by simp
    ultimately show ?thesis
      using V6 True zero_bytes_iff [of ?i v] by (simp only: is_network_base_V6 simp_thms if_False IpAddr.case)
  next
    case False
    let ?h = "8 - ?r"
    have "?r < 8" by simp
    from octet_split [OF p this False le] have i: "?i < 16" and h: "?h < 8" "128 - prefix - ?h = 128 - 8 * Suc ?i"
      "128 - prefix = 120 - 8 * ?i + ?h"
      by blast+
    have "is_network_base address prefix \<longleftrightarrow>
        (\<forall>n<?h. \<not> bit (v6_octets v ! ?i) n) \<and> (\<forall>n<128 - 8 * Suc ?i. \<not> bit v n)"
    proof -
      have "0 < 128 - prefix" using h(1,3) i by linarith
      moreover have "zero_bytes (v6_octets v) (128 - prefix - ?h) (Suc ?i) \<longleftrightarrow>
          (\<forall>n<128 - 8 * Suc ?i. \<not> bit v n)"
        unfolding h(2) by (rule zero_bytes_iff) (use i in linarith)
      moreover have "?h < LENGTH(8)" using h(1) by simp
      ultimately show ?thesis
        using False by (simp only: V6 is_network_base_V6 and_low_mask_zero simp_thms if_True)
    qed
    also have "(\<forall>n<?h. \<not> bit (v6_octets v ! ?i) n) \<longleftrightarrow> (\<forall>n<?h. \<not> bit v (120 - 8 * ?i + n))"
      using bit_v6_octet [OF i, of _ v] h(1) by simp
    also have "128 - 8 * Suc ?i = 120 - 8 * ?i" by simp
    finally show ?thesis
      by (simp only: V6 IpAddr.case h(3) below_split [of "120 - 8 * ?i" ?h "bit v"])
  qed
qed

theorem network_base_test_witness: "\<not> is_network_base (V6 1) 33"
proof -
  have "is_network_base (V6 1) 33 \<longleftrightarrow>
      (case V6 1 of V4 v \<Rightarrow> \<forall>n<32 - 33. \<not> bit v n | V6 v \<Rightarrow> \<forall>n<128 - 33. \<not> bit v n)"
    by (rule network_base_test) simp_all
  moreover have "\<not> (\<forall>n<128 - 33. \<not> bit (1 :: u128) n)" by (auto intro!: exI [of _ 0])
  ultimately show ?thesis by simp
qed

subsection \<open>Overlaps and leases\<close>

definition cidr_prefix :: "IpAddr \<times> nat \<Rightarrow> ProductionPrefix" where
  "cidr_prefix c = \<lparr>px_address = fst c, px_bits = snd c\<rparr>"

lemma ucast_u32_inject: "(ucast (x :: u32) :: u128) = ucast y \<longleftrightarrow> x = y"
proof
  assume eq: "(ucast x :: u128) = ucast y"
  show "x = y"
  proof (rule bit_eqI)
    fix n
    have "bit (ucast x :: u128) n = bit (ucast y :: u128) n" by (simp only: eq)
    then show "bit x n = bit y n" by (auto simp: bit_simps dest: bit_imp_le_length)
  qed
qed simp

lemma cidr_overlaps_eq:
  assumes "1 \<le> p" and "1 \<le> q"
  shows "cidr_overlaps a p b q = production_prefixes_overlap (cidr_prefix (a, p)) (cidr_prefix (b, q))"
proof -
  have m: "min p q \<noteq> 0" using assms by simp
  have v4: "x AND push_bit k (- 1) = y AND push_bit k (- 1) \<longleftrightarrow>
      (ucast x :: u128) AND push_bit k (- 1) = ucast y AND push_bit k (- 1)" for x y :: u32 and k
    by (simp only: masked_eq_iff ucast_drop_bit ucast_u32_inject)
  show ?thesis
    using m by (cases a; cases b)
      (simp_all only: cidr_overlaps_def production_prefixes_overlap_def production_masked_value_def
        production_same_family_def production_address_bits_def production_address_value_def
        cidr_prefix_def Let_def fst_conv snd_conv IpAddr.case prod.case is_ipv4.simps
        ProductionPrefix.simps if_True if_False simp_thms v4)
qed

lemma parse_u8_no_slash: "parse_u8 s = Some n \<Longrightarrow> CHR ''/'' \<notin> set s"
  using parse_unsigned_chars [of 255 s n "CHR ''/''"]
  by (auto simp: parse_u8_def is_ascii_digit_def ord_def)

lemma parse_cidr_Some:
  assumes "parse_cidr s = Some (a, p)"
  shows "1 \<le> p \<and> prefix_wf (cidr_prefix (a, p)) \<and> is_ok (IpNetwork_parse s) \<and>
    addresses_of s = prefix_addresses (cidr_prefix (a, p))"
proof -
  from assms obtain ra rb where s: "split_once CHR ''/'' s = Some (ra, rb)"
    "parse_ip ra = Some a" "parse_u8 rb = Some p" and p: "1 \<le> p"
    and wf: "prefix_wf (cidr_prefix (a, p))"
    by (auto simp: parse_cidr_def prefix_wf_def cidr_prefix_def production_address_bits_def
        split: option.splits if_splits)
  have "rsplit_once CHR ''/'' s = Some (ra, rb)"
    using s(1,3) parse_u8_no_slash by (simp add: rsplit_once_Some split_once_Some)
  from network_of_text [OF this s(2,3)] wf p show ?thesis by (simp add: cidr_prefix_def)
qed

text \<open>
  The overlap test of the route helper's lease, on two prefixes its parser accepts, agrees
  with the one the orchestrator applies to the same strings, and both hold exactly when the prefixes
  share an address.
\<close>

theorem helper_overlap_agrees:
  assumes "parse_cidr s = Some (a, p)" and "parse_cidr t = Some (b, q)"
  shows "\<exists>m n. IpNetwork_parse s = Ok m \<and> IpNetwork_parse t = Ok n \<and>
    (cidr_overlaps a p b q \<longleftrightarrow> IpNetwork_overlaps m n) \<and>
    (cidr_overlaps a p b q \<longleftrightarrow> addresses_of s \<inter> addresses_of t \<noteq> {})"
proof -
  note s = parse_cidr_Some [OF assms(1)] and t = parse_cidr_Some [OF assms(2)]
  obtain m n where "IpNetwork_parse s = Ok m" "IpNetwork_parse t = Ok n"
    using s t by (auto simp: is_ok_iff)
  then show ?thesis
    using s t cidr_overlaps_eq [of p q a b] overlaps_addresses_of [of s m t n]
      production_overlap_iff_meet [of "cidr_prefix (a, p)" "cidr_prefix (b, q)"] by simp
qed

lemma sample_cidrs:
  "parse_cidr ''10.0.0.0/8'' = Some (V4 0x0A000000, 8)"
  "parse_cidr ''10.64.0.0/16'' = Some (V4 0x0A400000, 16)"
proof -
  have base: "is_network_base (V4 0x0A000000) 8" "is_network_base (V4 0x0A400000) 16"
    by (simp_all add: is_network_base_def)
  have kind: "\<not> is_unspecified (V4 0x0A000000)" "\<not> is_multicast (V4 0x0A000000)"
    "\<not> is_unspecified (V4 0x0A400000)" "\<not> is_multicast (V4 0x0A400000)"
    by (simp_all add: is_unspecified_def is_multicast_def)
  have "split_once CHR ''/'' ''10.0.0.0/8'' = Some (''10.0.0.0'', ''8'')"
    "parse_ip ''10.0.0.0'' = Some (V4 0x0A000000)" "parse_u8 ''8'' = Some 8"
    by code_simp+
  with base(1) kind show "parse_cidr ''10.0.0.0/8'' = Some (V4 0x0A000000, 8)"
    by (simp add: parse_cidr_def)
  have "split_once CHR ''/'' ''10.64.0.0/16'' = Some (''10.64.0.0'', ''16'')"
    "parse_ip ''10.64.0.0'' = Some (V4 0x0A400000)" "parse_u8 ''16'' = Some 16"
    by code_simp+
  with base(2) kind show "parse_cidr ''10.64.0.0/16'' = Some (V4 0x0A400000, 16)"
    by (simp add: parse_cidr_def)
qed

theorem helper_overlap_agrees_witness:
  "parse_cidr ''10.0.0.0/8'' = Some (V4 0x0A000000, 8) \<and>
   parse_cidr ''10.64.0.0/16'' = Some (V4 0x0A400000, 16) \<and>
   (cidr_overlaps (V4 0x0A000000) 8 (V4 0x0A400000) 16 \<longleftrightarrow>
      addresses_of ''10.0.0.0/8'' \<inter> addresses_of ''10.64.0.0/16'' \<noteq> {})"
proof -
  obtain m n where "cidr_overlaps (V4 0x0A000000) 8 (V4 0x0A400000) 16 \<longleftrightarrow>
      addresses_of ''10.0.0.0/8'' \<inter> addresses_of ''10.64.0.0/16'' \<noteq> {}"
    using helper_overlap_agrees [OF sample_cidrs] by (elim exE conjE)
  with sample_cidrs show ?thesis by (intro conjI)
qed

lemma parse_cidrs_member:
  "parse_cidrs ss = Some cs \<Longrightarrow> t \<in> set ss \<Longrightarrow> \<exists>c. parse_cidr t = Some c \<and> c \<in> set cs"
  by (induction ss arbitrary: cs) (auto split: option.splits)

lemma no_overlaps_disjoint:
  assumes "parse_cidrs ss = Some cs" and "no_overlaps cs"
  shows "sorted_wrt disjoint_ranges ss \<and> list_all (\<lambda>s. is_ok (IpNetwork_parse s)) ss"
  using assms
proof (induction ss arbitrary: cs)
  case (Cons s ss)
  then obtain a p cs' where s: "parse_cidr s = Some (a, p)" and cs: "cs = (a, p) # cs'"
    and ss: "parse_cidrs ss = Some cs'"
    by (auto split: option.splits)
  have "disjoint_ranges s t" if "t \<in> set ss" for t
  proof -
    obtain b q where t: "parse_cidr t = Some (b, q)" "(b, q) \<in> set cs'"
      using parse_cidrs_member [OF ss \<open>t \<in> set ss\<close>] by auto
    then have "\<not> cidr_overlaps a p b q" using Cons.prems(2) cs by (auto simp: list_ex_iff)
    with parse_cidr_Some [OF s] parse_cidr_Some [OF t(1)] show ?thesis
      by (simp add: disjoint_ranges_def cidr_overlaps_eq production_overlap_iff_meet)
  qed
  with Cons.IH [OF ss] Cons.prems(2) cs parse_cidr_Some [OF s] show ?case by simp
qed simp

lemma snapshot_from_observation_valid:
  "snapshot_from_observation running app tun device own exists = Ok s \<Longrightarrow>
     MihomoTunSnapshot_validate_for own s = Ok ()"
  by (auto simp: snapshot_from_observation_def MihomoTunSnapshot_active_def Let_def
      MihomoTunSnapshot_inactive_def MihomoTunSnapshot_validate_for_def all_unique_and_sorted_def
      split: if_splits result.splits)

lemma valid_snapshot_valid_interfaces:
  "MihomoTunSnapshot_validate_for own s = Ok () \<Longrightarrow>
     length (mt_active_mihomo_tun_interfaces s) \<le> 1 \<and>
     own \<notin> set (mt_active_mihomo_tun_interfaces s) \<and>
     valid_mihomo_interfaces (mt_active_mihomo_tun_interfaces s)"
  by (cases "mt_active_mihomo_tun_interfaces s")
    (auto simp: MihomoTunSnapshot_validate_for_def valid_mihomo_interfaces_def
      MAX_ACTIVE_MIHOMO_TUN_INTERFACES_def MAX_MIHOMO_TUN_INTERFACES_def all_unique_def
      split: if_splits)

text \<open>
  Claim C30. A lease the helper accepts asks for between one and 64 readable prefixes that share no
  address with each other, each of a family its tunnel has (that they are private is a matter of the
  profile, which this check does not repeat), under a positive 63-bit revision.  The tunnel is the one the sidecar
  instance prepared for this operation, and its interface is not one of the trusted interfaces.
\<close>

theorem accepted_lease:
  assumes "RouteLeaseOwner_validate lease = Ok ()"
  shows "1 \<le> length (lo_private_cidrs lease) \<and> length (lo_private_cidrs lease) \<le> 64 \<and>
    sorted_wrt disjoint_ranges (lo_private_cidrs lease) \<and>
    (\<forall>c\<in>set (lo_private_cidrs lease). \<exists>a p. parse_cidr c = Some (a, p) \<and>
       (if is_ipv4 a then tf_has_ipv4 (lo_tunnel lease) else tf_has_ipv6 (lo_tunnel lease))) \<and>
    tf_interface_name (lo_tunnel lease) \<notin> set (lo_active_mihomo_tun_interfaces lease) \<and>
    tf_instance_id (lo_tunnel lease) = lo_sidecar_instance_id lease \<and>
    tf_operation_id (lo_tunnel lease) = lo_operation_id lease @ ''.prepare'' \<and>
    0 < unat (lo_profile_revision lease) \<and> unat (lo_profile_revision lease) < 2 ^ 63"
proof -
  note ok = assms [unfolded RouteLeaseOwner_validate_def]
  have cidrs: "lo_private_cidrs lease \<noteq> []" "length (lo_private_cidrs lease) \<le> 64"
    "cidrs_are_non_overlapping (lo_private_cidrs lease)"
    "list_all (tunnel_supports_cidr (lo_tunnel lease)) (lo_private_cidrs lease)"
    and facts: "TunnelDeviceFacts_validate (lo_sidecar_instance_id lease)
      (lo_operation_id lease @ ''.prepare'') (lo_tunnel lease) = Ok ()"
    and own: "tf_interface_name (lo_tunnel lease) \<notin> set (lo_active_mihomo_tun_interfaces lease)"
    and rev: "lo_profile_revision lease \<noteq> 0" "lo_profile_revision lease \<le> i64_max"
    using ok by (simp_all add: list_ex_iff split: if_splits) (auto simp: not_less)
  have "sorted_wrt disjoint_ranges (lo_private_cidrs lease)"
    using cidrs(3) no_overlaps_disjoint
    by (auto simp: cidrs_are_non_overlapping_def split: option.splits)
  moreover have "\<exists>a p. parse_cidr c = Some (a, p) \<and>
      (if is_ipv4 a then tf_has_ipv4 (lo_tunnel lease) else tf_has_ipv6 (lo_tunnel lease))"
    if "c \<in> set (lo_private_cidrs lease)" for c
  proof -
    have "tunnel_supports_cidr (lo_tunnel lease) c" using cidrs(4) that by (simp add: list_all_iff)
    then obtain a p where "parse_cidr c = Some (a, p)"
      "case a of V4 _ \<Rightarrow> tf_has_ipv4 (lo_tunnel lease) | V6 _ \<Rightarrow> tf_has_ipv6 (lo_tunnel lease)"
      by (auto simp: tunnel_supports_cidr_def split: option.splits)
    then show ?thesis by (cases a) auto
  qed
  moreover have "tf_instance_id (lo_tunnel lease) = lo_sidecar_instance_id lease \<and>
      tf_operation_id (lo_tunnel lease) = lo_operation_id lease @ ''.prepare''"
    using facts by (auto simp: TunnelDeviceFacts_validate_def TunnelDeviceFacts_validate_owner_def
        split: if_splits)
  moreover have "0 < unat (lo_profile_revision lease)" using rev(1) by (simp add: unat_gt_0)
  moreover have "unat (lo_profile_revision lease) < 2 ^ 63"
    using rev(2) by (simp add: word_le_nat_alt i64_max_def)
  ultimately show ?thesis using cidrs(1,2) own by (cases "lo_private_cidrs lease") simp_all
qed

definition sample_lease :: RouteLeaseOwner where
  "sample_lease =
     \<lparr>lo_protocol_version = ROUTE_HELPER_PROTOCOL_VERSION, lo_lease_id = ''lease-0001'',
      lo_operation_id = ''operation-1'', lo_sidecar_instance_id = ''instance-1'', lo_profile_revision = 7,
      lo_tunnel = \<lparr>tf_interface_name = ''utun7'', tf_mtu = 1420, tf_has_ipv4 = True,
        tf_has_ipv6 = False, tf_instance_id = ''instance-1'', tf_operation_id = ''operation-1.prepare''\<rparr>,
      lo_active_mihomo_tun_interfaces = [''utun9''],
      lo_private_cidrs = [''10.0.0.0/8'']\<rparr>"

lemma sample_lease_valid: "RouteLeaseOwner_validate sample_lease = Ok ()"
proof -
  have ids: "valid_identifier ''lease-0001''" "valid_identifier ''operation-1''"
    "valid_identifier ''instance-1''" "valid_utun_interface ''utun7''" "valid_mihomo_interfaces [''utun9'']"
    by code_simp+
  have rev: "\<not> i64_max < 7" by (simp add: i64_max_def)
  show ?thesis
    using ids rev sample_cidrs(1)
    by (simp add: RouteLeaseOwner_validate_def sample_lease_def helper_valid_cidr_def
        tunnel_supports_cidr_def cidrs_are_non_overlapping_def all_unique_def
        TunnelDeviceFacts_validate_def TunnelDeviceFacts_validate_owner_def)
qed

theorem accepted_lease_witness:
  "tf_interface_name (lo_tunnel sample_lease) \<notin> set (lo_active_mihomo_tun_interfaces sample_lease)"
  using accepted_lease [OF sample_lease_valid] by blast

end
