(* ===== verification/Tunnel_Broker.thy ===== *)
theory Tunnel_Broker
  imports Route_Helper
begin

section \<open>The tunnel broker client\<close>

text \<open>
  \<open>networking/tunnel_broker_client.rs\<close>: the replies of the privileged broker, their decoding, and the
  handle of the one process the broker started.  The broker itself is a record of operations on a state
  \<open>'b\<close>; a reply has the layout of the C structure of the bridge, with the fields of type \<open>i32\<close> as 32-bit
  words read as signed numbers.  File descriptors are their numbers, and dropping one removes it.
  The constructors of the state and error enumerations carry the prefix \<open>Broker\<close>.
\<close>

subsection \<open>Replies\<close>

definition TUNNEL_BROKER_PROTOCOL_VERSION :: u8 where "TUNNEL_BROKER_PROTOCOL_VERSION = 1"
definition MAXIMUM_IDENTIFIER_BYTES :: nat where "MAXIMUM_IDENTIFIER_BYTES = 64"

record TunnelBrokerSessionReference =
  tb_protocol_version :: u8
  tb_generation :: u64
  tb_sidecar_instance_id :: string

definition TunnelBrokerSessionReference_validate ::
  "TunnelBrokerSessionReference \<Rightarrow> unit net_result" where
  "TunnelBrokerSessionReference_validate r =
     (if tb_protocol_version r \<noteq> TUNNEL_BROKER_PROTOCOL_VERSION \<or>
         tb_generation r = 0 \<or>
         i64_max < tb_generation r \<or>
         length (tb_sidecar_instance_id r) < 8 \<or>
         MAXIMUM_IDENTIFIER_BYTES < length (tb_sidecar_instance_id r) \<or>
         \<not> list_all (\<lambda>c. is_ascii_alphanumeric c \<or> c \<in> set ''-._'') (tb_sidecar_instance_id r)
      then Err UnsupportedProtocolVersion else Ok ())"

record NativeReply =
  nr_transport_status :: u32
  nr_protocol_version :: u32
  nr_state :: u32
  nr_error_code :: u32
  nr_broker_generation :: u64
  nr_input_fd :: u32
  nr_output_fd :: u32
  nr_sidecar_instance_id :: "u8 list"

definition NativeReply_failure :: "u32 \<Rightarrow> NativeReply" where
  "NativeReply_failure transport_status =
     \<lparr>nr_transport_status = transport_status, nr_protocol_version = -1, nr_state = -1,
      nr_error_code = -1, nr_broker_generation = 0, nr_input_fd = -1, nr_output_fd = -1,
      nr_sidecar_instance_id = replicate (MAXIMUM_IDENTIFIER_BYTES + 1) 0\<rparr>"

datatype TunnelBrokerState = BrokerIdle | BrokerRunning | BrokerRouteHeld

datatype TunnelBrokerError =
    BrokerInvalidRequest | BrokerUnavailable | BrokerAlreadyRunning | BrokerOwnershipMismatch
  | BrokerStaleGeneration | BrokerRouteHeldError | BrokerHoldMismatch | BrokerLaunchFailed

record TunnelBrokerStatus =
  bt_state :: TunnelBrokerState
  bt_error :: "TunnelBrokerError option"

record 'b TunnelBrokerGeneration =
  tg_start :: "'b \<Rightarrow> NativeReply \<times> 'b"
  tg_status :: "'b \<Rightarrow> NativeReply \<times> 'b"
  tg_stop :: "'b \<Rightarrow> NativeReply \<times> 'b"

subsection \<open>Decoding\<close>

definition owned_fd :: "u32 \<Rightarrow> u32 option" where
  "owned_fd raw = (if sint raw < 0 then None else Some raw)"

text \<open>\<open>std::str::from_utf8\<close>: the byte sequences that encode Unicode scalar values.\<close>

definition continuation :: "u8 \<Rightarrow> bool" where
  "continuation b \<longleftrightarrow> 0x80 \<le> b \<and> b \<le> 0xBF"

definition second3 :: "u8 \<Rightarrow> u8 \<Rightarrow> bool" where
  "second3 a b \<longleftrightarrow>
     (a = 0xE0 \<and> 0xA0 \<le> b \<and> b \<le> 0xBF) \<or> (0xE1 \<le> a \<and> a \<le> 0xEC \<and> continuation b) \<or>
     (a = 0xED \<and> 0x80 \<le> b \<and> b \<le> 0x9F) \<or> (0xEE \<le> a \<and> a \<le> 0xEF \<and> continuation b)"

definition second4 :: "u8 \<Rightarrow> u8 \<Rightarrow> bool" where
  "second4 a b \<longleftrightarrow>
     (a = 0xF0 \<and> 0x90 \<le> b \<and> b \<le> 0xBF) \<or> (0xF1 \<le> a \<and> a \<le> 0xF3 \<and> continuation b) \<or>
     (a = 0xF4 \<and> 0x80 \<le> b \<and> b \<le> 0x8F)"

fun valid_utf8 :: "u8 list \<Rightarrow> bool" where
  "valid_utf8 [] = True"
| "valid_utf8 [a] = (a < 0x80)"
| "valid_utf8 [a, b] =
     (if a < 0x80 then valid_utf8 [b] else 0xC2 \<le> a \<and> a \<le> 0xDF \<and> continuation b)"
| "valid_utf8 [a, b, c] =
     (if a < 0x80 then valid_utf8 [b, c]
      else if 0xC2 \<le> a \<and> a \<le> 0xDF then continuation b \<and> valid_utf8 [c]
      else second3 a b \<and> continuation c)"
| "valid_utf8 (a # b # c # d # s) =
     (if a < 0x80 then valid_utf8 (b # c # d # s)
      else if 0xC2 \<le> a \<and> a \<le> 0xDF then continuation b \<and> valid_utf8 (c # d # s)
      else if 0xE0 \<le> a \<and> a \<le> 0xEF then second3 a b \<and> continuation c \<and> valid_utf8 (d # s)
      else second4 a b \<and> continuation c \<and> continuation d \<and> valid_utf8 s)"

definition from_utf8 :: "u8 list \<Rightarrow> string option" where
  "from_utf8 bytes = (if valid_utf8 bytes then Some (map (\<lambda>b. char_of (unat b)) bytes) else None)"

text \<open>\<open>takeWhile\<close> and \<open>dropWhile\<close> split the field at the first NUL, which must exist.\<close>

definition decode_identifier :: "u8 list \<Rightarrow> string net_result" where
  "decode_identifier raw =
     (case dropWhile (\<lambda>b. b \<noteq> 0) raw of
        [] \<Rightarrow> Err UnsupportedProtocolVersion
      | _ # after_nul \<Rightarrow>
          if takeWhile (\<lambda>b. b \<noteq> 0) raw = [] \<or> list_ex (\<lambda>b. b \<noteq> 0) after_nul
          then Err UnsupportedProtocolVersion
          else ok_or (from_utf8 (takeWhile (\<lambda>b. b \<noteq> 0) raw)) UnsupportedProtocolVersion)"

definition decode_broker_state :: "u32 \<Rightarrow> TunnelBrokerState option" where
  "decode_broker_state s =
     (if s = 0 then Some BrokerIdle else if s = 1 then Some BrokerRunning
      else if s = 2 then Some BrokerRouteHeld else None)"

definition decode_broker_error :: "u32 \<Rightarrow> TunnelBrokerError option option" where
  "decode_broker_error e =
     (if e = 0 then Some None
      else if e = 1 then Some (Some BrokerInvalidRequest)
      else if e = 2 then Some (Some BrokerUnavailable)
      else if e = 3 then Some (Some BrokerAlreadyRunning)
      else if e = 4 then Some (Some BrokerOwnershipMismatch)
      else if e = 5 then Some (Some BrokerStaleGeneration)
      else if e = 6 then Some (Some BrokerRouteHeldError)
      else if e = 7 then Some (Some BrokerHoldMismatch)
      else if e = 8 then Some (Some BrokerLaunchFailed)
      else None)"

definition decode_status_reply :: "NativeReply \<Rightarrow> TunnelBrokerStatus net_result" where
  "decode_status_reply reply =
     (let t = nr_transport_status reply in
      if t = 1 then Err OperationTimedOut
      else if t = 5 then Err UnsupportedProtocolVersion
      else if t = 7 then Err InvalidConfiguration
      else if t = 2 \<or> t = 3 \<or> t = 4 \<or> t = 6 then Err SidecarUnavailable
      else if t \<noteq> 0 then Err UnsupportedProtocolVersion
      else if nr_protocol_version reply \<noteq> ucast TUNNEL_BROKER_PROTOCOL_VERSION
      then Err UnsupportedProtocolVersion
      else case decode_broker_state (nr_state reply) of
        None \<Rightarrow> Err UnsupportedProtocolVersion
      | Some state \<Rightarrow>
     (case decode_broker_error (nr_error_code reply) of
        None \<Rightarrow> Err UnsupportedProtocolVersion
      | Some error \<Rightarrow> Ok \<lparr>bt_state = state, bt_error = error\<rparr>))"

definition map_broker_status_error :: "TunnelBrokerStatus \<Rightarrow> NetworkErrorCode" where
  "map_broker_status_error status =
     (case bt_error status of
        Some BrokerInvalidRequest \<Rightarrow> InvalidConfiguration
      | Some BrokerUnavailable \<Rightarrow> SidecarUnavailable
      | Some BrokerAlreadyRunning \<Rightarrow> InvalidStateTransition
      | Some BrokerOwnershipMismatch \<Rightarrow> PermissionDenied
      | Some BrokerStaleGeneration \<Rightarrow> InvalidStateTransition
      | Some BrokerHoldMismatch \<Rightarrow> InvalidStateTransition
      | Some BrokerRouteHeldError \<Rightarrow> RouteRollbackFailed
      | Some BrokerLaunchFailed \<Rightarrow> TunnelStartFailed
      | None \<Rightarrow> UnsupportedProtocolVersion)"

text \<open>
  The kinds of \<open>io::Error\<close> the client makes.  The message of an error is not modelled.
\<close>

datatype ErrorKind =
    IoTimedOut | IoBrokenPipe | IoPermissionDenied | IoWouldBlock | IoInvalidInput | IoInvalidData
  | IoNotFound

type_synonym 'a broker_io = "(ErrorKind, 'a) result"

definition network_error_to_io :: "NetworkErrorCode \<Rightarrow> ErrorKind" where
  "network_error_to_io e =
     (case e of
        OperationTimedOut \<Rightarrow> IoTimedOut
      | SidecarUnavailable \<Rightarrow> IoBrokenPipe
      | PermissionDenied \<Rightarrow> IoPermissionDenied
      | RouteRollbackFailed \<Rightarrow> IoWouldBlock
      | InvalidConfiguration \<Rightarrow> IoInvalidInput
      | InvalidStateTransition \<Rightarrow> IoInvalidInput
      | _ \<Rightarrow> IoInvalidData)"

definition stale_generation_io_error :: ErrorKind where "stale_generation_io_error = IoNotFound"

record StartedTunnelBrokerSession =
  st_reference :: TunnelBrokerSessionReference
  st_input :: u32
  st_output :: u32

definition decode_start_reply :: "NativeReply \<Rightarrow> StartedTunnelBrokerSession net_result" where
  "decode_start_reply reply =
     (let input = owned_fd (nr_input_fd reply); output = owned_fd (nr_output_fd reply) in
      case decode_status_reply reply of
        Err e \<Rightarrow> Err e
      | Ok status \<Rightarrow>
          if bt_state status \<noteq> BrokerRunning \<or> bt_error status \<noteq> None
          then Err (map_broker_status_error status)
          else
     (case ok_or input UnsupportedProtocolVersion of
        Err e \<Rightarrow> Err e
      | Ok input \<Rightarrow>
     (case ok_or output UnsupportedProtocolVersion of
        Err e \<Rightarrow> Err e
      | Ok output \<Rightarrow>
          if sint (nr_protocol_version reply) < 0 \<or> 255 < sint (nr_protocol_version reply)
          then Err UnsupportedProtocolVersion
          else
     (case decode_identifier (nr_sidecar_instance_id reply) of
        Err e \<Rightarrow> Err e
      | Ok sidecar_instance_id \<Rightarrow>
          let reference = \<lparr>tb_protocol_version = ucast (nr_protocol_version reply),
                           tb_generation = nr_broker_generation reply,
                           tb_sidecar_instance_id = sidecar_instance_id\<rparr> in
          case TunnelBrokerSessionReference_validate reference of
            Err e \<Rightarrow> Err e
          | Ok _ \<Rightarrow> Ok \<lparr>st_reference = reference, st_input = input, st_output = output\<rparr>))))"

subsection \<open>The process the broker started\<close>

record 'b TunnelBrokerProcessControl =
  pc_runtime_generation :: u64
  pc_session :: TunnelBrokerSessionReference
  pc_broker :: 'b
  pc_input :: "u32 option"
  pc_output :: "u32 option"
  pc_reaped :: "bool option"
  pc_recovery_only :: bool

definition TunnelBrokerClient_start ::
  "'b TunnelBrokerGeneration \<Rightarrow> 'b \<Rightarrow> 'b TunnelBrokerProcessControl net_result \<times> 'b" where
  "TunnelBrokerClient_start G b =
     (case tg_start G b of (reply, b) \<Rightarrow>
      case decode_start_reply reply of
        Err e \<Rightarrow> (Err e, b)
      | Ok started \<Rightarrow>
          (Ok \<lparr>pc_runtime_generation = 0, pc_session = st_reference started, pc_broker = b,
               pc_input = Some (st_input started), pc_output = Some (st_output started),
               pc_reaped = None, pc_recovery_only = False\<rparr>, b))"

definition bind_runtime_generation ::
  "u64 \<Rightarrow> 'b TunnelBrokerProcessControl \<Rightarrow> unit net_result \<times> 'b TunnelBrokerProcessControl" where
  "bind_runtime_generation generation p =
     (if generation = 0 \<or> pc_runtime_generation p \<noteq> 0 \<or> pc_reaped p \<noteq> None \<or> pc_recovery_only p
      then (Err InvalidStateTransition, p)
      else (Ok (), p\<lparr>pc_runtime_generation := generation\<rparr>))"

definition enter_recovery_only :: "'b TunnelBrokerProcessControl \<Rightarrow> 'b TunnelBrokerProcessControl" where
  "enter_recovery_only p = p\<lparr>pc_input := None, pc_output := None, pc_recovery_only := True\<rparr>"

definition try_wait_status ::
  "'b TunnelBrokerGeneration \<Rightarrow> 'b TunnelBrokerProcessControl \<Rightarrow>
     bool option broker_io \<times> 'b TunnelBrokerProcessControl" where
  "try_wait_status G p =
     (case pc_reaped p of
        Some success \<Rightarrow> (Ok (Some success), p)
      | None \<Rightarrow>
     (if pc_recovery_only p then (Err stale_generation_io_error, p)
      else case tg_status G (pc_broker p) of (reply, b) \<Rightarrow>
        let p = p\<lparr>pc_broker := b\<rparr> in
      case decode_status_reply reply of
        Err e \<Rightarrow> (Err (network_error_to_io e), enter_recovery_only p)
      | Ok status \<Rightarrow>
          if bt_error status = Some BrokerStaleGeneration
          then (Err stale_generation_io_error, enter_recovery_only p)
          else if bt_state status \<in> {BrokerRunning, BrokerRouteHeld} \<and> bt_error status = None
          then (Ok None, p)
          else (Err (network_error_to_io (map_broker_status_error status)), p)))"

definition kill_owned ::
  "'b TunnelBrokerGeneration \<Rightarrow> 'b TunnelBrokerProcessControl \<Rightarrow>
     unit broker_io \<times> 'b TunnelBrokerProcessControl" where
  "kill_owned G p =
     (if pc_recovery_only p then (Err stale_generation_io_error, p)
      else if pc_reaped p \<noteq> None then (Ok (), p)
      else
        let p = p\<lparr>pc_input := None, pc_output := None\<rparr> in
      case tg_stop G (pc_broker p) of (reply, b) \<Rightarrow>
        let p = p\<lparr>pc_broker := b\<rparr> in
      case decode_status_reply reply of
        Err e \<Rightarrow> (Err (network_error_to_io e), enter_recovery_only p)
      | Ok status \<Rightarrow>
          if bt_error status = Some BrokerStaleGeneration
          then (Err stale_generation_io_error, enter_recovery_only p)
          else if bt_state status = BrokerIdle \<and> bt_error status = None
          then (Ok (), p\<lparr>pc_reaped := Some True\<rparr>)
          else (Err (network_error_to_io (map_broker_status_error status)), p))"

definition take_stdin ::
  "'b TunnelBrokerProcessControl \<Rightarrow> u32 option \<times> 'b TunnelBrokerProcessControl" where
  "take_stdin p = (pc_input p, p\<lparr>pc_input := None\<rparr>)"

definition take_stdout ::
  "'b TunnelBrokerProcessControl \<Rightarrow> u32 option \<times> 'b TunnelBrokerProcessControl" where
  "take_stdout p = (pc_output p, p\<lparr>pc_output := None\<rparr>)"

definition TunnelBrokerProcessControl_drop ::
  "'b TunnelBrokerGeneration \<Rightarrow> 'b TunnelBrokerProcessControl \<Rightarrow> 'b" where
  "TunnelBrokerProcessControl_drop G p =
     pc_broker (if pc_reaped p = None \<and> \<not> pc_recovery_only p then snd (kill_owned G p) else p)"

subsection \<open>The prepared launcher\<close>

record 'b PreparedTunnelBrokerLauncher =
  pl_process :: "'b TunnelBrokerProcessControl option"
  pl_reference :: TunnelBrokerSessionReference

definition PreparedTunnelBrokerLauncher_new ::
  "'b TunnelBrokerProcessControl \<Rightarrow> 'b PreparedTunnelBrokerLauncher" where
  "PreparedTunnelBrokerLauncher_new process =
     \<lparr>pl_process = Some process, pl_reference = pc_session process\<rparr>"

text \<open>The factory of the launcher is an argument: it yields a connected generation or an error.\<close>

definition prepare ::
  "'b TunnelBrokerGeneration \<Rightarrow> 'b net_result \<Rightarrow> 'b PreparedTunnelBrokerLauncher net_result" where
  "prepare G created =
     (case created of
        Err e \<Rightarrow> Err e
      | Ok b \<Rightarrow> map_ok PreparedTunnelBrokerLauncher_new (fst (TunnelBrokerClient_start G b)))"

definition launch ::
  "u64 \<Rightarrow> 'b PreparedTunnelBrokerLauncher \<Rightarrow>
     'b TunnelBrokerProcessControl net_result \<times> 'b PreparedTunnelBrokerLauncher" where
  "launch generation l =
     (case ok_or (pl_process l) InvalidStateTransition of
        Err e \<Rightarrow> (Err e, l)
      | Ok process \<Rightarrow>
     (case bind_runtime_generation generation process of
        (Err e, process) \<Rightarrow> (Err e, l\<lparr>pl_process := Some process\<rparr>)
      | (Ok _, process) \<Rightarrow> (Ok process, l\<lparr>pl_process := None\<rparr>)))"

definition cancel_prepared ::
  "'b TunnelBrokerGeneration \<Rightarrow> 'b PreparedTunnelBrokerLauncher \<Rightarrow>
     unit net_result \<times> 'b PreparedTunnelBrokerLauncher" where
  "cancel_prepared G l =
     (case pl_process l of
        None \<Rightarrow> (Ok (), l)
      | Some process \<Rightarrow>
     (case kill_owned G process of
        (Err _, process) \<Rightarrow> (Err SidecarUnavailable, l\<lparr>pl_process := Some process\<rparr>)
      | (Ok _, process) \<Rightarrow>
     (case try_wait_status G process of
        (Ok (Some _), process) \<Rightarrow> (Ok (), l\<lparr>pl_process := None\<rparr>)
      | (_, process) \<Rightarrow> (Err SidecarUnavailable, l\<lparr>pl_process := Some process\<rparr>))))"

subsection \<open>The start reply\<close>

text \<open>The one reply that carries a reference and two descriptors.\<close>

definition start_reply :: "StartedTunnelBrokerSession \<Rightarrow> NativeReply" where
  "start_reply s =
     (let id = tb_sidecar_instance_id (st_reference s) in
      \<lparr>nr_transport_status = 0, nr_protocol_version = 1, nr_state = 1, nr_error_code = 0,
       nr_broker_generation = tb_generation (st_reference s), nr_input_fd = st_input s,
       nr_output_fd = st_output s,
       nr_sidecar_instance_id = as_bytes id @ replicate (65 - length id) 0\<rparr>)"

lemma valid_utf8_ascii: "list_all (\<lambda>b. b < 0x80) bs \<Longrightarrow> valid_utf8 bs"
  by (induction bs rule: valid_utf8.induct) auto

lemma byte_char: "word_of_nat (of_char (char_of (unat (b :: u8)) :: char)) = b"
proof -
  have "unat b < 256" using unsigned_less [of b] by simp
  then have "of_char (char_of (unat b) :: char) = unat b" by simp
  then show ?thesis by simp
qed

lemma as_bytes_from_utf8: "from_utf8 bs = Some s \<longleftrightarrow> valid_utf8 bs \<and> as_bytes s = bs"
proof -
  have "as_bytes (map (\<lambda>b. char_of (unat b)) bs) = bs"
    unfolding as_bytes_def map_map by (rule map_idI) (simp only: o_apply byte_char)
  then have "as_bytes s = bs \<longleftrightarrow> s = map (\<lambda>b. char_of (unat b)) bs"
    by (metis as_bytes_inject)
  then show ?thesis by (auto simp: from_utf8_def)
qed

lemma length_as_bytes [simp]: "length (as_bytes s) = length s"
  by (simp add: as_bytes_def)

lemma split_at_nul:
  "0 \<notin> set bs \<Longrightarrow> takeWhile (\<lambda>b. b \<noteq> 0) (bs @ 0 # cs) = bs \<and> dropWhile (\<lambda>b. b \<noteq> 0) (bs @ 0 # cs) = 0 # cs"
  for bs :: "u8 list"
  by (induction bs) auto

lemma decode_identifier_Ok:
  assumes "length raw = n"
  shows "decode_identifier raw = Ok s \<longleftrightarrow>
    s \<noteq> [] \<and> 0 \<notin> set (as_bytes s) \<and> valid_utf8 (as_bytes s) \<and> length s < n \<and>
    raw = as_bytes s @ replicate (n - length s) 0"
  (is "?l \<longleftrightarrow> ?r")
proof
  assume l: ?l
  let ?t = "takeWhile (\<lambda>b. b \<noteq> 0) raw"
  from l obtain x zs where d: "dropWhile (\<lambda>b. b \<noteq> 0) raw = x # zs" and t: "?t \<noteq> []"
    "list_all (\<lambda>b. b = 0) zs" "from_utf8 ?t = Some s"
    by (auto simp: decode_identifier_def ok_or_def list_ex_iff list_all_iff
        split: list.splits option.splits if_splits)
  have "x = 0" using d hd_dropWhile [of "\<lambda>b. b \<noteq> 0" raw] by auto
  have z: "zs = replicate (length zs) 0"
    using t(2) by (induction zs) auto
  have s: "as_bytes s = ?t" "valid_utf8 ?t" using t(3) by (simp_all add: as_bytes_from_utf8)
  have "raw = ?t @ x # zs" using d by (metis takeWhile_dropWhile_id)
  then have raw: "raw = as_bytes s @ 0 # zs" using s(1) \<open>x = 0\<close> by simp
  then have n: "n - length s = Suc (length zs)" "length s < n" using assms by auto
  moreover have "0 \<notin> set ?t" by (auto dest: set_takeWhileD)
  moreover have "raw = as_bytes s @ replicate (n - length s) 0"
    using raw z n(1) by simp
  ultimately show ?r using s t(1) by (auto simp: as_bytes_def)
next
  assume r: ?r
  then have "raw = as_bytes s @ 0 # replicate (n - length s - 1) 0"
    by (metis Suc_diff_1 replicate_Suc zero_less_diff)
  then show ?l
    using r split_at_nul [of "as_bytes s" "replicate (n - length s - 1) 0"] as_bytes_from_utf8 [of "as_bytes s" s]
    by (auto simp: decode_identifier_def ok_or_def list_ex_iff as_bytes_def)
qed

lemma reference_bytes:
  assumes "TunnelBrokerSessionReference_validate r = Ok ()"
  defines "bs \<equiv> as_bytes (tb_sidecar_instance_id r)"
  shows "list_all (\<lambda>b. b < 0x80) bs \<and> 0 \<notin> set bs \<and> bs \<noteq> [] \<and> length bs < 65"
proof -
  have b: "(word_of_nat (of_char c) :: u8) < 0x80 \<and> (word_of_nat (of_char c) :: u8) \<noteq> 0"
    if "is_ascii_alphanumeric c \<or> c \<in> set ''-._''" for c
  proof -
    have "of_char c < (128 :: nat)" "of_char c \<noteq> (0 :: nat)"
      using that by (auto simp: char_class_defs)
    then show ?thesis
      using unat_as_byte [of c] by (auto simp: word_less_nat_alt)
  qed
  have "list_all (\<lambda>c. is_ascii_alphanumeric c \<or> c \<in> set ''-._'') (tb_sidecar_instance_id r)"
    and l: "\<not> length (tb_sidecar_instance_id r) < 8" "\<not> 64 < length (tb_sidecar_instance_id r)"
    using assms(1) unfolding TunnelBrokerSessionReference_validate_def MAXIMUM_IDENTIFIER_BYTES_def
    by (auto split: if_splits)
  then have "list_all (\<lambda>b. b < 0x80 \<and> b \<noteq> 0) bs"
    unfolding bs_def as_bytes_def list_all_iff using b by fastforce
  moreover have "length bs = length (tb_sidecar_instance_id r)" by (simp add: bs_def)
  ultimately show ?thesis using l by (auto simp: list_all_iff)
qed

lemma decode_status_running:
  "(\<exists>st. decode_status_reply reply = Ok st \<and> bt_state st = BrokerRunning \<and> bt_error st = None) \<longleftrightarrow>
     nr_transport_status reply = 0 \<and> nr_protocol_version reply = 1 \<and> nr_state reply = 1 \<and>
     nr_error_code reply = 0"
  by (auto simp: decode_status_reply_def decode_broker_state_def decode_broker_error_def Let_def
      TUNNEL_BROKER_PROTOCOL_VERSION_def split: option.splits if_splits)

text \<open>
  Claim C17. A start reply is decoded exactly: a reply whose identifier field has its 65 bytes yields a
  session if and only if the session has a valid reference and two open descriptors and the reply is
  the one image of it, with the identifier terminated and padded by NUL bytes.  So no two replies give
  the same session, every valid reference fits the field, and nothing in the reply is ignored.
\<close>

theorem start_reply_decodes_exactly:
  assumes "length (nr_sidecar_instance_id reply) = MAXIMUM_IDENTIFIER_BYTES + 1"
  shows "decode_start_reply reply = Ok s \<longleftrightarrow>
    TunnelBrokerSessionReference_validate (st_reference s) = Ok () \<and>
    0 \<le> sint (st_input s) \<and> 0 \<le> sint (st_output s) \<and> reply = start_reply s"
  (is "?l \<longleftrightarrow> ?r")
proof
  assume l: ?l
  then obtain st where st: "decode_status_reply reply = Ok st" "bt_state st = BrokerRunning" "bt_error st = None"
    by (auto simp: decode_start_reply_def Let_def split: result.splits if_splits)
  then have f: "nr_transport_status reply = 0" "nr_protocol_version reply = 1" "nr_state reply = 1"
    "nr_error_code reply = 0"
    using decode_status_running [of reply] by blast+
  with l st obtain id where id: "decode_identifier (nr_sidecar_instance_id reply) = Ok id"
    and s: "st_reference s = \<lparr>tb_protocol_version = 1, tb_generation = nr_broker_generation reply,
                              tb_sidecar_instance_id = id\<rparr>"
    "TunnelBrokerSessionReference_validate (st_reference s) = Ok ()"
    "owned_fd (nr_input_fd reply) = Some (st_input s)" "owned_fd (nr_output_fd reply) = Some (st_output s)"
    by (auto simp: decode_start_reply_def Let_def ok_or_def split: result.splits if_splits option.splits)
  from id assms have "nr_sidecar_instance_id reply = as_bytes id @ replicate (65 - length id) 0"
    by (simp add: decode_identifier_Ok MAXIMUM_IDENTIFIER_BYTES_def)
  then have "reply = start_reply s"
    using f s by (cases reply) (simp add: start_reply_def Let_def owned_fd_def split: if_splits)
  then show ?r using s by (auto simp: owned_fd_def split: if_splits)
next
  assume r: ?r
  let ?id = "tb_sidecar_instance_id (st_reference s)"
  note b = reference_bytes [of "st_reference s"]
  have "decode_identifier (nr_sidecar_instance_id reply) = Ok ?id"
    using r b valid_utf8_ascii [of "as_bytes ?id"] assms
    by (subst decode_identifier_Ok [of _ 65])
      (auto simp: start_reply_def Let_def MAXIMUM_IDENTIFIER_BYTES_def as_bytes_def)
  moreover have "tb_protocol_version (st_reference s) = 1"
    using r by (auto simp: TunnelBrokerSessionReference_validate_def TUNNEL_BROKER_PROTOCOL_VERSION_def
        split: if_splits)
  moreover have "decode_status_reply reply = Ok \<lparr>bt_state = BrokerRunning, bt_error = None\<rparr>"
    using r by (simp add: start_reply_def Let_def decode_status_reply_def decode_broker_state_def
        decode_broker_error_def TUNNEL_BROKER_PROTOCOL_VERSION_def)
  ultimately show ?l
    using r by (cases s, cases "st_reference s")
      (simp add: decode_start_reply_def start_reply_def Let_def owned_fd_def ok_or_def)
qed

subsection \<open>The life of the process handle\<close>

inductive process_step ::
  "'b TunnelBrokerGeneration \<Rightarrow> 'b TunnelBrokerProcessControl \<Rightarrow> 'b TunnelBrokerProcessControl \<Rightarrow> bool"
  for G where
  step_bind: "process_step G p (snd (bind_runtime_generation n p))"
| step_wait: "process_step G p (snd (try_wait_status G p))"
| step_kill: "process_step G p (snd (kill_owned G p))"
| step_stdin: "process_step G p (snd (take_stdin p))"
| step_stdout: "process_step G p (snd (take_stdout p))"

definition broker_confirmed_stop :: "'b TunnelBrokerGeneration \<Rightarrow> 'b \<Rightarrow> bool" where
  "broker_confirmed_stop G b \<longleftrightarrow>
     (\<exists>b0 reply status. tg_stop G b0 = (reply, b) \<and> decode_status_reply reply = Ok status \<and>
        bt_state status = BrokerIdle \<and> bt_error status = None)"

definition process_inv :: "'b TunnelBrokerGeneration \<Rightarrow> 'b TunnelBrokerProcessControl \<Rightarrow> bool" where
  "process_inv G p \<longleftrightarrow>
     (pc_recovery_only p \<longrightarrow> pc_reaped p = None \<and> pc_input p = None \<and> pc_output p = None) \<and>
     (pc_reaped p \<noteq> None \<longrightarrow> pc_reaped p = Some True \<and> pc_input p = None \<and> pc_output p = None \<and>
        broker_confirmed_stop G (pc_broker p))"

lemma process_step_inv: "process_step G p q \<Longrightarrow> process_inv G p \<Longrightarrow> process_inv G q"
proof (induction rule: process_step.induct)
  case (step_kill p)
  then show ?case
    by (auto simp: kill_owned_def Let_def enter_recovery_only_def process_inv_def broker_confirmed_stop_def
        split: prod.splits result.splits)
qed (auto simp: process_inv_def bind_runtime_generation_def try_wait_status_def enter_recovery_only_def
    Let_def take_stdin_def take_stdout_def split: prod.splits result.splits option.splits)

lemma process_step_session: "process_step G p q \<Longrightarrow> pc_session q = pc_session p"
  by (induction rule: process_step.induct)
    (auto simp: bind_runtime_generation_def try_wait_status_def kill_owned_def enter_recovery_only_def
      Let_def take_stdin_def take_stdout_def split: prod.splits result.splits option.splits)

lemma process_step_generation:
  "process_step G p q \<Longrightarrow> pc_runtime_generation p \<noteq> 0 \<Longrightarrow> pc_runtime_generation q = pc_runtime_generation p"
  by (induction rule: process_step.induct)
    (auto simp: bind_runtime_generation_def try_wait_status_def kill_owned_def enter_recovery_only_def
      Let_def take_stdin_def take_stdout_def split: prod.splits result.splits option.splits)

text \<open>A quarantined or reaped handle is never changed again, and the broker is not called.\<close>

lemma process_step_final:
  "process_step G p q \<Longrightarrow> process_inv G p \<Longrightarrow> pc_recovery_only p \<or> pc_reaped p \<noteq> None \<Longrightarrow> q = p"
  by (induction rule: process_step.induct)
    (auto simp: process_inv_def bind_runtime_generation_def try_wait_status_def kill_owned_def
      take_stdin_def take_stdout_def split: option.splits)

lemma TunnelBrokerClient_start_Ok:
  assumes "TunnelBrokerClient_start G b = (Ok p, b')"
  shows "process_inv G p \<and> TunnelBrokerSessionReference_validate (pc_session p) = Ok () \<and>
    pc_runtime_generation p = 0"
  using assms
  by (auto simp: TunnelBrokerClient_start_def decode_start_reply_def process_inv_def Let_def
      split: prod.splits result.splits if_splits)

lemma process_steps_inv:
  "(process_step G)\<^sup>*\<^sup>* p q \<Longrightarrow> process_inv G p \<Longrightarrow> process_inv G q \<and> pc_session q = pc_session p"
  by (induction rule: rtranclp_induct) (auto dest: process_step_inv process_step_session)

lemma process_steps_final:
  "(process_step G)\<^sup>*\<^sup>* p q \<Longrightarrow> process_inv G p \<Longrightarrow> pc_recovery_only p \<or> pc_reaped p \<noteq> None \<Longrightarrow> q = p"
  by (induction rule: rtranclp_induct) (auto dest: process_step_final)

lemma process_steps_generation:
  "(process_step G)\<^sup>*\<^sup>* p q \<Longrightarrow> pc_runtime_generation p \<noteq> 0 \<Longrightarrow> pc_runtime_generation q = pc_runtime_generation p"
  by (induction rule: rtranclp_induct) (auto dest: process_step_generation)

text \<open>
  A reply that says nothing certain about the child: it does not decode, or the broker does not know this
  generation any more.
\<close>

definition uncertain :: "NativeReply \<Rightarrow> bool" where
  "uncertain reply \<longleftrightarrow>
     (case decode_status_reply reply of Err _ \<Rightarrow> True | Ok status \<Rightarrow> bt_error status = Some BrokerStaleGeneration)"

text \<open>A handle on which no call does anything any more: the broker is not reached and nothing is claimed.\<close>

definition frozen :: "'b TunnelBrokerGeneration \<Rightarrow> 'b TunnelBrokerProcessControl \<Rightarrow> bool" where
  "frozen G p \<longleftrightarrow>
     pc_input p = None \<and> pc_output p = None \<and> (\<forall>q. (process_step G)\<^sup>*\<^sup>* p q \<longrightarrow> q = p) \<and>
     fst (try_wait_status G p) = Err stale_generation_io_error \<and>
     fst (kill_owned G p) = Err stale_generation_io_error \<and>
     TunnelBrokerProcessControl_drop G p = pc_broker p \<and>
     (\<forall>n. fst (launch n (PreparedTunnelBrokerLauncher_new p)) = Err InvalidStateTransition) \<and>
     fst (cancel_prepared G (PreparedTunnelBrokerLauncher_new p)) = Err SidecarUnavailable"

lemma recovery_only_frozen:
  assumes "process_inv G p" and "pc_recovery_only p"
  shows "frozen G p"
proof -
  have "pc_reaped p = None" "pc_input p = None" "pc_output p = None"
    using assms by (simp_all add: process_inv_def)
  with assms(2) show ?thesis
    using process_steps_final [OF _ assms(1)]
    by (simp add: frozen_def try_wait_status_def kill_owned_def TunnelBrokerProcessControl_drop_def launch_def
        PreparedTunnelBrokerLauncher_new_def cancel_prepared_def bind_runtime_generation_def ok_or_def)
qed

lemma uncertain_reply_quarantines:
  assumes "pc_reaped p = None"
  shows "uncertain (fst (tg_status G (pc_broker p))) \<Longrightarrow> pc_recovery_only (snd (try_wait_status G p))"
    and "uncertain (fst (tg_stop G (pc_broker p))) \<Longrightarrow> pc_recovery_only (snd (kill_owned G p))"
  using assms
  by (auto simp: uncertain_def try_wait_status_def kill_owned_def enter_recovery_only_def Let_def
      split: prod.splits result.splits)

text \<open>
  Claim C18. For every broker, and after every sequence of calls on the handle of a started process: the
  handle still names the valid session the broker assigned; the child is reported as reaped only if
  the broker confirmed its stop by an idle reply without error; the runtime generation is bound once;
  and when the reply to a wait or to a kill cannot be decoded or reports a stale generation, the handle
  is frozen from then on: its descriptors are closed, no later call changes it or reaches the broker,
  waiting and killing fail, no launch is possible, and dropping it does nothing.
\<close>

theorem process_handle_is_sound:
  assumes "TunnelBrokerClient_start G b = (Ok p0, b')" and "(process_step G)\<^sup>*\<^sup>* p0 p"
    and "(process_step G)\<^sup>*\<^sup>* p q"
  shows "pc_session p = pc_session p0 \<and> TunnelBrokerSessionReference_validate (pc_session p) = Ok () \<and>
    (\<forall>success. fst (try_wait_status G p) = Ok (Some success) \<longrightarrow>
       success \<and> broker_confirmed_stop G (pc_broker p)) \<and>
    (fst (kill_owned G p) = Ok () \<longrightarrow> broker_confirmed_stop G (pc_broker (snd (kill_owned G p)))) \<and>
    (pc_runtime_generation p \<noteq> 0 \<longrightarrow> pc_runtime_generation q = pc_runtime_generation p) \<and>
    (pc_reaped p = None \<longrightarrow>
       (uncertain (fst (tg_status G (pc_broker p))) \<longrightarrow> frozen G (snd (try_wait_status G p))) \<and>
       (uncertain (fst (tg_stop G (pc_broker p))) \<longrightarrow> frozen G (snd (kill_owned G p))))"
proof -
  note s = TunnelBrokerClient_start_Ok [OF assms(1)]
  with process_steps_inv [OF assms(2)] have p: "process_inv G p" "pc_session p = pc_session p0" by auto
  have wait: "success \<and> broker_confirmed_stop G (pc_broker p)"
    if "fst (try_wait_status G p) = Ok (Some success)" for success
    using that p(1) by (auto simp: try_wait_status_def process_inv_def Let_def
        split: option.splits if_splits prod.splits result.splits)
  have kill: "broker_confirmed_stop G (pc_broker (snd (kill_owned G p)))" if "fst (kill_owned G p) = Ok ()"
  proof -
    have "process_inv G (snd (kill_owned G p))" by (rule process_step_inv [OF step_kill p(1)])
    moreover have "pc_reaped (snd (kill_owned G p)) \<noteq> None"
      using that by (auto simp: kill_owned_def Let_def split: if_splits prod.splits result.splits)
    ultimately show ?thesis by (auto simp: process_inv_def)
  qed
  have "frozen G (snd (try_wait_status G p))"
    if "pc_reaped p = None" "uncertain (fst (tg_status G (pc_broker p)))"
    by (rule recovery_only_frozen [OF process_step_inv [OF step_wait p(1)] uncertain_reply_quarantines(1) [OF that]])
  moreover have "frozen G (snd (kill_owned G p))"
    if "pc_reaped p = None" "uncertain (fst (tg_stop G (pc_broker p)))"
    by (rule recovery_only_frozen [OF process_step_inv [OF step_kill p(1)] uncertain_reply_quarantines(2) [OF that]])
  ultimately show ?thesis using s p(2) wait kill process_steps_generation [OF assms(3)] by auto
qed

subsection \<open>Witnesses\<close>

text \<open>A broker whose child runs until it is stopped; its state says whether the next reply is lost.\<close>

definition sample_session :: StartedTunnelBrokerSession where
  "sample_session =
     \<lparr>st_reference = \<lparr>tb_protocol_version = 1, tb_generation = 91, tb_sidecar_instance_id = ''instance-1''\<rparr>,
      st_input = 3, st_output = 4\<rparr>"

definition sample_broker :: "bool TunnelBrokerGeneration" where
  "sample_broker =
     \<lparr>tg_start = (\<lambda>lost. (start_reply sample_session, lost)),
      tg_status = (\<lambda>lost. (if lost then NativeReply_failure 1 else start_reply sample_session, lost)),
      tg_stop = (\<lambda>lost. (if lost then NativeReply_failure 1
        else (start_reply sample_session)\<lparr>nr_state := 0\<rparr>, lost))\<rparr>"

lemma sample_reference_valid:
  "TunnelBrokerSessionReference_validate (st_reference sample_session) = Ok ()"
  by code_simp

theorem start_reply_decodes_exactly_witness:
  "decode_start_reply (start_reply sample_session) = Ok sample_session"
proof -
  have "length (nr_sidecar_instance_id (start_reply sample_session)) = MAXIMUM_IDENTIFIER_BYTES + 1"
    "0 \<le> sint (st_input sample_session)" "0 \<le> sint (st_output sample_session)"
    by code_simp+
  then show ?thesis using start_reply_decodes_exactly sample_reference_valid by blast
qed

definition sample_process :: "bool \<Rightarrow> bool TunnelBrokerProcessControl" where
  "sample_process lost =
     \<lparr>pc_runtime_generation = 0, pc_session = st_reference sample_session, pc_broker = lost,
      pc_input = Some 3, pc_output = Some 4, pc_reaped = None, pc_recovery_only = False\<rparr>"

lemma sample_process_started:
  "TunnelBrokerClient_start sample_broker lost = (Ok (sample_process lost), lost)"
proof -
  have "decode_start_reply (start_reply sample_session) = Ok sample_session" by code_simp
  then show ?thesis
    by (simp add: TunnelBrokerClient_start_def sample_broker_def sample_process_def)
      (simp add: sample_session_def)
qed

text \<open>The stop is confirmed by a broker that answers; a lost reply freezes the handle.\<close>

theorem process_handle_is_sound_witness:
  "broker_confirmed_stop sample_broker (pc_broker (snd (kill_owned sample_broker (sample_process False)))) \<and>
   frozen sample_broker (snd (try_wait_status sample_broker (sample_process True))) \<and>
   frozen sample_broker (snd (kill_owned sample_broker (sample_process True)))"
proof -
  note sound = process_handle_is_sound [OF sample_process_started rtranclp.rtrancl_refl rtranclp.rtrancl_refl]
  have "fst (kill_owned sample_broker (sample_process False)) = Ok ()"
    and "uncertain (fst (tg_status sample_broker (pc_broker (sample_process True))))"
    and "uncertain (fst (tg_stop sample_broker (pc_broker (sample_process True))))"
    and "pc_reaped (sample_process True) = None"
    by code_simp+
  with sound [of False] sound [of True] show ?thesis by blast
qed

end
