(* ===== verification/Route_Helper_V3.thy ===== *)
theory Route_Helper_V3
  imports Route_Helper
begin

section \<open>The lease journal of the broker-bound helper\<close>

text \<open>
  \<open>networking/route_helper_v3.rs\<close>: the owner tuple of a route lease bound to a tunnel broker session,
  and the journal record that moves it through hold, application, retirement and release.  Generations
  and transition counters are 64-bit words.  Constructors that another datatype of the development
  already has carry the suffix \<open>V3\<close>.
\<close>

subsection \<open>Errors and versions\<close>

definition ROUTE_HELPER_V3_PROTOCOL_VERSION :: u8 where "ROUTE_HELPER_V3_PROTOCOL_VERSION = 3"
definition ROUTE_BROKER_PROTOCOL_VERSION :: u8 where "ROUTE_BROKER_PROTOCOL_VERSION = 1"
definition ROUTE_HELPER_V2_PROTOCOL_VERSION :: u8 where "ROUTE_HELPER_V2_PROTOCOL_VERSION = 2"

lemmas v3_versions = ROUTE_HELPER_V3_PROTOCOL_VERSION_def ROUTE_BROKER_PROTOCOL_VERSION_def
  ROUTE_HELPER_V2_PROTOCOL_VERSION_def

datatype RouteLeaseContractError =
    UnsupportedProtocolVersionV3 | InvalidConfigurationV3 | OwnershipMismatch | RecoveryOnly
  | ReplayDetected | InvalidStateTransitionV3

type_synonym 'a lease_result = "(RouteLeaseContractError, 'a) result"

fun network_code :: "RouteLeaseContractError \<Rightarrow> NetworkErrorCode" where
  "network_code UnsupportedProtocolVersionV3 = UnsupportedProtocolVersion"
| "network_code RecoveryOnly = UnsupportedProtocolVersion"
| "network_code InvalidConfigurationV3 = InvalidConfiguration"
| "network_code OwnershipMismatch = AuthenticationFailed"
| "network_code ReplayDetected = AuthenticationFailed"
| "network_code InvalidStateTransitionV3 = InvalidStateTransition"

definition from_network_error :: "NetworkErrorCode \<Rightarrow> RouteLeaseContractError" where
  "from_network_error e =
     (case e of
        UnsupportedProtocolVersion \<Rightarrow> UnsupportedProtocolVersionV3
      | AuthenticationFailed \<Rightarrow> OwnershipMismatch
      | PolicySignatureInvalid \<Rightarrow> OwnershipMismatch
      | InvalidStateTransition \<Rightarrow> InvalidStateTransitionV3
      | _ \<Rightarrow> InvalidConfigurationV3)"

definition wrong_version :: "u8 \<Rightarrow> RouteLeaseContractError" where
  "wrong_version v =
     (if v = ROUTE_HELPER_V2_PROTOCOL_VERSION then RecoveryOnly else UnsupportedProtocolVersionV3)"

subsection \<open>The owner tuple\<close>

record RouteBrokerSessionReference =
  bs_broker_protocol_version :: u8
  bs_broker_generation :: u64
  bs_sidecar_instance_id :: string

definition RouteBrokerSessionReference_validate :: "RouteBrokerSessionReference \<Rightarrow> unit lease_result" where
  "RouteBrokerSessionReference_validate b =
     (if bs_broker_protocol_version b \<noteq> ROUTE_BROKER_PROTOCOL_VERSION \<or>
         bs_broker_generation b = 0 \<or> i64_max < bs_broker_generation b \<or>
         \<not> valid_ipc_id (bs_sidecar_instance_id b)
      then Err InvalidConfigurationV3 else Ok ())"

record RouteLeaseBinding =
  lb_broker_protocol_version :: u8
  lb_broker_generation :: u64
  lb_sidecar_instance_id :: string
  lb_lease_id :: string
  lb_operation_id :: string

definition from_broker :: "RouteBrokerSessionReference \<Rightarrow> string \<Rightarrow> string \<Rightarrow> RouteLeaseBinding" where
  "from_broker broker lease_id operation_id =
     \<lparr>lb_broker_protocol_version = bs_broker_protocol_version broker,
      lb_broker_generation = bs_broker_generation broker,
      lb_sidecar_instance_id = bs_sidecar_instance_id broker,
      lb_lease_id = lease_id, lb_operation_id = operation_id\<rparr>"

definition RouteLeaseBinding_validate :: "RouteLeaseBinding \<Rightarrow> unit lease_result" where
  "RouteLeaseBinding_validate b =
     (case RouteBrokerSessionReference_validate
        \<lparr>bs_broker_protocol_version = lb_broker_protocol_version b,
         bs_broker_generation = lb_broker_generation b,
         bs_sidecar_instance_id = lb_sidecar_instance_id b\<rparr> of
        Err e \<Rightarrow> Err e
      | Ok _ \<Rightarrow>
          if \<not> valid_ipc_id (lb_lease_id b) \<or> \<not> valid_ipc_id (lb_operation_id b)
          then Err InvalidConfigurationV3 else Ok ())"

definition RouteLeaseBinding_matches :: "RouteLeaseBinding \<Rightarrow> RouteLeaseBinding \<Rightarrow> bool" where
  "RouteLeaseBinding_matches other self \<longleftrightarrow> self = other"

record RouteLeaseOwnerV3 =
  ow_protocol_version :: u8
  ow_broker_protocol_version :: u8
  ow_broker_generation :: u64
  ow_sidecar_instance_id :: string
  ow_lease_id :: string
  ow_operation_id :: string
  ow_profile_revision :: u64
  ow_tunnel :: TunnelDeviceFacts
  ow_active_mihomo_tun_interfaces :: "string list"
  ow_private_cidrs :: "string list"

definition RouteLeaseOwnerV3_binding :: "RouteLeaseOwnerV3 \<Rightarrow> RouteLeaseBinding" where
  "RouteLeaseOwnerV3_binding w =
     \<lparr>lb_broker_protocol_version = ow_broker_protocol_version w,
      lb_broker_generation = ow_broker_generation w,
      lb_sidecar_instance_id = ow_sidecar_instance_id w,
      lb_lease_id = ow_lease_id w, lb_operation_id = ow_operation_id w\<rparr>"

text \<open>The legacy owner that \<open>validate\<close> builds to reuse the checks of the version 2 lease.\<close>

definition legacy_owner :: "RouteLeaseOwnerV3 \<Rightarrow> RouteLeaseOwner" where
  "legacy_owner w =
     \<lparr>lo_protocol_version = ROUTE_HELPER_PROTOCOL_VERSION, lo_lease_id = ow_lease_id w,
      lo_operation_id = ow_operation_id w, lo_sidecar_instance_id = ow_sidecar_instance_id w,
      lo_profile_revision = ow_profile_revision w, lo_tunnel = ow_tunnel w,
      lo_active_mihomo_tun_interfaces = ow_active_mihomo_tun_interfaces w,
      lo_private_cidrs = ow_private_cidrs w\<rparr>"

definition RouteLeaseOwnerV3_validate :: "RouteLeaseOwnerV3 \<Rightarrow> unit lease_result" where
  "RouteLeaseOwnerV3_validate w =
     (if ow_protocol_version w \<noteq> ROUTE_HELPER_V3_PROTOCOL_VERSION
      then Err (wrong_version (ow_protocol_version w))
      else case RouteLeaseBinding_validate (RouteLeaseOwnerV3_binding w) of
        Err e \<Rightarrow> Err e
      | Ok _ \<Rightarrow>
     (case map_err from_network_error (RouteLeaseOwner_validate (legacy_owner w)) of
        Err e \<Rightarrow> Err e
      | Ok _ \<Rightarrow>
          if tf_instance_id (ow_tunnel w) \<noteq> ow_sidecar_instance_id w then Err OwnershipMismatch
          else Ok ()))"

record RouteLeaseReferenceV3 =
  rf_protocol_version :: u8
  rf_broker_protocol_version :: u8
  rf_broker_generation :: u64
  rf_sidecar_instance_id :: string
  rf_lease_id :: string
  rf_operation_id :: string

definition from_owner :: "RouteLeaseOwnerV3 \<Rightarrow> RouteLeaseReferenceV3" where
  "from_owner w =
     \<lparr>rf_protocol_version = ow_protocol_version w,
      rf_broker_protocol_version = ow_broker_protocol_version w,
      rf_broker_generation = ow_broker_generation w,
      rf_sidecar_instance_id = ow_sidecar_instance_id w,
      rf_lease_id = ow_lease_id w, rf_operation_id = ow_operation_id w\<rparr>"

definition RouteLeaseReferenceV3_binding :: "RouteLeaseReferenceV3 \<Rightarrow> RouteLeaseBinding" where
  "RouteLeaseReferenceV3_binding r =
     \<lparr>lb_broker_protocol_version = rf_broker_protocol_version r,
      lb_broker_generation = rf_broker_generation r,
      lb_sidecar_instance_id = rf_sidecar_instance_id r,
      lb_lease_id = rf_lease_id r, lb_operation_id = rf_operation_id r\<rparr>"

definition RouteLeaseReferenceV3_validate :: "RouteLeaseReferenceV3 \<Rightarrow> unit lease_result" where
  "RouteLeaseReferenceV3_validate r =
     (if rf_protocol_version r \<noteq> ROUTE_HELPER_V3_PROTOCOL_VERSION
      then Err (wrong_version (rf_protocol_version r))
      else RouteLeaseBinding_validate (RouteLeaseReferenceV3_binding r))"

definition matches_owner :: "RouteLeaseOwnerV3 \<Rightarrow> RouteLeaseReferenceV3 \<Rightarrow> unit lease_result" where
  "matches_owner owner r =
     (case RouteLeaseReferenceV3_validate r of
        Err e \<Rightarrow> Err e
      | Ok _ \<Rightarrow>
     (case RouteLeaseOwnerV3_validate owner of
        Err e \<Rightarrow> Err e
      | Ok _ \<Rightarrow> if r \<noteq> from_owner owner then Err OwnershipMismatch else Ok ()))"

subsection \<open>The journal record\<close>

datatype RouteLeaseJournalState =
    HoldPending | Held | AppliedV3 | RetirementPending | Released | RecoveryOnlyState

definition is_recovery_only :: "RouteLeaseJournalState \<Rightarrow> bool" where
  "is_recovery_only s \<longleftrightarrow> s = RecoveryOnlyState"

definition permits_route_mutation :: "RouteLeaseJournalState \<Rightarrow> bool" where
  "permits_route_mutation s \<longleftrightarrow> s = Held"

record RouteLeaseJournalRecord =
  jr_protocol_version :: u8
  jr_state :: RouteLeaseJournalState
  jr_transition :: u64
  jr_owner :: RouteLeaseOwnerV3

record RouteLeaseTransition =
  lt_protocol_version :: u8
  lt_from_state :: RouteLeaseJournalState
  lt_to_state :: RouteLeaseJournalState
  lt_transition :: u64
  lt_reference :: RouteLeaseReferenceV3

definition hold_pending :: "RouteLeaseOwnerV3 \<Rightarrow> RouteLeaseJournalRecord lease_result" where
  "hold_pending owner =
     (case RouteLeaseOwnerV3_validate owner of
        Err e \<Rightarrow> Err e
      | Ok _ \<Rightarrow> Ok \<lparr>jr_protocol_version = ROUTE_HELPER_V3_PROTOCOL_VERSION, jr_state = HoldPending,
                    jr_transition = 1, jr_owner = owner\<rparr>)"

definition transition_shape_is_valid :: "RouteLeaseJournalState \<Rightarrow> u64 \<Rightarrow> bool" where
  "transition_shape_is_valid s n =
     (case s of
        HoldPending \<Rightarrow> n = 1
      | Held \<Rightarrow> n = 2
      | AppliedV3 \<Rightarrow> n = 3
      | RetirementPending \<Rightarrow> 2 \<le> n \<and> n \<le> 4
      | Released \<Rightarrow> 3 \<le> n \<and> n \<le> 5
      | RecoveryOnlyState \<Rightarrow> False)"

definition RouteLeaseJournalRecord_validate :: "RouteLeaseJournalRecord \<Rightarrow> unit lease_result" where
  "RouteLeaseJournalRecord_validate j =
     (if jr_protocol_version j \<noteq> ROUTE_HELPER_V3_PROTOCOL_VERSION
      then Err (wrong_version (jr_protocol_version j))
      else if jr_transition j = 0 then Err InvalidConfigurationV3
      else if jr_state j = RecoveryOnlyState then Err RecoveryOnly
      else if \<not> transition_shape_is_valid (jr_state j) (jr_transition j) then Err ReplayDetected
      else RouteLeaseOwnerV3_validate (jr_owner j))"

definition require_reference :: "RouteLeaseReferenceV3 \<Rightarrow> RouteLeaseJournalRecord \<Rightarrow> unit lease_result" where
  "require_reference reference j =
     (case RouteLeaseJournalRecord_validate j of
        Err e \<Rightarrow> Err e | Ok _ \<Rightarrow> matches_owner (jr_owner j) reference)"

definition valid_transition :: "RouteLeaseJournalState \<Rightarrow> RouteLeaseJournalState \<Rightarrow> bool" where
  "valid_transition current next_state \<longleftrightarrow>
     (current, next_state) \<in>
       {(HoldPending, Held), (HoldPending, RetirementPending), (Held, AppliedV3),
        (Held, RetirementPending), (AppliedV3, RetirementPending), (RetirementPending, Released)}"

definition apply_transition ::
  "RouteLeaseTransition \<Rightarrow> RouteLeaseJournalRecord \<Rightarrow> RouteLeaseJournalRecord lease_result" where
  "apply_transition event j =
     (case require_reference (lt_reference event) j of
        Err e \<Rightarrow> Err e
      | Ok _ \<Rightarrow>
          if lt_protocol_version event \<noteq> ROUTE_HELPER_V3_PROTOCOL_VERSION \<or>
             lt_from_state event \<noteq> jr_state j \<or>
             lt_transition event \<noteq> saturating_add (jr_transition j) 1
          then Err ReplayDetected
          else if \<not> valid_transition (jr_state j) (lt_to_state event)
          then Err (if jr_state j = lt_to_state event then ReplayDetected else InvalidStateTransitionV3)
          else Ok \<lparr>jr_protocol_version = jr_protocol_version j, jr_state = lt_to_state event,
                   jr_transition = lt_transition event, jr_owner = jr_owner j\<rparr>)"

definition transition ::
  "RouteLeaseJournalState \<Rightarrow> RouteLeaseReferenceV3 \<Rightarrow> RouteLeaseJournalRecord \<Rightarrow>
     RouteLeaseJournalRecord lease_result" where
  "transition next_state reference j =
     (case ok_or (checked_add (jr_transition j) 1) InvalidStateTransitionV3 of
        Err e \<Rightarrow> Err e
      | Ok n \<Rightarrow> apply_transition
          \<lparr>lt_protocol_version = jr_protocol_version j, lt_from_state = jr_state j,
           lt_to_state = next_state, lt_transition = n, lt_reference = reference\<rparr> j)"

datatype RouteLeaseCompatibility = CurrentV3 | RecoveryOnlyV2

definition classify_route_helper_protocol :: "u8 \<Rightarrow> RouteLeaseCompatibility lease_result" where
  "classify_route_helper_protocol v =
     (if v = ROUTE_HELPER_V3_PROTOCOL_VERSION then Ok CurrentV3
      else if v = ROUTE_HELPER_V2_PROTOCOL_VERSION then Ok RecoveryOnlyV2
      else Err UnsupportedProtocolVersionV3)"

definition classify_legacy_v2 :: "RouteLeaseOwner \<Rightarrow> RouteLeaseCompatibility lease_result" where
  "classify_legacy_v2 owner =
     (case map_err from_network_error (RouteLeaseOwner_validate owner) of
        Err e \<Rightarrow> Err e
      | Ok _ \<Rightarrow> classify_route_helper_protocol (lo_protocol_version owner))"

datatype RouteLeaseHoldRecoveryObservation =
  ExactHeld | ExactReleased | ExactSessionNoHold | HeldByDifferentTuple | Ambiguous

datatype RouteLeaseHoldRecoveryAction = RecordHeld | RetireWithoutRouteMutation | FailClosed

fun recover_hold_pending :: "RouteLeaseHoldRecoveryObservation \<Rightarrow> RouteLeaseHoldRecoveryAction" where
  "recover_hold_pending ExactHeld = RecordHeld"
| "recover_hold_pending ExactReleased = RetireWithoutRouteMutation"
| "recover_hold_pending ExactSessionNoHold = RetireWithoutRouteMutation"
| "recover_hold_pending HeldByDifferentTuple = FailClosed"
| "recover_hold_pending Ambiguous = FailClosed"

subsection \<open>Only the exact tuple has authority\<close>

lemma reference_of_owner_valid:
  "RouteLeaseOwnerV3_validate w = Ok () \<Longrightarrow> RouteLeaseReferenceV3_validate (from_owner w) = Ok ()"
  by (auto simp: RouteLeaseOwnerV3_validate_def RouteLeaseReferenceV3_validate_def from_owner_def
      RouteLeaseReferenceV3_binding_def RouteLeaseOwnerV3_binding_def split: if_splits result.splits)

lemma matches_owner_Ok:
  "matches_owner w r = Ok () \<longleftrightarrow> RouteLeaseOwnerV3_validate w = Ok () \<and> r = from_owner w"
  using reference_of_owner_valid [of w]
  by (auto simp: matches_owner_def split: if_splits result.splits)

lemma require_reference_Ok:
  "require_reference r j = Ok () \<longleftrightarrow>
     RouteLeaseJournalRecord_validate j = Ok () \<and> r = from_owner (jr_owner j)"
proof -
  have "RouteLeaseJournalRecord_validate j = Ok () \<Longrightarrow> RouteLeaseOwnerV3_validate (jr_owner j) = Ok ()"
    by (auto simp: RouteLeaseJournalRecord_validate_def split: if_splits)
  then show ?thesis
    by (cases "RouteLeaseJournalRecord_validate j") (auto simp: require_reference_def matches_owner_Ok)
qed

lemma u64_eq_nat: "(n :: u64) = m \<longleftrightarrow> unat n = unat m"
  by (rule word_eq_iff_unsigned)

text \<open>The table of counters, read as natural numbers.\<close>

definition shape :: "RouteLeaseJournalState \<Rightarrow> nat \<Rightarrow> bool" where
  "shape s n =
     (case s of HoldPending \<Rightarrow> n = 1 | Held \<Rightarrow> n = 2 | AppliedV3 \<Rightarrow> n = 3
      | RetirementPending \<Rightarrow> 2 \<le> n \<and> n \<le> 4 | Released \<Rightarrow> 3 \<le> n \<and> n \<le> 5 | RecoveryOnlyState \<Rightarrow> False)"

lemma shape_unat: "transition_shape_is_valid s n \<longleftrightarrow> shape s (unat n)"
  by (cases s) (simp_all add: transition_shape_is_valid_def shape_def word_le_nat_alt u64_eq_nat)

lemma shape_bound: "shape s n \<Longrightarrow> 1 \<le> n \<and> n \<le> 5"
  by (cases s) (auto simp: shape_def)

lemma record_valid_iff:
  "RouteLeaseJournalRecord_validate j = Ok () \<longleftrightarrow>
     jr_protocol_version j = 3 \<and> shape (jr_state j) (unat (jr_transition j)) \<and>
     RouteLeaseOwnerV3_validate (jr_owner j) = Ok ()"
proof -
  have "\<not> shape (jr_state j) (unat (jr_transition j))" if "jr_transition j = 0"
    using that shape_bound [of "jr_state j" 0] by auto
  moreover have "\<not> shape RecoveryOnlyState n" for n by (simp add: shape_def)
  ultimately show ?thesis
    by (auto simp: RouteLeaseJournalRecord_validate_def v3_versions shape_unat split: if_splits)
qed

subsection \<open>Steps of the journal\<close>

definition lease_event :: "RouteLeaseJournalState \<Rightarrow> RouteLeaseJournalRecord \<Rightarrow> RouteLeaseTransition" where
  "lease_event s j =
     \<lparr>lt_protocol_version = 3, lt_from_state = jr_state j, lt_to_state = s,
      lt_transition = jr_transition j + 1, lt_reference = from_owner (jr_owner j)\<rparr>"

definition advance :: "RouteLeaseJournalState \<Rightarrow> RouteLeaseJournalRecord \<Rightarrow> RouteLeaseJournalRecord" where
  "advance s j = j\<lparr>jr_state := s, jr_transition := jr_transition j + 1\<rparr>"

lemma shape_advance: "shape s n \<Longrightarrow> valid_transition s s' \<Longrightarrow> shape s' (n + 1)"
  by (auto simp: valid_transition_def shape_def)

lemma unat_shape_Suc: "shape s (unat n) \<Longrightarrow> unat (n + 1) = unat n + 1 \<and> saturating_add n 1 = n + 1" for n :: u64
  using shape_bound [of s "unat n"] by (auto simp: unat_word_ariths saturating_add_def)

lemma apply_transition_Ok:
  "apply_transition e j = Ok j' \<longleftrightarrow>
     RouteLeaseJournalRecord_validate j = Ok () \<and> valid_transition (jr_state j) (lt_to_state e) \<and>
     e = lease_event (lt_to_state e) j \<and> j' = advance (lt_to_state e) j"
  (is "?l \<longleftrightarrow> ?r")
proof (cases "RouteLeaseJournalRecord_validate j = Ok () \<and> lt_reference e = from_owner (jr_owner j)")
  case True
  then have "require_reference (lt_reference e) j = Ok ()" by (simp add: require_reference_Ok)
  moreover have "saturating_add (jr_transition j) 1 = jr_transition j + 1"
    using True unat_shape_Suc [of "jr_state j" "jr_transition j"] by (simp add: record_valid_iff)
  ultimately show ?thesis
    using True
    by (cases e) (auto simp: apply_transition_def lease_event_def advance_def v3_versions split: if_splits)
next
  case False
  then have "require_reference (lt_reference e) j \<noteq> Ok ()" by (auto simp: require_reference_Ok)
  then have "\<not> ?l" by (cases "require_reference (lt_reference e) j") (auto simp: apply_transition_def)
  moreover have "lt_reference e = from_owner (jr_owner j)" if "e = lease_event s j" for s
    using that by (simp add: lease_event_def)
  then have "\<not> ?r" using False by blast
  ultimately show ?thesis by blast
qed

lemma advance_valid:
  "RouteLeaseJournalRecord_validate j = Ok () \<Longrightarrow> valid_transition (jr_state j) s \<Longrightarrow>
     RouteLeaseJournalRecord_validate (advance s j) = Ok () \<and>
     unat (jr_transition (advance s j)) = unat (jr_transition j) + 1"
  using shape_advance [of "jr_state j" "unat (jr_transition j)" s]
    unat_shape_Suc [of "jr_state j" "jr_transition j"]
  by (auto simp: record_valid_iff advance_def)

subsection \<open>Histories\<close>

text \<open>The records a lease can pass through, with the states on the way.\<close>

inductive lease_run :: "RouteLeaseOwnerV3 \<Rightarrow> RouteLeaseJournalState list \<Rightarrow> RouteLeaseJournalRecord \<Rightarrow> bool"
  for w where
  run_start: "hold_pending w = Ok j \<Longrightarrow> lease_run w [HoldPending] j"
| run_step: "lease_run w ss j \<Longrightarrow> apply_transition e j = Ok j' \<Longrightarrow> lease_run w (ss @ [jr_state j']) j'"

lemma hold_pending_valid:
  "hold_pending w = Ok j \<longleftrightarrow> RouteLeaseOwnerV3_validate w = Ok () \<and>
     j = \<lparr>jr_protocol_version = 3, jr_state = HoldPending, jr_transition = 1, jr_owner = w\<rparr>"
  by (auto simp: hold_pending_def v3_versions split: result.splits)

fun rank :: "RouteLeaseJournalState \<Rightarrow> nat" where
  "rank HoldPending = 0" | "rank Held = 1" | "rank AppliedV3 = 2" | "rank RetirementPending = 3"
| "rank Released = 4" | "rank RecoveryOnlyState = 5"

lemma valid_transition_rank: "valid_transition s s' \<Longrightarrow> rank s < rank s'"
  by (auto simp: valid_transition_def)

lemma windows2_snoc: "xs \<noteq> [] \<Longrightarrow> windows2 (xs @ [x]) = windows2 xs @ [(last xs, x)]"
  by (induction xs rule: windows2.induct) auto

lemma lease_run_inv:
  assumes "lease_run w ss j"
  shows "RouteLeaseJournalRecord_validate j = Ok () \<and> jr_owner j = w \<and>
    unat (jr_transition j) = length ss \<and> ss \<noteq> [] \<and> last ss = jr_state j \<and> hd ss = HoldPending \<and>
    sorted_wrt (\<lambda>a b. rank a < rank b) ss \<and> list_all (\<lambda>(a, b). valid_transition a b) (windows2 ss)"
  using assms
proof (induction rule: lease_run.induct)
  case (run_start j)
  then show ?case by (auto simp: hold_pending_valid record_valid_iff shape_def)
next
  case (run_step ss j e j')
  then have j': "j' = advance (lt_to_state e) j" and "valid_transition (jr_state j) (lt_to_state e)"
    by (simp_all add: apply_transition_Ok)
  then have step: "valid_transition (jr_state j) (jr_state j')"
    "RouteLeaseJournalRecord_validate j' = Ok ()" "unat (jr_transition j') = unat (jr_transition j) + 1"
    "jr_owner j' = jr_owner j"
    using advance_valid [of j "lt_to_state e"] run_step.IH by (simp_all add: advance_def)
  have "\<forall>a\<in>set ss. rank a < rank (jr_state j')"
  proof
    fix a assume "a \<in> set ss"
    then have "rank a \<le> rank (last ss)"
      using run_step.IH by (induction ss rule: rev_induct) (auto simp: sorted_wrt_append)
    then show "rank a < rank (jr_state j')"
      using valid_transition_rank [OF step(1)] run_step.IH by simp
  qed
  moreover have "list_all (\<lambda>(a, b). valid_transition a b) (windows2 (ss @ [jr_state j']))"
    using run_step.IH step(1) by (auto simp: windows2_snoc)
  ultimately show ?case
    using step run_step.IH by (simp add: sorted_wrt_append hd_append)
qed

lemma lease_run_extend:
  assumes "lease_run w ss j" and "valid_transition (jr_state j) s"
  shows "lease_run w (ss @ [s]) (advance s j)"
proof -
  have "apply_transition (lease_event s j) j = Ok (advance s j)"
    using lease_run_inv [OF assms(1)] assms(2) by (simp add: apply_transition_Ok lease_event_def)
  from run_step [OF assms(1) this] show ?thesis by (simp add: advance_def)
qed

definition lease_record :: "RouteLeaseOwnerV3 \<Rightarrow> RouteLeaseJournalState \<Rightarrow> nat \<Rightarrow> RouteLeaseJournalRecord" where
  "lease_record w s n = \<lparr>jr_protocol_version = 3, jr_state = s, jr_transition = of_nat n, jr_owner = w\<rparr>"

lemma jr_state_lease_record [simp]: "jr_state (lease_record w s n) = s"
  by (simp add: lease_record_def)

lemma advance_lease_record [simp]: "advance s (lease_record w s' n) = lease_record w s (Suc n)"
  by (simp add: advance_def lease_record_def add.commute)

lemma shape_is_reached:
  assumes "RouteLeaseOwnerV3_validate w = Ok ()" and "shape s n"
  shows "\<exists>ss. lease_run w ss (lease_record w s n)"
proof -
  have ext: "lease_run w (ss @ [s']) (lease_record w s' (Suc n))"
    if "lease_run w ss (lease_record w s n)" "valid_transition s s'" for ss s s' n
    using lease_run_extend [OF that(1), of s'] that(2) by simp
  have hp: "lease_run w [HoldPending] (lease_record w HoldPending 1)"
    using assms(1) by (intro run_start) (simp add: hold_pending_valid lease_record_def)
  have t: "valid_transition HoldPending Held" "valid_transition HoldPending RetirementPending"
    "valid_transition Held AppliedV3" "valid_transition Held RetirementPending"
    "valid_transition AppliedV3 RetirementPending" "valid_transition RetirementPending Released"
    by (simp_all add: valid_transition_def)
  note held = ext [OF hp t(1)] and r2 = ext [OF hp t(2)]
  note applied = ext [OF held t(3)] and r3 = ext [OF held t(4)]
  note r4 = ext [OF applied t(5)]
  note released = ext [OF r2 t(6)] ext [OF r3 t(6)] ext [OF r4 t(6)]
  have n: "n = 2 \<or> n = 3 \<or> n = 4" if "2 \<le> n" "n \<le> 4" for n :: nat using that by auto
  have n': "n = 3 \<or> n = 4 \<or> n = 5" if "3 \<le> n" "n \<le> 5" for n :: nat using that by auto
  show ?thesis
    using assms(2) hp held applied r2 r3 r4 released n [of n] n' [of n]
    by (cases s) (auto simp: shape_def numeral_eq_Suc simp del: One_nat_def)
qed

text \<open>
  Claim C19. The table by which \<open>validate\<close> checks a stored record is exact: a record validates if and
  only if some history of its owner produces it, starting in \<open>HoldPending\<close> and applying accepted
  transitions.  In particular the stored counter is the number of states on the way, and a state that
  no history reaches with this counter is refused.
\<close>

theorem record_valid_iff_reachable:
  "RouteLeaseJournalRecord_validate j = Ok () \<longleftrightarrow>
     (\<exists>ss. lease_run (jr_owner j) ss j \<and> unat (jr_transition j) = length ss)"
proof
  assume v: "RouteLeaseJournalRecord_validate j = Ok ()"
  have "lease_record (jr_owner j) (jr_state j) (unat (jr_transition j)) = j"
    using v by (simp add: lease_record_def record_valid_iff)
  with v shape_is_reached [of "jr_owner j" "jr_state j" "unat (jr_transition j)"]
  obtain ss where "lease_run (jr_owner j) ss j" by (auto simp: record_valid_iff)
  with lease_run_inv [OF this] show "\<exists>ss. lease_run (jr_owner j) ss j \<and> unat (jr_transition j) = length ss"
    by blast
qed (use lease_run_inv in blast)

inductive lease_steps :: "RouteLeaseJournalRecord \<Rightarrow> RouteLeaseJournalRecord \<Rightarrow> bool" where
  steps_refl: "lease_steps j j"
| steps_step: "lease_steps j k \<Longrightarrow> apply_transition e k = Ok k' \<Longrightarrow> lease_steps j k'"

lemma lease_steps_later:
  "lease_steps j k \<Longrightarrow> RouteLeaseJournalRecord_validate j = Ok () \<Longrightarrow>
     RouteLeaseJournalRecord_validate k = Ok () \<and> jr_owner k = jr_owner j \<and>
     unat (jr_transition j) \<le> unat (jr_transition k)"
proof (induction rule: lease_steps.induct)
  case (steps_step j k e k')
  then have "k' = advance (lt_to_state e) k" "valid_transition (jr_state k) (lt_to_state e)"
    by (simp_all add: apply_transition_Ok)
  then show ?case using advance_valid [of k "lt_to_state e"] steps_step by (simp add: advance_def)
qed simp

text \<open>
  Claim C20. No acknowledgement is applied twice: an event that a record has accepted is refused as a
  replay by every record the lease passes through afterwards, including the one it produced.
\<close>

theorem accepted_event_is_never_replayed:
  assumes "apply_transition e j = Ok j'" and "lease_steps j' k"
  shows "apply_transition e k = Err ReplayDetected"
proof -
  from assms(1) have v: "RouteLeaseJournalRecord_validate j = Ok ()" "j' = advance (lt_to_state e) j"
    "valid_transition (jr_state j) (lt_to_state e)" and e: "e = lease_event (lt_to_state e) j"
    by (simp_all only: apply_transition_Ok)
  note adv = advance_valid [OF v(1,3)]
  have "lt_transition e = jr_transition j + 1" "lt_reference e = from_owner (jr_owner j)"
    by (subst e, simp add: lease_event_def)+
  moreover have k: "RouteLeaseJournalRecord_validate k = Ok ()" "jr_owner k = jr_owner j"
    "unat (jr_transition j) + 1 \<le> unat (jr_transition k)"
    using lease_steps_later [OF assms(2)] adv v(2) by (simp_all add: advance_def)
  moreover have "saturating_add (jr_transition k) 1 = jr_transition k + 1"
    "unat (jr_transition k + 1) = unat (jr_transition k) + 1"
    using k(1) unat_shape_Suc [of "jr_state k" "jr_transition k"] by (simp_all add: record_valid_iff)
  moreover have "unat (jr_transition j + 1) = unat (jr_transition j) + 1"
    using v(1) unat_shape_Suc [of "jr_state j" "jr_transition j"] by (simp add: record_valid_iff)
  ultimately have "lt_transition e \<noteq> saturating_add (jr_transition k) 1"
    "require_reference (lt_reference e) k = Ok ()"
    by (auto simp: u64_eq_nat require_reference_Ok)
  then show ?thesis by (simp add: apply_transition_def)
qed

text \<open>
  Claim C21. Every lease ends: the accepted transitions cannot go on for ever, at most four follow one
  another, the states only move forward, and every valid record that is not released accepts a next
  transition.  Routes may be changed in one state only, and never again after the retirement began.
\<close>

theorem lease_terminates:
  "wf {(j', j). \<exists>e. apply_transition e j = Ok j'} \<and>
   (RouteLeaseJournalRecord_validate j = Ok () \<longrightarrow> jr_state j \<noteq> Released \<longrightarrow>
      (\<exists>e j'. apply_transition e j = Ok j')) \<and>
   (lease_run w ss k \<longrightarrow> length ss \<le> 5 \<and> sorted_wrt (\<lambda>a b. rank a < rank b) ss \<and>
      (permits_route_mutation (jr_state k) \<longrightarrow> ss = [HoldPending, Held]))"
proof (intro conjI impI)
  have "{(j', j). \<exists>e. apply_transition e j = Ok j'} \<subseteq> measure (\<lambda>j. 5 - rank (jr_state j))"
  proof
    fix x assume "x \<in> {(j', j). \<exists>e. apply_transition e j = Ok j'}"
    then obtain e j j' where x: "x = (j', j)" and "apply_transition e j = Ok j'" by blast
    then have "valid_transition (jr_state j) (lt_to_state e)" "jr_state j' = lt_to_state e"
      by (simp_all add: apply_transition_Ok advance_def)
    then show "x \<in> measure (\<lambda>j. 5 - rank (jr_state j))" by (auto simp: x valid_transition_def)
  qed
  then show "wf {(j', j). \<exists>e. apply_transition e j = Ok j'}" by (rule wf_subset [rotated]) simp
next
  assume v: "RouteLeaseJournalRecord_validate j = Ok ()" and n: "jr_state j \<noteq> Released"
  then obtain s where "valid_transition (jr_state j) s"
    by (cases "jr_state j") (auto simp: valid_transition_def record_valid_iff shape_def)
  with v show "\<exists>e j'. apply_transition e j = Ok j'"
    by (intro exI [of _ "lease_event s j"] exI [of _ "advance s j"])
      (simp add: apply_transition_Ok lease_event_def)
next
  assume r: "lease_run w ss k"
  note i = lease_run_inv [OF r]
  then have "shape (jr_state k) (length ss)" by (auto simp: record_valid_iff)
  then show "length ss \<le> 5" using shape_bound by blast
  show "sorted_wrt (\<lambda>a b. rank a < rank b) ss" using i by blast
  assume "permits_route_mutation (jr_state k)"
  then have "length ss = 2" "last ss = Held" "hd ss = HoldPending"
    using \<open>shape (jr_state k) (length ss)\<close> i by (auto simp: permits_route_mutation_def shape_def)
  then show "ss = [HoldPending, Held]" by (auto simp: length_Suc_conv numeral_2_eq_2)
qed

subsection \<open>Witnesses\<close>

definition sample_owner :: RouteLeaseOwnerV3 where
  "sample_owner =
     \<lparr>ow_protocol_version = 3, ow_broker_protocol_version = 1, ow_broker_generation = 9,
      ow_sidecar_instance_id = ''instance-1'', ow_lease_id = ''lease-0001'',
      ow_operation_id = ''operation-1'', ow_profile_revision = 7, ow_tunnel = lo_tunnel sample_lease,
      ow_active_mihomo_tun_interfaces = [''utun9''], ow_private_cidrs = [''10.0.0.0/8'']\<rparr>"

lemma sample_owner_valid: "RouteLeaseOwnerV3_validate sample_owner = Ok ()"
proof -
  have "legacy_owner sample_owner = sample_lease"
    by (simp add: legacy_owner_def sample_owner_def sample_lease_def)
  moreover have "valid_ipc_id ''instance-1''" "valid_ipc_id ''lease-0001''" "valid_ipc_id ''operation-1''"
    by code_simp+
  ultimately show ?thesis
    using sample_lease_valid
    by (simp add: RouteLeaseOwnerV3_validate_def RouteLeaseBinding_validate_def
        RouteBrokerSessionReference_validate_def RouteLeaseOwnerV3_binding_def v3_versions
        i64_max_def sample_owner_def sample_lease_def)
qed

definition sample_record :: RouteLeaseJournalRecord where
  "sample_record = lease_record sample_owner HoldPending 1"

lemma sample_record_valid: "RouteLeaseJournalRecord_validate sample_record = Ok ()"
  by (simp add: record_valid_iff sample_record_def lease_record_def shape_def sample_owner_valid)

theorem accepted_event_is_never_replayed_witness:
  "apply_transition (lease_event Held sample_record) sample_record = Ok (advance Held sample_record) \<and>
   apply_transition (lease_event Held sample_record) (advance Held sample_record) = Err ReplayDetected"
proof -
  have "apply_transition (lease_event Held sample_record) sample_record = Ok (advance Held sample_record)"
    using sample_record_valid
    by (simp add: apply_transition_Ok lease_event_def valid_transition_def sample_record_def)
  with accepted_event_is_never_replayed [OF this steps_refl] show ?thesis by simp
qed

theorem lease_terminates_witness: "\<exists>e j'. apply_transition e sample_record = Ok j'"
  using lease_terminates [of sample_record] sample_record_valid by (simp add: sample_record_def)

end
