(* ===== verification/Sidecar.thy ===== *)
theory Sidecar
  imports Ipc
begin

section \<open>The sidecar process and its restarts\<close>

text \<open>
  \<open>networking/sidecar.rs\<close> and the snapshot of \<open>networking/diagnostics.rs\<close>.  The process is a
  \<open>SidecarRuntime\<close>, a record of operations on a state of its own; \<open>SidecarController\<close> starts it,
  checks its handshake, polls it and restarts it with a bounded backoff.  Times are 64-bit
  milliseconds and saturate as in the code; lengths of the in-memory queue are natural numbers.
  Zeroing the secrets of a dropped launch context is an effect on memory that has no counterpart
  here.
\<close>

datatype SidecarLifecycleState = Stopped | Starting | Running | Backoff | CrashLoop

record SidecarLaunchContext =
  lc_instance_id :: string
  lc_auth_token :: "u8 list"
  lc_private_key :: "u8 list"

definition SidecarLaunchContext_new :: "string \<Rightarrow> u8 list \<Rightarrow> SidecarLaunchContext" where
  "SidecarLaunchContext_new instance_id auth_token =
     \<lparr>lc_instance_id = instance_id, lc_auth_token = auth_token, lc_private_key = []\<rparr>"

definition with_private_key :: "u8 list \<Rightarrow> SidecarLaunchContext \<Rightarrow> SidecarLaunchContext" where
  "with_private_key private_key c = c\<lparr>lc_private_key := private_key\<rparr>"

record SidecarHandshake =
  sh_protocol_version :: u8
  sh_instance_id :: string
  sh_auth_proof :: string

datatype SidecarProcessStatus = ProcessRunning | ProcessExited bool

record 'r SidecarRuntime =
  rt_start :: "SidecarLaunchContext \<Rightarrow> 'r \<Rightarrow> SidecarHandshake net_result \<times> 'r"
  rt_status :: "'r \<Rightarrow> SidecarProcessStatus net_result \<times> 'r"
  rt_stop :: "'r \<Rightarrow> unit net_result \<times> 'r"

record RestartPolicy =
  rp_max_restarts :: nat
  rp_window_ms :: u64
  rp_initial_backoff_ms :: u64
  rp_max_backoff_ms :: u64

definition RestartPolicy_default :: RestartPolicy where
  "RestartPolicy_default =
     \<lparr>rp_max_restarts = 3, rp_window_ms = 60000, rp_initial_backoff_ms = 1000,
      rp_max_backoff_ms = 30000\<rparr>"

record 'r SidecarController =
  sc_runtime :: 'r
  sc_policy :: RestartPolicy
  sc_state :: SidecarLifecycleState
  sc_context :: SidecarLaunchContext
  sc_expected_auth_proof :: string
  sc_restart_times :: "u64 list"
  sc_consecutive_failures :: u32
  sc_retry_at_ms :: "u64 option"

definition sidecar_new ::
  "'r \<Rightarrow> RestartPolicy \<Rightarrow> SidecarLaunchContext \<Rightarrow> string \<Rightarrow> 'r SidecarController" where
  "sidecar_new runtime policy context expected_auth_proof =
     \<lparr>sc_runtime = runtime, sc_policy = policy, sc_state = Stopped, sc_context = context,
      sc_expected_auth_proof = expected_auth_proof, sc_restart_times = [],
      sc_consecutive_failures = 0, sc_retry_at_ms = None\<rparr>"

text \<open>The loop of \<open>prune_restart_window\<close> pops the front while it is older than the window.\<close>

fun prune_times :: "u64 \<Rightarrow> u64 \<Rightarrow> u64 list \<Rightarrow> u64 list" where
  "prune_times window now [] = []"
| "prune_times window now (t # ts) =
     (if window < saturating_sub now t then prune_times window now ts else t # ts)"

definition prune_restart_window :: "u64 \<Rightarrow> 'r SidecarController \<Rightarrow> 'r SidecarController" where
  "prune_restart_window now c =
     (let ts = prune_times (rp_window_ms (sc_policy c)) now (sc_restart_times c);
          c = c\<lparr>sc_restart_times := ts\<rparr>
      in if ts = [] then c\<lparr>sc_consecutive_failures := 0\<rparr> else c)"

definition sidecar_start ::
  "'r SidecarRuntime \<Rightarrow> u64 \<Rightarrow> 'r SidecarController \<Rightarrow> unit net_result \<times> 'r SidecarController" where
  "sidecar_start R now c =
     (if sc_state c \<noteq> Stopped \<and> sc_state c \<noteq> Backoff then (Err InvalidStateTransition, c)
      else let c = c\<lparr>sc_state := Starting\<rparr>
      in case rt_start R (sc_context c) (sc_runtime c) of
        (Err e, rt) \<Rightarrow> (Err e, c\<lparr>sc_runtime := rt, sc_state := Stopped\<rparr>)
      | (Ok handshake, rt) \<Rightarrow>
          let c = c\<lparr>sc_runtime := rt\<rparr>
          in if sh_protocol_version handshake \<noteq> NETWORK_IPC_PROTOCOL_VERSION
             then (Err UnsupportedProtocolVersion,
                   c\<lparr>sc_state := Stopped, sc_runtime := snd (rt_stop R (sc_runtime c))\<rparr>)
             else if sh_instance_id handshake \<noteq> lc_instance_id (sc_context c) \<or>
                     sh_auth_proof handshake \<noteq> sc_expected_auth_proof c
             then (Err AuthenticationFailed,
                   c\<lparr>sc_state := Stopped, sc_runtime := snd (rt_stop R (sc_runtime c))\<rparr>)
             else (Ok (), prune_restart_window now (c\<lparr>sc_state := Running, sc_retry_at_ms := None\<rparr>)))"

definition record_crash ::
  "u64 \<Rightarrow> 'r SidecarController \<Rightarrow> unit net_result \<times> 'r SidecarController" where
  "record_crash now c =
     (let c = prune_restart_window now c;
          c = c\<lparr>sc_restart_times := sc_restart_times c @ [now],
                sc_consecutive_failures := saturating_add (sc_consecutive_failures c) 1\<rparr>
      in if rp_max_restarts (sc_policy c) < length (sc_restart_times c)
         then (Err SidecarUnavailable, c\<lparr>sc_state := CrashLoop, sc_retry_at_ms := None\<rparr>)
         else let exponent = min (saturating_sub (sc_consecutive_failures c) 1) 31;
                  delay = min (saturating_mul (rp_initial_backoff_ms (sc_policy c))
                                 (push_bit (unat exponent) 1))
                            (rp_max_backoff_ms (sc_policy c))
              in (Ok (), c\<lparr>sc_state := Backoff, sc_retry_at_ms := Some (saturating_add now delay)\<rparr>))"

definition sidecar_poll ::
  "'r SidecarRuntime \<Rightarrow> u64 \<Rightarrow> 'r SidecarController \<Rightarrow> unit net_result \<times> 'r SidecarController" where
  "sidecar_poll R now c =
     (case sc_state c of
        Running \<Rightarrow>
          (case rt_status R (sc_runtime c) of
             (Err e, rt) \<Rightarrow> (Err e, c\<lparr>sc_runtime := rt\<rparr>)
           | (Ok ProcessRunning, rt) \<Rightarrow> (Ok (), c\<lparr>sc_runtime := rt\<rparr>)
           | (Ok (ProcessExited _), rt) \<Rightarrow> record_crash now (c\<lparr>sc_runtime := rt\<rparr>))
      | Backoff \<Rightarrow>
          (case sc_retry_at_ms c of
             Some retry_at \<Rightarrow> if retry_at \<le> now then sidecar_start R now c else (Ok (), c)
           | None \<Rightarrow> (Ok (), c))
      | _ \<Rightarrow> (Ok (), c))"

definition sidecar_stop ::
  "'r SidecarRuntime \<Rightarrow> 'r SidecarController \<Rightarrow> unit net_result \<times> 'r SidecarController" where
  "sidecar_stop R c =
     (let (r, c) = (if sc_state c = Running \<or> sc_state c = Starting
                    then case rt_stop R (sc_runtime c) of (r, rt) \<Rightarrow> (r, c\<lparr>sc_runtime := rt\<rparr>)
                    else (Ok (), c))
      in case r of
           Err e \<Rightarrow> (Err e, c)
         | Ok _ \<Rightarrow> (Ok (), c\<lparr>sc_state := Stopped, sc_retry_at_ms := None,
                            sc_consecutive_failures := 0, sc_restart_times := []\<rparr>))"

subsection \<open>Diagnostics\<close>

record NetworkDiagnosticSnapshot =
  ds_schema_version :: u8
  ds_ipc_protocol_version :: u8
  ds_network_state :: NetworkState
  ds_sidecar_state :: SidecarLifecycleState
  ds_has_active_profile :: bool
  ds_private_route_count :: nat
  ds_active_transport :: "string option"
  ds_last_error :: "NetworkErrorCode option"

definition NetworkDiagnosticSnapshot_new ::
  "NetworkState \<Rightarrow> SidecarLifecycleState \<Rightarrow> bool \<Rightarrow> nat \<Rightarrow> string option \<Rightarrow>
     NetworkErrorCode option \<Rightarrow> NetworkDiagnosticSnapshot" where
  "NetworkDiagnosticSnapshot_new network_state sidecar_state has_active_profile private_route_count
      active_transport last_error =
     \<lparr>ds_schema_version = NETWORK_SCHEMA_VERSION,
      ds_ipc_protocol_version = NETWORK_IPC_PROTOCOL_VERSION,
      ds_network_state = network_state, ds_sidecar_state = sidecar_state,
      ds_has_active_profile = has_active_profile, ds_private_route_count = private_route_count,
      ds_active_transport = active_transport, ds_last_error = last_error\<rparr>"

subsection \<open>The runtime of the tests\<close>

record FakeRuntime =
  fk_running :: bool
  fk_crash_on_poll :: bool
  fk_bad_proof :: bool
  fk_starts :: nat

definition FakeRuntime_start ::
  "SidecarLaunchContext \<Rightarrow> FakeRuntime \<Rightarrow> SidecarHandshake net_result \<times> FakeRuntime" where
  "FakeRuntime_start context f =
     (let f = f\<lparr>fk_running := True, fk_starts := fk_starts f + 1\<rparr>
      in (Ok \<lparr>sh_protocol_version = NETWORK_IPC_PROTOCOL_VERSION,
              sh_instance_id = lc_instance_id context,
              sh_auth_proof = (if fk_bad_proof f then ''invalid'' else ''proof.test'')\<rparr>, f))"

definition FakeRuntime_status :: "FakeRuntime \<Rightarrow> SidecarProcessStatus net_result \<times> FakeRuntime" where
  "FakeRuntime_status f =
     (let f = (if fk_crash_on_poll f then f\<lparr>fk_running := False, fk_crash_on_poll := False\<rparr> else f)
      in (Ok (if fk_running f then ProcessRunning else ProcessExited False), f))"

definition FakeRuntime_stop :: "FakeRuntime \<Rightarrow> unit net_result \<times> FakeRuntime" where
  "FakeRuntime_stop f = (Ok (), f\<lparr>fk_running := False\<rparr>)"

definition FakeRuntime_impl :: "FakeRuntime SidecarRuntime" where
  "FakeRuntime_impl =
     \<lparr>rt_start = FakeRuntime_start, rt_status = FakeRuntime_status, rt_stop = FakeRuntime_stop\<rparr>"

subsection \<open>Runs\<close>

text \<open>
  A run calls the controller at times that never go back, while the process may do anything between
  two calls (\<open>environment\<close>).  It keeps, beside the controller, the times at which a poll saw the
  process exit since the last successful stop, and the time of the last call.
\<close>

definition observes_exit :: "'r SidecarRuntime \<Rightarrow> 'r SidecarController \<Rightarrow> bool" where
  "observes_exit R c \<longleftrightarrow>
     sc_state c = Running \<and>
     (case rt_status R (sc_runtime c) of (Ok (ProcessExited _), _) \<Rightarrow> True | _ \<Rightarrow> False)"

inductive sidecar_run ::
  "'r SidecarRuntime \<Rightarrow> RestartPolicy \<Rightarrow> 'r SidecarController \<Rightarrow> u64 list \<Rightarrow> u64 \<Rightarrow> bool"
  for R policy where
  init: "sidecar_run R policy (sidecar_new runtime policy ctx auth_proof) [] 0"
| environment: "sidecar_run R policy c crashes t \<Longrightarrow> sidecar_run R policy (c\<lparr>sc_runtime := rt\<rparr>) crashes t"
| start: "sidecar_run R policy c crashes t \<Longrightarrow> t \<le> now \<Longrightarrow>
    sidecar_run R policy (snd (sidecar_start R now c)) crashes now"
| poll: "sidecar_run R policy c crashes t \<Longrightarrow> t \<le> now \<Longrightarrow>
    sidecar_run R policy (snd (sidecar_poll R now c))
      (if observes_exit R c then crashes @ [now] else crashes) now"
| stop: "sidecar_run R policy c crashes t \<Longrightarrow>
    sidecar_run R policy (snd (sidecar_stop R c))
      (if is_ok (fst (sidecar_stop R c)) then [] else crashes) t"

definition recent :: "u64 \<Rightarrow> u64 \<Rightarrow> u64 list \<Rightarrow> u64 list" where
  "recent window now ts = filter (\<lambda>t. unat now - unat t \<le> unat window) ts"

lemma prune_times_recent: "sorted ts \<Longrightarrow> prune_times window now ts = recent window now ts"
proof (induction ts)
  case (Cons t ts)
  show ?case
  proof (cases "window < saturating_sub now t")
    case True
    then show ?thesis using Cons by (simp add: recent_def word_less_nat_alt sat_simps)
  next
    case False
    have "unat t \<le> unat u" if "u \<in> set ts" for u using Cons.prems that by (simp add: word_le_nat_alt)
    moreover have "unat now - unat t \<le> unat window"
      using False by (simp add: word_less_nat_alt sat_simps)
    ultimately have "unat now - unat u \<le> unat window" if "u \<in> set ts" for u
      using that by (meson diff_le_mono2 order_trans)
    then show ?thesis
      using False \<open>unat now - unat t \<le> unat window\<close> by (simp add: recent_def)
  qed
qed (simp add: recent_def)

lemma recent_recent: "p \<le> now \<Longrightarrow> recent window now (recent window p ts) = recent window now ts"
  unfolding recent_def filter_filter by (rule filter_cong) (auto simp: word_le_nat_alt)

lemma recent_snoc: "recent window now ts @ [now] = recent window now (ts @ [now])"
  by (simp add: recent_def)

lemma sorted_recent: "sorted ts \<Longrightarrow> sorted (recent window now ts)"
  unfolding recent_def by (rule sorted_filter [where f = "\<lambda>x. x", simplified])

definition sidecar_inv :: "RestartPolicy \<Rightarrow> 'r SidecarController \<Rightarrow> u64 list \<Rightarrow> u64 \<Rightarrow> bool" where
  "sidecar_inv policy c crashes t \<longleftrightarrow>
     sc_policy c = policy \<and> sorted crashes \<and> (\<forall>u\<in>set crashes. u \<le> t) \<and>
     (\<exists>p\<le>t. sc_restart_times c = recent (rp_window_ms policy) p crashes) \<and>
     (sc_state c \<noteq> CrashLoop \<longrightarrow> length (sc_restart_times c) \<le> rp_max_restarts policy) \<and>
     sc_state c \<noteq> Starting \<and> (sc_state c \<in> {CrashLoop, Running} \<longrightarrow> sc_retry_at_ms c = None) \<and>
     (sc_state c = Backoff \<longrightarrow> sc_retry_at_ms c \<noteq> None)"

lemma sidecar_inv_prune:
  assumes inv: "sidecar_inv policy c crashes t" and "t \<le> now"
  shows "sc_restart_times (prune_restart_window now c) = recent (rp_window_ms policy) now crashes"
    and "sc_state (prune_restart_window now c) = sc_state c"
    and "sc_retry_at_ms (prune_restart_window now c) = sc_retry_at_ms c"
    and "sc_policy (prune_restart_window now c) = policy"
    and "length (sc_restart_times (prune_restart_window now c)) \<le> length (sc_restart_times c)"
proof -
  from inv obtain p where "p \<le> t" "sc_restart_times c = recent (rp_window_ms policy) p crashes"
    and "sorted crashes" "sc_policy c = policy"
    unfolding sidecar_inv_def by blast
  moreover from this(1) have "p \<le> now" using \<open>t \<le> now\<close> by (rule order_trans)
  ultimately show times: "sc_restart_times (prune_restart_window now c) = recent (rp_window_ms policy) now crashes"
    and "sc_state (prune_restart_window now c) = sc_state c"
    "sc_retry_at_ms (prune_restart_window now c) = sc_retry_at_ms c"
    "sc_policy (prune_restart_window now c) = policy"
    by (simp_all add: prune_restart_window_def Let_def prune_times_recent sorted_recent recent_recent)
  have "recent (rp_window_ms policy) now crashes = recent (rp_window_ms policy) now (sc_restart_times c)"
    using \<open>sc_restart_times c = _\<close> \<open>p \<le> now\<close> by (simp add: recent_recent)
  then show "length (sc_restart_times (prune_restart_window now c)) \<le> length (sc_restart_times c)"
    unfolding times by (simp add: recent_def)
qed

lemma sidecar_inv_later:
  "sidecar_inv policy c crashes t \<Longrightarrow> t \<le> now \<Longrightarrow> sidecar_inv policy c crashes now"
  unfolding sidecar_inv_def by (meson order_trans)

lemma sidecar_inv_runtime:
  "sidecar_inv policy (c\<lparr>sc_runtime := rt\<rparr>) crashes t \<longleftrightarrow> sidecar_inv policy c crashes t"
  by (simp add: sidecar_inv_def)

lemma sidecar_inv_start:
  assumes inv: "sidecar_inv policy c crashes t" and "t \<le> now"
  shows "sidecar_inv policy (snd (sidecar_start R now c)) crashes now"
proof (cases "sc_state c = Stopped \<or> sc_state c = Backoff")
  case True
  let ?run = "\<lambda>rt. c\<lparr>sc_runtime := rt, sc_state := Running, sc_retry_at_ms := None\<rparr>"
  have later: "sidecar_inv policy c crashes now" using assms by (rule sidecar_inv_later)
  have ready: "\<not> (sc_state c \<noteq> Stopped \<and> sc_state c \<noteq> Backoff)" using True by blast
  have down: "sidecar_inv policy (c\<lparr>sc_state := Stopped, sc_runtime := rt\<rparr>) crashes now"
    "sidecar_inv policy (c\<lparr>sc_runtime := rt, sc_state := Stopped\<rparr>) crashes now" for rt
    using later True by (auto simp: sidecar_inv_def)
  have up: "sidecar_inv policy (?run rt) crashes now" for rt
    using later True by (auto simp: sidecar_inv_def)
  have "sidecar_inv policy (prune_restart_window now (?run rt)) crashes now" for rt
    using sidecar_inv_prune [OF up [of rt] order_refl] up [of rt]
    by (auto simp: sidecar_inv_def)
  with down show ?thesis
    unfolding sidecar_start_def Let_def if_not_P [OF ready] by (simp split: prod.split result.split)
qed (use assms sidecar_inv_later in \<open>auto simp: sidecar_start_def\<close>)

lemma record_crash_result:
  assumes inv: "sidecar_inv policy c crashes t" and "t \<le> now"
  defines "seen \<equiv> recent (rp_window_ms policy) now (crashes @ [now])"
    and "c' \<equiv> snd (record_crash now c)"
  shows "sc_restart_times c' = seen \<and> sc_policy c' = policy \<and>
    (if rp_max_restarts policy < length seen
     then fst (record_crash now c) = Err SidecarUnavailable \<and> sc_state c' = CrashLoop \<and>
          sc_retry_at_ms c' = None
     else fst (record_crash now c) = Ok () \<and> sc_state c' = Backoff \<and>
          (\<exists>r. sc_retry_at_ms c' = Some r \<and> now \<le> r \<and>
               unat r \<le> unat now + unat (rp_max_backoff_ms policy)))"
proof -
  note p = sidecar_inv_prune [OF inv \<open>t \<le> now\<close>]
  have "unat now < 2 ^ 64" using unsigned_less [of now] by simp
  then have r: "now \<le> saturating_add now (min a (rp_max_backoff_ms policy))"
    "unat (saturating_add now (min a (rp_max_backoff_ms policy))) \<le>
       unat now + unat (rp_max_backoff_ms policy)" for a
    by (simp_all add: word_le_nat_alt sat_simps)
  show ?thesis
    unfolding seen_def c'_def record_crash_def Let_def using r
    by (simp add: p recent_snoc [symmetric])
qed

lemma sidecar_inv_crash:
  assumes inv: "sidecar_inv policy c crashes t" and "t \<le> now"
  shows "sidecar_inv policy (snd (record_crash now c)) (crashes @ [now]) now"
proof -
  have "sorted (crashes @ [now])" "\<forall>u\<in>set (crashes @ [now]). u \<le> now"
    using assms by (auto simp: sidecar_inv_def sorted_append)
  moreover have "\<exists>p\<le>now. sc_restart_times (snd (record_crash now c)) =
      recent (rp_window_ms policy) p (crashes @ [now])"
    using record_crash_result [OF assms] by blast
  ultimately show ?thesis
    using record_crash_result [OF assms] unfolding sidecar_inv_def by (auto split: if_splits)
qed

lemma sidecar_inv_poll:
  assumes inv: "sidecar_inv policy c crashes t" and "t \<le> now"
  shows "sidecar_inv policy (snd (sidecar_poll R now c))
    (if observes_exit R c then crashes @ [now] else crashes) now"
proof -
  have later: "sidecar_inv policy c crashes now" using assms by (rule sidecar_inv_later)
  have "sidecar_inv policy (snd (record_crash now (c\<lparr>sc_runtime := rt\<rparr>))) (crashes @ [now]) now" for rt
    using sidecar_inv_crash [of policy "c\<lparr>sc_runtime := rt\<rparr>" crashes t now] assms
    by (simp add: sidecar_inv_runtime)
  then show ?thesis
    using later sidecar_inv_start [OF assms, of R]
    by (simp add: sidecar_poll_def observes_exit_def sidecar_inv_runtime
        split: SidecarLifecycleState.split option.split prod.split result.split
          SidecarProcessStatus.split)
qed

lemma sidecar_run_inv: "sidecar_run R policy c crashes t \<Longrightarrow> sidecar_inv policy c crashes t"
proof (induction rule: sidecar_run.induct)
  case (init runtime ctx auth_proof)
  show ?case by (auto simp: sidecar_inv_def sidecar_new_def recent_def)
next
  case (stop c crashes t)
  then show ?case
    by (auto simp: sidecar_stop_def sidecar_inv_def recent_def Let_def
        split: prod.splits result.splits if_splits)
qed (simp_all add: sidecar_inv_runtime sidecar_inv_start sidecar_inv_poll)

subsection \<open>Properties\<close>

text \<open>
  Claim C35. In every run, whatever the process does, a poll that sees the process exit counts exactly
  the exits of the last \<open>window_ms\<close> milliseconds since the last successful stop, this one included.
  If they are more than \<open>max_restarts\<close> it gives up in \<open>CrashLoop\<close>; otherwise it schedules the next
  start, not before now and at most \<open>max_backoff_ms\<close> later.
\<close>

theorem crash_loop_counts_the_window:
  assumes "sidecar_run R policy c crashes t" and "t \<le> now" and "observes_exit R c"
  shows "let c' = snd (sidecar_poll R now c); seen = recent (rp_window_ms policy) now (crashes @ [now])
    in sc_restart_times c' = seen \<and>
      (if rp_max_restarts policy < length seen
       then fst (sidecar_poll R now c) = Err SidecarUnavailable \<and> sc_state c' = CrashLoop \<and>
            sc_retry_at_ms c' = None
       else fst (sidecar_poll R now c) = Ok () \<and> sc_state c' = Backoff \<and>
            (\<exists>r. sc_retry_at_ms c' = Some r \<and> now \<le> r \<and>
                 unat r \<le> unat now + unat (rp_max_backoff_ms policy)))"
proof -
  obtain b rt where exit: "sc_state c = Running" "rt_status R (sc_runtime c) = (Ok (ProcessExited b), rt)"
    using assms(3)
    by (auto simp: observes_exit_def split: prod.splits result.splits SidecarProcessStatus.splits)
  then have poll: "sidecar_poll R now c = record_crash now (c\<lparr>sc_runtime := rt\<rparr>)"
    by (simp add: sidecar_poll_def)
  have "sidecar_inv policy (c\<lparr>sc_runtime := rt\<rparr>) crashes t"
    using sidecar_run_inv [OF assms(1)] by (simp add: sidecar_inv_runtime)
  from record_crash_result [OF this \<open>t \<le> now\<close>] show ?thesis by (simp add: poll Let_def)
qed

definition test_policy :: RestartPolicy where
  "test_policy =
     \<lparr>rp_max_restarts = 2, rp_window_ms = 10000, rp_initial_backoff_ms = 100, rp_max_backoff_ms = 400\<rparr>"

definition test_controller :: "FakeRuntime SidecarController" where
  "test_controller =
     sidecar_new \<lparr>fk_running = False, fk_crash_on_poll = False, fk_bad_proof = False, fk_starts = 0\<rparr>
       test_policy (SidecarLaunchContext_new ''instance.test'' []) ''proof.test''"

definition crashed :: "FakeRuntime SidecarController \<Rightarrow> FakeRuntime SidecarController" where
  "crashed c = c\<lparr>sc_runtime := (sc_runtime c)\<lparr>fk_crash_on_poll := True\<rparr>\<rparr>"

theorem crash_loop_counts_the_window_witness:
  "let c = crashed (snd (sidecar_start FakeRuntime_impl 0 test_controller))
   in observes_exit FakeRuntime_impl c \<and> sc_restart_times (snd (sidecar_poll FakeRuntime_impl 10 c)) = [10] \<and>
      sc_state (snd (sidecar_poll FakeRuntime_impl 10 c)) = Backoff"
proof -
  let ?c = "crashed (snd (sidecar_start FakeRuntime_impl 0 test_controller))"
  have "sidecar_run FakeRuntime_impl test_policy ?c [] 0"
    unfolding crashed_def
    by (intro sidecar_run.environment sidecar_run.start [where t = 0])
      (simp_all add: test_controller_def sidecar_run.init)
  moreover have "observes_exit FakeRuntime_impl ?c" by code_simp
  ultimately show ?thesis
    using crash_loop_counts_the_window [of FakeRuntime_impl test_policy ?c "[]" 0 10]
    by (simp add: recent_def test_policy_def Let_def)
qed

text \<open>
  A start succeeds exactly when the process answers with the protocol version of the
  application, the instance id it was launched with and the expected proof, and only then is the
  controller \<open>Running\<close>.  A process that answers anything else is told to stop before the error is
  returned, and the controller is \<open>Stopped\<close> after every error.
\<close>

theorem start_authenticates:
  fixes R :: "'r SidecarRuntime" and now :: u64
  assumes "sc_state c \<in> {Stopped, Backoff}"
  defines "answer \<equiv> rt_start R (sc_context c) (sc_runtime c)"
    and "r \<equiv> sidecar_start R now c"
  shows "(fst r = Ok () \<longleftrightarrow>
      (\<exists>h. fst answer = Ok h \<and> sh_protocol_version h = NETWORK_IPC_PROTOCOL_VERSION \<and>
           sh_instance_id h = lc_instance_id (sc_context c) \<and>
           sh_auth_proof h = sc_expected_auth_proof c)) \<and>
    sc_state (snd r) = (if fst r = Ok () then Running else Stopped) \<and>
    sc_runtime (snd r) =
      (if is_ok (fst answer) \<and> fst r \<noteq> Ok () then snd (rt_stop R (snd answer)) else snd answer)"
proof -
  have ready: "\<not> (sc_state c \<noteq> Stopped \<and> sc_state c \<noteq> Backoff)" using assms(1) by blast
  have prune: "sc_state (prune_restart_window now d) = sc_state d"
    "sc_runtime (prune_restart_window now d) = sc_runtime d" for d :: "'r SidecarController"
    by (simp_all add: prune_restart_window_def Let_def)
  obtain a rt where a: "answer = (a, rt)" by (cases answer)
  show ?thesis
    using a unfolding answer_def r_def sidecar_start_def Let_def if_not_P [OF ready]
    by (cases a) (simp_all add: prune)
qed

theorem start_authenticates_witness:
  "let r = sidecar_start FakeRuntime_impl 0 (test_controller\<lparr>sc_expected_auth_proof := ''other''\<rparr>)
   in fst r = Err AuthenticationFailed \<and> sc_state (snd r) = Stopped \<and> \<not> fk_running (sc_runtime (snd r))"
proof -
  let ?c = "test_controller\<lparr>sc_expected_auth_proof := ''other''\<rparr>"
  let ?r = "sidecar_start FakeRuntime_impl 0 ?c"
  have "sc_state ?c \<in> {Stopped, Backoff}" by code_simp
  from start_authenticates [OF this, of FakeRuntime_impl 0]
  have "sc_state (snd ?r) = (if fst ?r = Ok () then Running else Stopped)" by blast
  moreover have "fst ?r = Err AuthenticationFailed" "\<not> fk_running (sc_runtime (snd ?r))"
    by code_simp+
  ultimately show ?thesis by simp
qed

text \<open>
  Claim C37. A scheduled restart is attempted once: when it is due and the process does not start, the
  controller is \<open>Stopped\<close> while \<open>retry_at_ms\<close> still names the past time, and no later poll does
  anything.
\<close>

theorem failed_restart_is_not_retried:
  assumes "sc_state c = Backoff" and "sc_retry_at_ms c = Some retry_at" and "retry_at \<le> now"
    and "rt_start R (sc_context c) (sc_runtime c) = (Err e, rt)"
  shows "\<exists>c'. sidecar_poll R now c = (Err e, c') \<and> sc_state c' = Stopped \<and>
    sc_retry_at_ms c' = Some retry_at \<and> (\<forall>later. sidecar_poll R later c' = (Ok (), c'))"
  using assms by (simp add: sidecar_poll_def sidecar_start_def)

definition refusing_runtime :: "FakeRuntime SidecarRuntime" where
  "refusing_runtime = FakeRuntime_impl\<lparr>rt_start := \<lambda>_ f. (Err SidecarUnavailable, f)\<rparr>"

theorem failed_restart_is_not_retried_witness:
  "let c = test_controller\<lparr>sc_state := Backoff, sc_retry_at_ms := Some 110\<rparr>
   in \<exists>c'. sidecar_poll refusing_runtime 110 c = (Err SidecarUnavailable, c') \<and> sc_state c' = Stopped \<and>
      sc_retry_at_ms c' = Some 110 \<and> (\<forall>later. sidecar_poll refusing_runtime later c' = (Ok (), c'))"
proof -
  let ?c = "test_controller\<lparr>sc_state := Backoff, sc_retry_at_ms := Some 110\<rparr>"
  have "rt_start refusing_runtime (sc_context ?c) (sc_runtime ?c) = (Err SidecarUnavailable, sc_runtime ?c)"
    by (simp add: refusing_runtime_def)
  from failed_restart_is_not_retried [OF _ _ _ this, of 110 110] show ?thesis by simp
qed

end
