(* ===== verification/Production_Session.thy ===== *)
theory Production_Session
  imports Tunnel_Broker Route_Helper_V3 Sidecar
begin

section \<open>Session material and start receipts\<close>

text \<open>
  \<open>networking/production_session.rs\<close>: the chain of identities from the reference the broker assigned,
  through the launch context and the handshake, to the sealed authority to change routes.  A value that
  Rust moves is an argument here.  HMAC-SHA-256 is the argument \<open>hmac\<close>; zeroising buffers is not modelled.
\<close>

definition sidecar_auth_proof :: "(u8 list \<Rightarrow> u8 list \<Rightarrow> u8 list) \<Rightarrow> u8 list \<Rightarrow> string \<Rightarrow> string" where
  "sidecar_auth_proof hmac auth_token instance_id =
     hex_bytes (hmac auth_token (as_bytes ''kyclash-sidecar-bootstrap-v2'' @ [0] @ as_bytes instance_id))"

record SidecarLaunchMaterial =
  lm_auth_token :: "u8 list"
  lm_private_key :: "u8 list"

definition SidecarLaunchMaterial_new :: "u8 list \<Rightarrow> u8 list \<Rightarrow> SidecarLaunchMaterial net_result" where
  "SidecarLaunchMaterial_new auth_token private_key =
     (if length auth_token \<noteq> 32 \<or> length private_key \<noteq> 32 then Err InvalidConfiguration
      else Ok \<lparr>lm_auth_token = auth_token, lm_private_key = private_key\<rparr>)"

record BoundSidecarLaunch =
  bl_reference :: TunnelBrokerSessionReference
  bl_context :: SidecarLaunchContext
  bl_expected_auth_proof :: string

definition SidecarLaunchMaterial_bind ::
  "(u8 list \<Rightarrow> u8 list \<Rightarrow> u8 list) \<Rightarrow> TunnelBrokerSessionReference \<Rightarrow> SidecarLaunchMaterial \<Rightarrow>
     BoundSidecarLaunch net_result" where
  "SidecarLaunchMaterial_bind hmac reference m =
     (case TunnelBrokerSessionReference_validate reference of
        Err e \<Rightarrow> Err e
      | Ok _ \<Rightarrow>
          let instance_id = tb_sidecar_instance_id reference;
              expected_auth_proof = sidecar_auth_proof hmac (lm_auth_token m) instance_id;
              context = with_private_key (lm_private_key m)
                (SidecarLaunchContext_new instance_id (lm_auth_token m))
          in Ok \<lparr>bl_reference = reference, bl_context = context,
                 bl_expected_auth_proof = expected_auth_proof\<rparr>)"

definition BoundSidecarLaunch_into_parts ::
  "BoundSidecarLaunch \<Rightarrow> TunnelBrokerSessionReference \<times> SidecarLaunchContext \<times> string" where
  "BoundSidecarLaunch_into_parts b = (bl_reference b, bl_context b, bl_expected_auth_proof b)"

record ControllerStartReceipt =
  rc_runtime_generation :: u64
  rc_broker_reference :: TunnelBrokerSessionReference

definition ControllerStartReceipt_issue ::
  "u64 \<Rightarrow> TunnelBrokerSessionReference \<Rightarrow> SidecarHandshake \<Rightarrow> string \<Rightarrow> TunnelDeviceFacts option \<Rightarrow>
     ControllerStartReceipt net_result" where
  "ControllerStartReceipt_issue runtime_generation broker_reference handshake expected_auth_proof tunnel =
     (case TunnelBrokerSessionReference_validate broker_reference of
        Err e \<Rightarrow> Err e
      | Ok _ \<Rightarrow>
          if runtime_generation = 0 \<or>
             sh_protocol_version handshake \<noteq> NETWORK_IPC_PROTOCOL_VERSION \<or>
             sh_instance_id handshake \<noteq> tb_sidecar_instance_id broker_reference \<or>
             sh_auth_proof handshake \<noteq> expected_auth_proof \<or>
             (case tunnel of None \<Rightarrow> False
              | Some facts \<Rightarrow> tf_instance_id facts \<noteq> tb_sidecar_instance_id broker_reference)
          then Err AuthenticationFailed
          else Ok \<lparr>rc_runtime_generation = runtime_generation, rc_broker_reference = broker_reference\<rparr>)"

record BrokerRouteAuthorization =
  ba_runtime_generation :: u64
  ba_binding :: RouteLeaseBinding
  ba_tunnel :: TunnelDeviceFacts

definition ba_broker_generation :: "BrokerRouteAuthorization \<Rightarrow> u64" where
  "ba_broker_generation a = lb_broker_generation (ba_binding a)"

definition authorize_routes ::
  "TunnelDeviceFacts \<Rightarrow> string \<Rightarrow> string \<Rightarrow> ControllerStartReceipt \<Rightarrow> BrokerRouteAuthorization net_result" where
  "authorize_routes tunnel lease_id operation_id receipt =
     (let broker_reference = rc_broker_reference receipt in
      case TunnelBrokerSessionReference_validate broker_reference of
        Err e \<Rightarrow> Err e
      | Ok _ \<Rightarrow>
          if tb_protocol_version broker_reference \<noteq> ROUTE_BROKER_PROTOCOL_VERSION
          then Err UnsupportedProtocolVersion
          else
            let binding = \<lparr>lb_broker_protocol_version = tb_protocol_version broker_reference,
                           lb_broker_generation = tb_generation broker_reference,
                           lb_sidecar_instance_id = tb_sidecar_instance_id broker_reference,
                           lb_lease_id = lease_id, lb_operation_id = operation_id\<rparr> in
     (case map_err network_code (RouteLeaseBinding_validate binding) of
        Err e \<Rightarrow> Err e
      | Ok _ \<Rightarrow>
     (case TunnelDeviceFacts_validate (lb_sidecar_instance_id binding)
             (lb_operation_id binding @ ''.prepare'') tunnel of
        Err e \<Rightarrow> Err e
      | Ok _ \<Rightarrow> Ok \<lparr>ba_runtime_generation = rc_runtime_generation receipt, ba_binding = binding,
                    ba_tunnel = tunnel\<rparr>)))"

definition validate_start_identity ::
  "TunnelBrokerSessionReference \<Rightarrow> SidecarHandshake \<Rightarrow> TunnelDeviceFacts \<Rightarrow> unit net_result" where
  "validate_start_identity reference handshake tunnel =
     (case TunnelBrokerSessionReference_validate reference of
        Err e \<Rightarrow> Err e
      | Ok _ \<Rightarrow>
          if sh_instance_id handshake \<noteq> tb_sidecar_instance_id reference \<or>
             tf_instance_id tunnel \<noteq> tb_sidecar_instance_id reference
          then Err AuthenticationFailed else Ok ())"

subsection \<open>The chain of identities\<close>

lemma authorize_routes_Ok:
  assumes "authorize_routes tunnel lease op receipt = Ok a"
  shows "TunnelBrokerSessionReference_validate (rc_broker_reference receipt) = Ok () \<and>
    ba_runtime_generation a = rc_runtime_generation receipt \<and> ba_tunnel a = tunnel \<and>
    ba_binding a = from_broker
      \<lparr>bs_broker_protocol_version = tb_protocol_version (rc_broker_reference receipt),
       bs_broker_generation = tb_generation (rc_broker_reference receipt),
       bs_sidecar_instance_id = tb_sidecar_instance_id (rc_broker_reference receipt)\<rparr> lease op \<and>
    RouteLeaseBinding_validate (ba_binding a) = Ok () \<and>
    tf_instance_id tunnel = tb_sidecar_instance_id (rc_broker_reference receipt) \<and>
    tf_operation_id tunnel = op @ ''.prepare'' \<and> valid_utun_interface (tf_interface_name tunnel)"
  using assms
  by (auto simp: authorize_routes_def Let_def from_broker_def result_simps TunnelDeviceFacts_validate_def
      TunnelDeviceFacts_validate_owner_def split: result.splits if_splits)

text \<open>
  Claim C14. The authority to change routes is tied to one broker session: if the launch material was
  bound to a reference, a receipt was issued for the handshake, and the receipt authorised the routes,
  then the sidecar proved the knowledge of the token that was bound to the broker's own instance
  identifier, and handshake, tunnel and lease binding all carry this identifier, the lease carries the
  broker generation of the reference, and the tunnel is the one prepared for this very operation.
\<close>

theorem authority_identity_chain:
  assumes "SidecarLaunchMaterial_bind hmac reference m = Ok bound"
    and "ControllerStartReceipt_issue generation (bl_reference bound) handshake
      (bl_expected_auth_proof bound) facts = Ok receipt"
    and "authorize_routes tunnel lease op receipt = Ok a"
  shows "sh_auth_proof handshake = sidecar_auth_proof hmac (lm_auth_token m) (tb_sidecar_instance_id reference) \<and>
    lc_instance_id (bl_context bound) = tb_sidecar_instance_id reference \<and>
    sh_instance_id handshake = tb_sidecar_instance_id reference \<and>
    tf_instance_id (ba_tunnel a) = tb_sidecar_instance_id reference \<and>
    lb_sidecar_instance_id (ba_binding a) = tb_sidecar_instance_id reference \<and>
    ba_broker_generation a = tb_generation reference \<and> tb_generation reference \<noteq> 0 \<and>
    ba_runtime_generation a = generation \<and> generation \<noteq> 0 \<and>
    lb_lease_id (ba_binding a) = lease \<and> lb_operation_id (ba_binding a) = op \<and>
    tf_operation_id (ba_tunnel a) = op @ ''.prepare'' \<and>
    RouteLeaseBinding_validate (ba_binding a) = Ok ()"
proof -
  have b: "bl_reference bound = reference" "TunnelBrokerSessionReference_validate reference = Ok ()"
    "bl_expected_auth_proof bound = sidecar_auth_proof hmac (lm_auth_token m) (tb_sidecar_instance_id reference)"
    "lc_instance_id (bl_context bound) = tb_sidecar_instance_id reference"
    using assms(1)
    by (auto simp: SidecarLaunchMaterial_bind_def Let_def with_private_key_def SidecarLaunchContext_new_def
        split: result.splits)
  have r: "receipt = \<lparr>rc_runtime_generation = generation, rc_broker_reference = reference\<rparr>"
    "generation \<noteq> 0" "sh_instance_id handshake = tb_sidecar_instance_id reference"
    "sh_auth_proof handshake = bl_expected_auth_proof bound"
    using assms(2) b(1) by (auto simp: ControllerStartReceipt_issue_def split: result.splits if_splits)
  have "tb_generation reference \<noteq> 0"
    using b(2) by (auto simp: TunnelBrokerSessionReference_validate_def split: if_splits)
  then show ?thesis
    using authorize_routes_Ok [OF assms(3)] b r by (auto simp: ba_broker_generation_def from_broker_def)
qed

definition sample_hmac :: "u8 list \<Rightarrow> u8 list \<Rightarrow> u8 list" where
  "sample_hmac key message = key @ message"

definition sample_material :: SidecarLaunchMaterial where
  "sample_material = \<lparr>lm_auth_token = replicate 32 7, lm_private_key = replicate 32 9\<rparr>"

definition sample_bound :: BoundSidecarLaunch where
  "sample_bound = the_ok (SidecarLaunchMaterial_bind sample_hmac (st_reference sample_session) sample_material)"

definition sample_handshake :: SidecarHandshake where
  "sample_handshake =
     \<lparr>sh_protocol_version = NETWORK_IPC_PROTOCOL_VERSION, sh_instance_id = ''instance-1'',
      sh_auth_proof = bl_expected_auth_proof sample_bound\<rparr>"

lemma sample_receipt:
  "ControllerStartReceipt_issue 7 (bl_reference sample_bound) sample_handshake
     (bl_expected_auth_proof sample_bound) None =
   Ok \<lparr>rc_runtime_generation = 7, rc_broker_reference = st_reference sample_session\<rparr>"
  "SidecarLaunchMaterial_bind sample_hmac (st_reference sample_session) sample_material = Ok sample_bound"
  using sample_reference_valid
  by (simp_all add: ControllerStartReceipt_issue_def sample_handshake_def sample_bound_def
      SidecarLaunchMaterial_bind_def Let_def) (simp add: sample_session_def)

lemma sample_authorized:
  "\<exists>a. authorize_routes (ow_tunnel sample_owner) ''lease-0001'' ''operation-1''
     \<lparr>rc_runtime_generation = 7, rc_broker_reference = st_reference sample_session\<rparr> = Ok a"
proof -
  have ids: "valid_ipc_id ''instance-1''" "valid_ipc_id ''lease-0001''" "valid_ipc_id ''operation-1''"
    "valid_utun_interface ''utun7''"
    by code_simp+
  have "ow_tunnel sample_owner = \<lparr>tf_interface_name = ''utun7'', tf_mtu = 1420, tf_has_ipv4 = True,
        tf_has_ipv6 = False, tf_instance_id = ''instance-1'', tf_operation_id = ''operation-1.prepare''\<rparr>"
    by (simp add: sample_owner_def sample_lease_def)
  moreover have "st_reference sample_session =
      \<lparr>tb_protocol_version = 1, tb_generation = 91, tb_sidecar_instance_id = ''instance-1''\<rparr>"
    by (simp add: sample_session_def)
  ultimately show ?thesis
    using sample_reference_valid ids
    by (simp add: authorize_routes_def Let_def v3_versions RouteLeaseBinding_validate_def i64_max_def
        RouteBrokerSessionReference_validate_def TunnelDeviceFacts_validate_def
        TunnelDeviceFacts_validate_owner_def)
qed

theorem authority_identity_chain_witness:
  "\<exists>a. authorize_routes (ow_tunnel sample_owner) ''lease-0001'' ''operation-1''
      \<lparr>rc_runtime_generation = 7, rc_broker_reference = st_reference sample_session\<rparr> = Ok a \<and>
     lb_sidecar_instance_id (ba_binding a) = sh_instance_id sample_handshake"
proof -
  obtain a where a: "authorize_routes (ow_tunnel sample_owner) ''lease-0001'' ''operation-1''
      \<lparr>rc_runtime_generation = 7, rc_broker_reference = st_reference sample_session\<rparr> = Ok a"
    using sample_authorized by (elim exE)
  show ?thesis
    using authority_identity_chain [OF sample_receipt(2,1) a] a by simp
qed

end
