(* ===== verification/Route_Client_V3.thy ===== *)
theory Route_Client_V3
  imports Production_Session
begin

section \<open>The client of the version 3 route helper\<close>

text \<open>
  \<open>networking/route_helper_v3_client.rs\<close>: the reply structure of the bridge, its decoding with the check
  that the helper echoes the exact lease, and the calls.  The bridge is a record of functions on a state
  \<open>'x\<close> that receive the validated owner or reference.  The mutex that serialises the calls is never
  poisoned, since no call panics while it holds it.  The states of the helper have the prefix \<open>V3\<close>.
\<close>

record NativeReplyV3 =
  n3_transport_status :: u32
  n3_protocol_version :: u32
  n3_state :: u32
  n3_error_code :: u32
  n3_transition :: u64
  n3_broker_generation :: u64
  n3_sidecar_instance_id :: "u8 list"
  n3_route_lease_id :: "u8 list"
  n3_operation_id :: "u8 list"

datatype RouteHelperV3State =
    V3Idle | V3HoldPending | V3Held | V3Applied | V3RetirementPending | V3Released | V3RecoveryOnly
  | V3FailedClosed

record RouteHelperV3Status =
  hv_protocol_version :: u8
  hv_state :: RouteHelperV3State
  hv_transition :: u64
  hv_reference :: "RouteLeaseReferenceV3 option"
  hv_error_code :: "NetworkErrorCode option"

record 'x NativeV3Bridge =
  nv_discover :: "'x \<Rightarrow> NativeReplyV3 \<times> 'x"
  nv_owner :: "u32 \<Rightarrow> RouteLeaseOwnerV3 \<Rightarrow> 'x \<Rightarrow> NativeReplyV3 \<times> 'x"
  nv_reference :: "u32 \<Rightarrow> RouteLeaseReferenceV3 \<Rightarrow> 'x \<Rightarrow> NativeReplyV3 \<times> 'x"

definition bounded_text :: "u8 list \<Rightarrow> string option net_result" where
  "bounded_text value =
     (case dropWhile (\<lambda>b. b \<noteq> 0) value of
        [] \<Rightarrow> Err UnsupportedProtocolVersion
      | _ # after_nul \<Rightarrow>
          if list_ex (\<lambda>b. b \<noteq> 0) after_nul then Err UnsupportedProtocolVersion
          else if takeWhile (\<lambda>b. b \<noteq> 0) value = [] then Ok None
          else map_ok Some (ok_or (from_utf8 (takeWhile (\<lambda>b. b \<noteq> 0) value)) UnsupportedProtocolVersion))"

definition decode_v3_transport :: "u32 \<Rightarrow> NetworkErrorCode option" where
  "decode_v3_transport t =
     (if t = 0 then None
      else if t = 1 then Some OperationTimedOut
      else if t = 2 \<or> t = 4 \<or> t = 6 then Some SidecarUnavailable
      else if t = 3 then Some OperationCancelled
      else if t = 5 then Some UnsupportedProtocolVersion
      else if t = 7 then Some InvalidConfiguration
      else Some UnsupportedProtocolVersion)"

definition decode_v3_state :: "u32 \<Rightarrow> RouteHelperV3State option" where
  "decode_v3_state s =
     (if s = 0 then Some V3Idle else if s = 1 then Some V3HoldPending else if s = 2 then Some V3Held
      else if s = 3 then Some V3Applied else if s = 4 then Some V3RetirementPending
      else if s = 5 then Some V3Released else if s = 6 then Some V3RecoveryOnly
      else if s = 7 then Some V3FailedClosed else None)"

definition decode_v3_error :: "u32 \<Rightarrow> NetworkErrorCode option option" where
  "decode_v3_error e =
     (if e = 0 then Some None
      else if e = 1 then Some (Some SidecarUnavailable)
      else if e = 2 then Some (Some InvalidConfiguration)
      else if e = 3 then Some (Some PermissionDenied)
      else if e = 4 then Some (Some RouteJournalUnavailable)
      else if e = 5 then Some (Some RouteJournalCorrupted)
      else if e = 6 \<or> e = 7 then Some (Some RouteRollbackFailed)
      else if e = 8 then Some (Some RouteConflict)
      else if e = 9 then Some (Some InvalidStateTransition)
      else if e = 10 then Some (Some AuthenticationFailed)
      else if e = 11 \<or> e = 12 then Some (Some SidecarUnavailable)
      else None)"

text \<open>The identity fields are all empty, or together name a valid reference.\<close>

definition decode_v3_echo :: "NativeReplyV3 \<Rightarrow> RouteLeaseReferenceV3 option net_result" where
  "decode_v3_echo reply =
     (case bounded_text (n3_sidecar_instance_id reply) of
        Err e \<Rightarrow> Err e
      | Ok sidecar \<Rightarrow>
     (case bounded_text (n3_route_lease_id reply) of
        Err e \<Rightarrow> Err e
      | Ok lease \<Rightarrow>
     (case bounded_text (n3_operation_id reply) of
        Err e \<Rightarrow> Err e
      | Ok operation \<Rightarrow>
          if sidecar \<noteq> None \<or> lease \<noteq> None \<or> operation \<noteq> None \<or> n3_broker_generation reply \<noteq> 0
          then case (sidecar, lease, operation) of
            (Some sidecar, Some lease, Some operation) \<Rightarrow>
              let reference = \<lparr>rf_protocol_version = ROUTE_HELPER_V3_PROTOCOL_VERSION,
                               rf_broker_protocol_version = ROUTE_BROKER_PROTOCOL_VERSION,
                               rf_broker_generation = n3_broker_generation reply,
                               rf_sidecar_instance_id = sidecar, rf_lease_id = lease,
                               rf_operation_id = operation\<rparr> in
              (case map_err network_code (RouteLeaseReferenceV3_validate reference) of
                 Err e \<Rightarrow> Err e | Ok _ \<Rightarrow> Ok (Some reference))
          | _ \<Rightarrow> Err UnsupportedProtocolVersion
          else Ok None)))"

definition decode_native_reply ::
  "NativeReplyV3 \<Rightarrow> RouteLeaseReferenceV3 option \<Rightarrow> bool \<Rightarrow> RouteHelperV3Status net_result" where
  "decode_native_reply reply expected allow_idle_without_reference =
     (case decode_v3_transport (n3_transport_status reply) of
        Some e \<Rightarrow> Err e
      | None \<Rightarrow>
      if n3_protocol_version reply \<noteq> ucast ROUTE_HELPER_V3_PROTOCOL_VERSION then Err UnsupportedProtocolVersion
      else case decode_v3_state (n3_state reply) of
        None \<Rightarrow> Err UnsupportedProtocolVersion
      | Some state \<Rightarrow>
     (case decode_v3_error (n3_error_code reply) of
        None \<Rightarrow> Err UnsupportedProtocolVersion
      | Some error_code \<Rightarrow>
     (case decode_v3_echo reply of
        Err e \<Rightarrow> Err e
      | Ok echoed \<Rightarrow>
          let raw_idle = (n3_state reply = 0) in
          if (case expected of
                None \<Rightarrow> echoed \<noteq> None \<or> n3_transition reply \<noteq> 0 \<or>
                  (\<not> raw_idle \<and> n3_state reply \<noteq> 6 \<and> n3_state reply \<noteq> 7)
              | Some expected \<Rightarrow>
                 (case echoed of
                    Some actual \<Rightarrow> actual \<noteq> expected
                  | None \<Rightarrow> \<not> (allow_idle_without_reference \<and> raw_idle \<and> error_code = None)))
          then Err AuthenticationFailed
          else if echoed \<noteq> None \<and> n3_transition reply = 0 then Err UnsupportedProtocolVersion
          else Ok \<lparr>hv_protocol_version = ROUTE_HELPER_V3_PROTOCOL_VERSION, hv_state = state,
                   hv_transition = n3_transition reply, hv_reference = echoed,
                   hv_error_code = error_code\<rparr>)))"

subsection \<open>The calls\<close>

definition c_string :: "string \<Rightarrow> string net_result" where
  "c_string value = (if CHR 0x00 \<in> set value then Err InvalidConfiguration else Ok value)"

definition v3_discover :: "'x NativeV3Bridge \<Rightarrow> 'x \<Rightarrow> RouteHelperV3Status net_result \<times> 'x" where
  "v3_discover N x = (case nv_discover N x of (reply, x) \<Rightarrow> (decode_native_reply reply None False, x))"

definition owner_call ::
  "'x NativeV3Bridge \<Rightarrow> u32 \<Rightarrow> RouteLeaseOwnerV3 \<Rightarrow> 'x \<Rightarrow> RouteHelperV3Status net_result \<times> 'x" where
  "owner_call N method owner x =
     (case map_err network_code (RouteLeaseOwnerV3_validate owner) of
        Err e \<Rightarrow> (Err e, x)
      | Ok _ \<Rightarrow>
          if method \<noteq> 0 \<and> method \<noteq> 1 then (Err InvalidConfiguration, x)
          else
     (case collect_results c_string
             ([ow_sidecar_instance_id owner, ow_lease_id owner, ow_operation_id owner,
               tf_interface_name (ow_tunnel owner), tf_operation_id (ow_tunnel owner)] @
              ow_active_mihomo_tun_interfaces owner @ ow_private_cidrs owner) of
        Err e \<Rightarrow> (Err e, x)
      | Ok _ \<Rightarrow>
     (case nv_owner N method owner x of (reply, x) \<Rightarrow>
        (decode_native_reply reply (Some (from_owner owner)) False, x))))"

definition reference_call ::
  "'x NativeV3Bridge \<Rightarrow> u32 \<Rightarrow> RouteLeaseReferenceV3 \<Rightarrow> 'x \<Rightarrow> RouteHelperV3Status net_result \<times> 'x" where
  "reference_call N method reference x =
     (case map_err network_code (RouteLeaseReferenceV3_validate reference) of
        Err e \<Rightarrow> (Err e, x)
      | Ok _ \<Rightarrow>
          if \<not> (0 \<le> sint method \<and> sint method \<le> 3) then (Err InvalidConfiguration, x)
          else
     (case collect_results c_string
             [rf_sidecar_instance_id reference, rf_lease_id reference, rf_operation_id reference] of
        Err e \<Rightarrow> (Err e, x)
      | Ok _ \<Rightarrow>
     (case nv_reference N method reference x of (reply, x) \<Rightarrow>
        (decode_native_reply reply (Some reference) (method = 1), x))))"

text \<open>\<open>RouteHelperV3Operations\<close>, and its implementation by the client.\<close>

record 'x RouteHelperV3Operations =
  vo_discover :: "'x \<Rightarrow> RouteHelperV3Status net_result \<times> 'x"
  vo_begin :: "RouteLeaseOwnerV3 \<Rightarrow> 'x \<Rightarrow> RouteHelperV3Status net_result \<times> 'x"
  vo_recover :: "RouteLeaseOwnerV3 \<Rightarrow> 'x \<Rightarrow> RouteHelperV3Status net_result \<times> 'x"
  vo_apply :: "RouteLeaseReferenceV3 \<Rightarrow> 'x \<Rightarrow> RouteHelperV3Status net_result \<times> 'x"
  vo_rollback :: "RouteLeaseReferenceV3 \<Rightarrow> 'x \<Rightarrow> RouteHelperV3Status net_result \<times> 'x"
  vo_heartbeat :: "RouteLeaseReferenceV3 \<Rightarrow> 'x \<Rightarrow> RouteHelperV3Status net_result \<times> 'x"
  vo_status :: "RouteLeaseReferenceV3 \<Rightarrow> 'x \<Rightarrow> RouteHelperV3Status net_result \<times> 'x"

definition RouteHelperV3Client_impl :: "'x NativeV3Bridge \<Rightarrow> 'x RouteHelperV3Operations" where
  "RouteHelperV3Client_impl N =
     \<lparr>vo_discover = v3_discover N, vo_begin = owner_call N 0, vo_recover = owner_call N 1,
      vo_apply = reference_call N 0, vo_rollback = reference_call N 1,
      vo_heartbeat = reference_call N 2, vo_status = reference_call N 3\<rparr>"

subsection \<open>What an accepted reply says\<close>

lemma bounded_text_identifier: "bounded_text raw = Ok (Some s) \<longleftrightarrow> decode_identifier raw = Ok s"
proof -
  have "(case d of [] \<Rightarrow> Err e | _ # a \<Rightarrow>
       if list_ex (\<lambda>b. b \<noteq> 0) a then Err e else if t = [] then Ok None
       else map_ok Some (ok_or (from_utf8 t) e)) = Ok (Some s) \<longleftrightarrow>
     (case d of [] \<Rightarrow> Err e | _ # a \<Rightarrow>
       if t = [] \<or> list_ex (\<lambda>b. b \<noteq> 0) a then Err e else ok_or (from_utf8 t) e) = Ok s"
    for d t and e :: NetworkErrorCode
    by (cases d) (auto simp: ok_or_def split: option.splits)
  then show ?thesis unfolding bounded_text_def decode_identifier_def .
qed

lemma decode_native_reply_Some:
  assumes "decode_native_reply reply (Some r) allow = Ok st"
  shows "hv_protocol_version st = 3 \<and>
    (hv_reference st = Some r \<and> hv_transition st \<noteq> 0 \<or>
     hv_reference st = None \<and> allow \<and> hv_state st = V3Idle \<and> hv_error_code st = None)"
  using assms
  by (auto simp: decode_native_reply_def Let_def decode_v3_state_def v3_versions
      split: option.splits if_splits result.splits)

lemma decode_native_reply_None:
  assumes "decode_native_reply reply None allow = Ok st"
  shows "hv_protocol_version st = 3 \<and> hv_reference st = None \<and> hv_transition st = 0 \<and>
    hv_state st \<in> {V3Idle, V3RecoveryOnly, V3FailedClosed}"
  using assms
  by (auto simp: decode_native_reply_def Let_def decode_v3_state_def v3_versions
      split: option.splits if_splits result.splits)

text \<open>A valid reference has no NUL, so the check of \<open>c_string\<close> never refuses a validated lease.\<close>

lemma valid_ipc_id_c_string: "valid_ipc_id s \<Longrightarrow> c_string s = Ok s"
  by (auto simp: c_string_def valid_ipc_id_def list_all_iff char_class_defs)

lemma reference_c_strings:
  assumes "RouteLeaseReferenceV3_validate r = Ok ()"
  shows "collect_results c_string [rf_sidecar_instance_id r, rf_lease_id r, rf_operation_id r] =
    Ok [rf_sidecar_instance_id r, rf_lease_id r, rf_operation_id r]"
proof -
  have "valid_ipc_id (rf_sidecar_instance_id r)" "valid_ipc_id (rf_lease_id r)" "valid_ipc_id (rf_operation_id r)"
    using assms
    by (auto simp: RouteLeaseReferenceV3_validate_def RouteLeaseBinding_validate_def
        RouteLeaseReferenceV3_binding_def RouteBrokerSessionReference_validate_def
        split: if_splits result.splits)
  then show ?thesis by (simp add: valid_ipc_id_c_string)
qed

end
