(* ===== verification/Route_Boundary.thy ===== *)
theory Route_Boundary
  imports Route_Helper
begin

section \<open>The contract of a route boundary\<close>

text \<open>
  \<open>ProductionRouteBoundary\<close> of \<open>networking/production_service.rs\<close> is the interface through which the service
  changes routes; \<open>route_helper_client.rs\<close> and \<open>broker_bound_route_v3.rs\<close> implement it.  This theory has the
  types of the interface, the issuer of retirement receipts, and a locale for what the service relies
  on when it replaces a boundary: a receipt means that no lease is left at the helper.
\<close>

datatype ProductionRouteDisposition = BoundaryReusable | BoundaryBusy | BoundaryRecoveryOnly | BoundaryRetired

record RouteRetirementIssuer =
  ri_boundary_incarnation :: u64

text \<open>The static counter of incarnations is passed in and out.\<close>

definition RouteRetirementIssuer_allocate :: "u64 \<Rightarrow> RouteRetirementIssuer net_result \<times> u64" where
  "RouteRetirementIssuer_allocate counter =
     (case checked_add counter 1 of
        None \<Rightarrow> (Err InvalidStateTransition, counter)
      | Some n \<Rightarrow> (Ok \<lparr>ri_boundary_incarnation = counter\<rparr>, n))"

record ProductionRouteRetirementReceipt =
  rr_boundary_incarnation :: u64
  rr_native_generation :: u64

definition ProductionRouteRetirementReceipt_issued ::
  "RouteRetirementIssuer \<Rightarrow> u64 \<Rightarrow> ProductionRouteRetirementReceipt" where
  "ProductionRouteRetirementReceipt_issued issuer native_generation =
     \<lparr>rr_boundary_incarnation = ri_boundary_incarnation issuer, rr_native_generation = native_generation\<rparr>"

datatype ProductionRouteRetirementResult =
    ResultRetired ProductionRouteRetirementReceipt | ResultBusy | ResultRecoveryOnly | ResultAlreadyRetired

text \<open>
  \<open>move\<close> is one call of any of the mutating methods, with any outcome; \<open>leased\<close> reads from the state of
  the helper whether it may still have a lease of this boundary.
\<close>

inductive boundary_history ::
  "('s \<Rightarrow> ProductionRouteRetirementResult \<times> 's) \<Rightarrow> ('s \<Rightarrow> 's \<Rightarrow> bool) \<Rightarrow> 's \<Rightarrow> 's \<Rightarrow> bool"
  for try_retire move where
  history_refl: "boundary_history try_retire move s s"
| history_move: "boundary_history try_retire move s t \<Longrightarrow> move t u \<Longrightarrow>
     boundary_history try_retire move s u"
| history_retire: "boundary_history try_retire move s t \<Longrightarrow>
     boundary_history try_retire move s (snd (try_retire t))"

locale route_boundary =
  fixes disposition :: "'s \<Rightarrow> ProductionRouteDisposition"
    and try_retire :: "'s \<Rightarrow> ProductionRouteRetirementResult \<times> 's"
    and move :: "'s \<Rightarrow> 's \<Rightarrow> bool"
    and leased :: "'s \<Rightarrow> bool"
    and accounted :: "'s \<Rightarrow> bool"
  assumes move_accounted: "move s s' \<Longrightarrow> accounted s \<Longrightarrow> accounted s'"
    and retire_accounted: "accounted s \<Longrightarrow> accounted (snd (try_retire s))"
    and reusable_free: "accounted s \<Longrightarrow> disposition s = BoundaryReusable \<Longrightarrow> \<not> leased s"
    and receipt_given: "try_retire s = (ResultRetired r, s') \<Longrightarrow>
      disposition s = BoundaryReusable \<and> disposition s' = BoundaryRetired \<and> (leased s' \<longrightarrow> leased s)"
    and retired_inert: "disposition s = BoundaryRetired \<Longrightarrow> move s s' \<Longrightarrow> s' = s"
    and retired_once: "disposition s = BoundaryRetired \<Longrightarrow> try_retire s = (ResultAlreadyRetired, s)"
begin

abbreviation history :: "'s \<Rightarrow> 's \<Rightarrow> bool" where
  "history \<equiv> boundary_history try_retire move"

lemma history_accounted: "history s t \<Longrightarrow> accounted s \<Longrightarrow> accounted t"
  by (induction rule: boundary_history.induct) (auto dest: move_accounted retire_accounted)

lemma history_retired: "history s t \<Longrightarrow> disposition s = BoundaryRetired \<Longrightarrow> t = s"
  by (induction rule: boundary_history.induct) (auto dest: retired_inert simp: retired_once)

text \<open>A receipt proves the absence of a lease, for ever, and is given once.\<close>

lemma receipt_proves_absence:
  assumes "accounted s0" and "history s0 s" and "try_retire s = (ResultRetired r, s')" and "history s' t"
  shows "\<not> leased s \<and> t = s' \<and> \<not> leased t \<and> fst (try_retire t) = ResultAlreadyRetired"
proof -
  note g = receipt_given [OF assms(3)]
  have "\<not> leased s" using reusable_free [OF history_accounted [OF assms(2,1)]] g by blast
  moreover have "t = s'" using history_retired [OF assms(4)] g by blast
  ultimately show ?thesis using g retired_once by auto
qed

end

end
