(* ===== verification/Production_Route_V3.thy ===== *)
theory Production_Route_V3
  imports Production_Session
begin

section \<open>The broker-bound route lifecycle\<close>

text \<open>
  \<open>networking/production_route_v3.rs\<close>: a session takes the broker hold, applies the routes, removes them
  and releases the hold, and writes every step to the lease journal before the next one.  The three
  adapters (journal, broker, routes) are one record of operations on a shared state \<open>'x\<close>.  An operation
  returns its result, the session and the state of the adapters.
\<close>

subsection \<open>Confirmations and adapters\<close>

datatype BrokerRouteDisposition = DispositionHeld | DispositionReleased

record BrokerRouteConfirmation =
  bc_binding :: RouteLeaseBinding
  bc_disposition :: BrokerRouteDisposition

definition BrokerRouteConfirmation_held :: "RouteLeaseBinding \<Rightarrow> BrokerRouteConfirmation" where
  "BrokerRouteConfirmation_held binding = \<lparr>bc_binding = binding, bc_disposition = DispositionHeld\<rparr>"

definition BrokerRouteConfirmation_released :: "RouteLeaseBinding \<Rightarrow> BrokerRouteConfirmation" where
  "BrokerRouteConfirmation_released binding = \<lparr>bc_binding = binding, bc_disposition = DispositionReleased\<rparr>"

definition BrokerRouteConfirmation_require ::
  "RouteLeaseBinding \<Rightarrow> BrokerRouteDisposition \<Rightarrow> BrokerRouteConfirmation \<Rightarrow> unit lease_result" where
  "BrokerRouteConfirmation_require expected disposition c =
     (case RouteLeaseBinding_validate (bc_binding c) of
        Err e \<Rightarrow> Err e
      | Ok _ \<Rightarrow>
          if \<not> RouteLeaseBinding_matches expected (bc_binding c) \<or> bc_disposition c \<noteq> disposition
          then Err OwnershipMismatch else Ok ())"

record RouteAbsenceProofV3 =
  ap_reference :: RouteLeaseReferenceV3

definition RouteAbsenceProofV3_new :: "RouteLeaseReferenceV3 \<Rightarrow> RouteAbsenceProofV3" where
  "RouteAbsenceProofV3_new reference = \<lparr>ap_reference = reference\<rparr>"

definition RouteAbsenceProofV3_require ::
  "RouteLeaseReferenceV3 \<Rightarrow> RouteAbsenceProofV3 \<Rightarrow> unit lease_result" where
  "RouteAbsenceProofV3_require expected p =
     (case RouteLeaseReferenceV3_validate (ap_reference p) of
        Err e \<Rightarrow> Err e
      | Ok _ \<Rightarrow> if ap_reference p \<noteq> expected then Err OwnershipMismatch else Ok ())"

record 'x ProductionRouteV3Adapters =
  persist_durable :: "RouteLeaseJournalRecord \<Rightarrow> 'x \<Rightarrow> unit net_result \<times> 'x"
  hold_exact :: "RouteLeaseBinding \<Rightarrow> 'x \<Rightarrow> BrokerRouteConfirmation net_result \<times> 'x"
  release_exact :: "RouteLeaseBinding \<Rightarrow> 'x \<Rightarrow> BrokerRouteConfirmation net_result \<times> 'x"
  apply_exact :: "RouteLeaseOwnerV3 \<Rightarrow> 'x \<Rightarrow> unit net_result \<times> 'x"
  rollback_and_prove_absent :: "RouteLeaseReferenceV3 \<Rightarrow> 'x \<Rightarrow> RouteAbsenceProofV3 net_result \<times> 'x"

datatype ProductionRouteV3Error =
    Contract RouteLeaseContractError
  | Journal NetworkErrorCode
  | Broker NetworkErrorCode
  | RouteApply NetworkErrorCode
  | RouteRollback NetworkErrorCode

type_synonym 'a v3_result = "(ProductionRouteV3Error, 'a) result"

subsection \<open>The session\<close>

record ProductionRouteV3Session =
  rs_authorization :: BrokerRouteAuthorization
  rs_owner :: RouteLeaseOwnerV3
  rs_reference :: RouteLeaseReferenceV3
  rs_record :: "RouteLeaseJournalRecord option"

definition owner_from_authorization ::
  "BrokerRouteAuthorization \<Rightarrow> u64 \<Rightarrow> string list \<Rightarrow> string list \<Rightarrow> RouteLeaseOwnerV3" where
  "owner_from_authorization authorization profile_revision active_mihomo_tun_interfaces private_cidrs =
     (let binding = ba_binding authorization in
      \<lparr>ow_protocol_version = ROUTE_HELPER_V3_PROTOCOL_VERSION,
       ow_broker_protocol_version = lb_broker_protocol_version binding,
       ow_broker_generation = lb_broker_generation binding,
       ow_sidecar_instance_id = lb_sidecar_instance_id binding,
       ow_lease_id = lb_lease_id binding, ow_operation_id = lb_operation_id binding,
       ow_profile_revision = profile_revision, ow_tunnel = ba_tunnel authorization,
       ow_active_mihomo_tun_interfaces = active_mihomo_tun_interfaces,
       ow_private_cidrs = private_cidrs\<rparr>)"

definition require_owner_authority ::
  "RouteLeaseOwnerV3 \<Rightarrow> BrokerRouteAuthorization \<Rightarrow> unit v3_result" where
  "require_owner_authority owner authorization =
     (case map_err Contract (RouteLeaseOwnerV3_validate owner) of
        Err e \<Rightarrow> Err e
      | Ok _ \<Rightarrow>
          if \<not> RouteLeaseBinding_matches (ba_binding authorization) (RouteLeaseOwnerV3_binding owner) \<or>
             ow_tunnel owner \<noteq> ba_tunnel authorization
          then Err (Contract OwnershipMismatch) else Ok ())"

definition v3_new ::
  "BrokerRouteAuthorization \<Rightarrow> u64 \<Rightarrow> string list \<Rightarrow> string list \<Rightarrow> ProductionRouteV3Session v3_result" where
  "v3_new authorization profile_revision active_mihomo_tun_interfaces private_cidrs =
     (let owner = owner_from_authorization authorization profile_revision
                    active_mihomo_tun_interfaces private_cidrs in
      case map_err Contract (RouteLeaseOwnerV3_validate owner) of
        Err e \<Rightarrow> Err e
      | Ok _ \<Rightarrow> Ok \<lparr>rs_authorization = authorization, rs_owner = owner,
                    rs_reference = from_owner owner, rs_record = None\<rparr>)"

definition v3_resume ::
  "BrokerRouteAuthorization \<Rightarrow> RouteLeaseJournalRecord \<Rightarrow> ProductionRouteV3Session v3_result" where
  "v3_resume authorization record =
     (case map_err Contract (RouteLeaseJournalRecord_validate record) of
        Err e \<Rightarrow> Err e
      | Ok _ \<Rightarrow>
     (case require_owner_authority (jr_owner record) authorization of
        Err e \<Rightarrow> Err e
      | Ok _ \<Rightarrow> Ok \<lparr>rs_authorization = authorization, rs_owner = jr_owner record,
                    rs_reference = from_owner (jr_owner record), rs_record = Some record\<rparr>))"

definition journal_state :: "ProductionRouteV3Session \<Rightarrow> RouteLeaseJournalState option" where
  "journal_state s = map_option jr_state (rs_record s)"

definition permits_sidecar_stop :: "ProductionRouteV3Session \<Rightarrow> bool" where
  "permits_sidecar_stop s \<longleftrightarrow> journal_state s \<in> {None, Some Released}"

definition validate_authority :: "ProductionRouteV3Session \<Rightarrow> unit v3_result" where
  "validate_authority s =
     (case require_owner_authority (rs_owner s) (rs_authorization s) of
        Err e \<Rightarrow> Err e
      | Ok _ \<Rightarrow> map_err Contract (matches_owner (rs_owner s) (rs_reference s)))"

definition transition_durable ::
  "'x ProductionRouteV3Adapters \<Rightarrow> RouteLeaseJournalState \<Rightarrow> ProductionRouteV3Session \<Rightarrow> 'x \<Rightarrow>
     unit v3_result \<times> ProductionRouteV3Session \<times> 'x" where
  "transition_durable A next_state s x =
     (case ok_or (rs_record s) (Contract InvalidStateTransitionV3) of
        Err e \<Rightarrow> (Err e, s, x)
      | Ok current \<Rightarrow>
     (case map_err Contract (transition next_state (rs_reference s) current) of
        Err e \<Rightarrow> (Err e, s, x)
      | Ok next_record \<Rightarrow>
     (case persist_durable A next_record x of
        (Err e, x) \<Rightarrow> (Err (Journal e), s, x)
      | (Ok _, x) \<Rightarrow> (Ok (), s\<lparr>rs_record := Some next_record\<rparr>, x))))"

definition v3_release ::
  "'x ProductionRouteV3Adapters \<Rightarrow> ProductionRouteV3Session \<Rightarrow> 'x \<Rightarrow>
     unit v3_result \<times> ProductionRouteV3Session \<times> 'x" where
  "v3_release A s x =
     (if journal_state s \<noteq> Some RetirementPending then (Err (Contract InvalidStateTransitionV3), s, x)
      else
     (case release_exact A (ba_binding (rs_authorization s)) x of
        (Err e, x) \<Rightarrow> (Err (Broker e), s, x)
      | (Ok confirmation, x) \<Rightarrow>
     (case map_err Contract (BrokerRouteConfirmation_require (ba_binding (rs_authorization s))
             DispositionReleased confirmation) of
        Err e \<Rightarrow> (Err e, s, x)
      | Ok _ \<Rightarrow> transition_durable A Released s x)))"

definition rollback_then_release ::
  "'x ProductionRouteV3Adapters \<Rightarrow> ProductionRouteV3Session \<Rightarrow> 'x \<Rightarrow>
     unit v3_result \<times> ProductionRouteV3Session \<times> 'x" where
  "rollback_then_release A s x =
     (case rollback_and_prove_absent A (rs_reference s) x of
        (Err e, x) \<Rightarrow> (Err (RouteRollback e), s, x)
      | (Ok proof_, x) \<Rightarrow>
     (case map_err Contract (RouteAbsenceProofV3_require (rs_reference s) proof_) of
        Err e \<Rightarrow> (Err e, s, x)
      | Ok _ \<Rightarrow>
     (case transition_durable A RetirementPending s x of
        (Err e, s, x) \<Rightarrow> (Err e, s, x)
      | (Ok _, s, x) \<Rightarrow> v3_release A s x)))"

text \<open>The failures after the hold undo the routes and report the first error, or that of the cleanup.\<close>

definition fail_after_cleanup ::
  "'x ProductionRouteV3Adapters \<Rightarrow> ProductionRouteV3Error \<Rightarrow> ProductionRouteV3Session \<Rightarrow> 'x \<Rightarrow>
     unit v3_result \<times> ProductionRouteV3Session \<times> 'x" where
  "fail_after_cleanup A error s x =
     (case rollback_then_release A s x of
        (Err cleanup_error, s, x) \<Rightarrow> (Err cleanup_error, s, x)
      | (Ok _, s, x) \<Rightarrow> (Err error, s, x))"

definition v3_connect ::
  "'x ProductionRouteV3Adapters \<Rightarrow> ProductionRouteV3Session \<Rightarrow> 'x \<Rightarrow>
     unit v3_result \<times> ProductionRouteV3Session \<times> 'x" where
  "v3_connect A s x =
     (if rs_record s \<noteq> None then (Err (Contract ReplayDetected), s, x)
      else
     (case validate_authority s of
        Err e \<Rightarrow> (Err e, s, x)
      | Ok _ \<Rightarrow>
     (case map_err Contract (hold_pending (rs_owner s)) of
        Err e \<Rightarrow> (Err e, s, x)
      | Ok pending \<Rightarrow>
     (case persist_durable A pending x of
        (Err e, x) \<Rightarrow> (Err (Journal e), s, x)
      | (Ok _, x) \<Rightarrow>
          let s = s\<lparr>rs_record := Some pending\<rparr> in
     (case hold_exact A (ba_binding (rs_authorization s)) x of
        (Err e, x) \<Rightarrow> (Err (Broker e), s, x)
      | (Ok confirmation, x) \<Rightarrow>
     (case map_err Contract (BrokerRouteConfirmation_require (ba_binding (rs_authorization s))
             DispositionHeld confirmation) of
        Err e \<Rightarrow> (Err e, s, x)
      | Ok _ \<Rightarrow>
     (case transition_durable A Held s x of
        (Err e, s, x) \<Rightarrow> (Err e, s, x)
      | (Ok _, s, x) \<Rightarrow>
     (case apply_exact A (rs_owner s) x of
        (Err e, x) \<Rightarrow> fail_after_cleanup A (RouteApply e) s x
      | (Ok _, x) \<Rightarrow>
     (case transition_durable A AppliedV3 s x of
        (Err e, s, x) \<Rightarrow> fail_after_cleanup A e s x
      | (Ok _, s, x) \<Rightarrow> (Ok (), s, x))))))))))"

definition v3_disconnect ::
  "'x ProductionRouteV3Adapters \<Rightarrow> ProductionRouteV3Session \<Rightarrow> 'x \<Rightarrow>
     unit v3_result \<times> ProductionRouteV3Session \<times> 'x" where
  "v3_disconnect A s x =
     (case validate_authority s of
        Err e \<Rightarrow> (Err e, s, x)
      | Ok _ \<Rightarrow>
     (case journal_state s of
        Some Held \<Rightarrow> rollback_then_release A s x
      | Some AppliedV3 \<Rightarrow> rollback_then_release A s x
      | Some RetirementPending \<Rightarrow> v3_release A s x
      | Some HoldPending \<Rightarrow>
          (case transition_durable A RetirementPending s x of
             (Err e, s, x) \<Rightarrow> (Err e, s, x)
           | (Ok _, s, x) \<Rightarrow> v3_release A s x)
      | Some Released \<Rightarrow> (Err (Contract ReplayDetected), s, x)
      | Some RecoveryOnlyState \<Rightarrow> (Err (Contract RecoveryOnly), s, x)
      | None \<Rightarrow> (Err (Contract InvalidStateTransitionV3), s, x)))"

subsection \<open>Effects of the steps\<close>

definition v3_wf :: "ProductionRouteV3Session \<Rightarrow> bool" where
  "v3_wf s \<longleftrightarrow>
     RouteLeaseOwnerV3_validate (rs_owner s) = Ok () \<and>
     RouteLeaseOwnerV3_binding (rs_owner s) = ba_binding (rs_authorization s) \<and>
     ow_tunnel (rs_owner s) = ba_tunnel (rs_authorization s) \<and>
     rs_reference s = from_owner (rs_owner s) \<and>
     (\<forall>m. rs_record s = Some m \<longrightarrow>
        RouteLeaseJournalRecord_validate m = Ok () \<and> jr_owner m = rs_owner s)"

definition same_authority :: "ProductionRouteV3Session \<Rightarrow> ProductionRouteV3Session \<Rightarrow> bool" where
  "same_authority s' s \<longleftrightarrow> rs_authorization s' = rs_authorization s \<and> rs_owner s' = rs_owner s \<and>
     rs_reference s' = rs_reference s"

lemma same_authority_refl [simp]: "same_authority s s"
  by (simp add: same_authority_def)

lemma same_authority_trans: "same_authority s2 s1 \<Longrightarrow> same_authority s1 s \<Longrightarrow> same_authority s2 s"
  by (simp add: same_authority_def)

lemma require_owner_authority_Ok:
  "require_owner_authority w a = Ok () \<longleftrightarrow>
     RouteLeaseOwnerV3_validate w = Ok () \<and> RouteLeaseOwnerV3_binding w = ba_binding a \<and>
     ow_tunnel w = ba_tunnel a"
  by (auto simp: require_owner_authority_def RouteLeaseBinding_matches_def result_simps split: result.splits)

lemma validate_authority_Ok:
  "v3_wf s \<longleftrightarrow> validate_authority s = Ok () \<and>
     (\<forall>m. rs_record s = Some m \<longrightarrow> RouteLeaseJournalRecord_validate m = Ok () \<and> jr_owner m = rs_owner s)"
proof -
  have "RouteLeaseOwnerV3_validate (rs_owner s) = Ok ()"
    if "require_owner_authority (rs_owner s) (rs_authorization s) = Ok ()"
    using that by (simp add: require_owner_authority_Ok)
  then have "validate_authority s = Ok () \<longleftrightarrow>
    require_owner_authority (rs_owner s) (rs_authorization s) = Ok () \<and>
    rs_reference s = from_owner (rs_owner s)"
    by (cases "require_owner_authority (rs_owner s) (rs_authorization s)")
      (auto simp: validate_authority_def result_simps matches_owner_Ok)
  then show ?thesis by (auto simp: v3_wf_def require_owner_authority_Ok)
qed

lemma transition_Ok:
  "RouteLeaseJournalRecord_validate m = Ok () \<Longrightarrow>
     transition n (from_owner (jr_owner m)) m = Ok m' \<longleftrightarrow>
       valid_transition (jr_state m) n \<and> m' = advance n m"
proof -
  assume v: "RouteLeaseJournalRecord_validate m = Ok ()"
  then have "unat (jr_transition m) \<le> 5"
    using shape_bound by (auto simp: record_valid_iff)
  then have c: "checked_add (jr_transition m) 1 = Some (jr_transition m + 1)"
    by (simp add: checked_add_def)
  moreover have "jr_protocol_version m = 3" using v by (simp add: record_valid_iff)
  ultimately show ?thesis
    using v by (auto simp: transition_def ok_or_def apply_transition_Ok lease_event_def)
qed

lemma transition_durable_cases:
  assumes "v3_wf s" and "transition_durable A n s x = (r, s', x')"
  obtains (refused) e where "r = Err e" "s' = s" "x' = x"
      "rs_record s = None \<or> \<not> valid_transition (jr_state (the (rs_record s))) n"
  | (failed) m e where "rs_record s = Some m" "valid_transition (jr_state m) n"
      "persist_durable A (advance n m) x = (Err e, x')" "r = Err (Journal e)" "s' = s"
  | (written) m where "rs_record s = Some m" "valid_transition (jr_state m) n"
      "persist_durable A (advance n m) x = (Ok (), x')" "r = Ok ()"
      "s' = s\<lparr>rs_record := Some (advance n m)\<rparr>"
proof (cases "rs_record s")
  case None
  then show ?thesis using assms(2) refused by (auto simp: transition_durable_def ok_or_def)
next
  case (Some m)
  then have m: "RouteLeaseJournalRecord_validate m = Ok ()" "rs_reference s = from_owner (jr_owner m)"
    using assms(1) by (auto simp: v3_wf_def)
  show ?thesis
  proof (cases "valid_transition (jr_state m) n")
    case True
    then have "transition n (rs_reference s) m = Ok (advance n m)" using m by (simp add: transition_Ok)
    with Some assms(2) have "(case persist_durable A (advance n m) x of
        (Err e, x) \<Rightarrow> (Err (Journal e), s, x)
      | (Ok _, x) \<Rightarrow> (Ok (), s\<lparr>rs_record := Some (advance n m)\<rparr>, x)) = (r, s', x')"
      by (simp add: transition_durable_def ok_or_def)
    then show ?thesis
      using Some True failed written by (elim case_runE) auto
  next
    case False
    then obtain e where "transition n (rs_reference s) m = Err e"
      using m by (cases "transition n (rs_reference s) m") (auto simp: transition_Ok)
    with Some False assms(2) show ?thesis
      using refused by (auto simp: transition_durable_def ok_or_def)
  qed
qed

lemma wf_advance:
  "v3_wf s \<Longrightarrow> rs_record s = Some m \<Longrightarrow> valid_transition (jr_state m) n \<Longrightarrow>
     v3_wf (s\<lparr>rs_record := Some (advance n m)\<rparr>)"
  using advance_valid [of m n] by (auto simp: v3_wf_def) (simp add: advance_def)

lemma confirmation_require:
  "BrokerRouteConfirmation_require b d c = Ok () \<Longrightarrow> c = \<lparr>bc_binding = b, bc_disposition = d\<rparr>"
  by (auto simp: BrokerRouteConfirmation_require_def RouteLeaseBinding_matches_def
      split: result.splits if_splits)

lemma absence_require:
  "RouteAbsenceProofV3_require r p = Ok () \<Longrightarrow> p = RouteAbsenceProofV3_new r"
  by (auto simp: RouteAbsenceProofV3_require_def RouteAbsenceProofV3_new_def split: result.splits if_splits)

lemma v3_disconnect_cases:
  assumes "v3_wf s" and "v3_disconnect A s x = (r, s', x')"
  obtains (rollback) "journal_state s \<in> {Some Held, Some AppliedV3}" "rollback_then_release A s x = (r, s', x')"
  | (release) "journal_state s = Some RetirementPending" "v3_release A s x = (r, s', x')"
  | (failed) e where "journal_state s = Some HoldPending"
      "transition_durable A RetirementPending s x = (Err e, s', x')" "r = Err e"
  | (retire) v t y where "journal_state s = Some HoldPending"
      "transition_durable A RetirementPending s x = (Ok v, t, y)" "v3_release A t y = (r, s', x')"
  | (refused) e where "journal_state s \<in> {Some Released, Some RecoveryOnlyState, None}"
      "r = Err e" "s' = s" "x' = x"
proof -
  have "validate_authority s = Ok ()" using assms(1) by (simp add: validate_authority_Ok)
  then have run: "(case journal_state s of
        Some Held \<Rightarrow> rollback_then_release A s x
      | Some AppliedV3 \<Rightarrow> rollback_then_release A s x
      | Some RetirementPending \<Rightarrow> v3_release A s x
      | Some HoldPending \<Rightarrow>
          (case transition_durable A RetirementPending s x of
             (Err e, s, x) \<Rightarrow> (Err e, s, x)
           | (Ok _, s, x) \<Rightarrow> v3_release A s x)
      | Some Released \<Rightarrow> (Err (Contract ReplayDetected), s, x)
      | Some RecoveryOnlyState \<Rightarrow> (Err (Contract RecoveryOnly), s, x)
      | None \<Rightarrow> (Err (Contract InvalidStateTransitionV3), s, x)) = (r, s', x')"
    using assms(2) by (simp add: v3_disconnect_def)
  show thesis
  proof (cases "journal_state s = Some HoldPending")
    case True
    with run have "(case transition_durable A RetirementPending s x of
       (Err e, s, x) \<Rightarrow> (Err e, s, x) | (Ok _, s, x) \<Rightarrow> v3_release A s x) = (r, s', x')" by simp
    then show thesis
    proof (cases rule: case_run2E)
      case (Err e t y)
      then show thesis using failed [OF True] by auto
    next
      case (Ok v t y)
      then show thesis using retire [OF True] by auto
    qed
  next
    case False
    then consider (a) "journal_state s \<in> {Some Held, Some AppliedV3}"
      | (b) "journal_state s = Some RetirementPending" | (c) "journal_state s = Some Released"
      | (d) "journal_state s = Some RecoveryOnlyState" | (e) "journal_state s = None"
      by (cases "journal_state s") (auto, metis RouteLeaseJournalState.exhaust)
    then show thesis
    proof cases
      case a
      then show thesis using run by (intro rollback) auto
    next
      case b
      then show thesis using run by (intro release) auto
    next
      case c
      then show thesis using run by (intro refused) auto
    next
      case d
      then show thesis using run by (intro refused) auto
    next
      case e
      then show thesis using run by (intro refused) auto
    qed
  qed
qed

lemma v3_new_wf:
  assumes "v3_new a revision ifs cidrs = Ok s"
  shows "v3_wf s \<and> rs_record s = None \<and> rs_authorization s = a"
  using assms
  by (auto simp: v3_new_def Let_def v3_wf_def owner_from_authorization_def RouteLeaseOwnerV3_binding_def
      result_simps split: result.splits)

lemma v3_resume_wf:
  assumes "v3_resume a d = Ok s"
  shows "v3_wf s \<and> rs_record s = Some d \<and> rs_authorization s = a \<and> rs_owner s = jr_owner d"
  using assms
  by (auto simp: v3_resume_def v3_wf_def require_owner_authority_Ok result_simps split: result.splits)

subsection \<open>The interlock\<close>

text \<open>
  What the adapters promise.  \<open>journal\<close>, \<open>holds\<close> and \<open>routes\<close> read the state: the record on durable
  storage, the bindings the broker holds, and the leases that have a route installed.  A failed call is
  ambiguous: the record may or may not have reached the disk, the hold may or may not have been taken
  or released, and any part of the routes may have changed.
\<close>

locale route_v3_world =
  fixes A :: "'x ProductionRouteV3Adapters"
    and journal :: "'x \<Rightarrow> RouteLeaseJournalRecord option"
    and holds :: "'x \<Rightarrow> RouteLeaseBinding set"
    and routes :: "'x \<Rightarrow> RouteLeaseReferenceV3 set"
  assumes persist: "persist_durable A j x = (r, x') \<Longrightarrow>
      holds x' = holds x \<and> routes x' = routes x \<and>
      (journal x' = Some j \<or> \<not> is_ok r \<and> journal x' = journal x)"
    and hold: "hold_exact A b x = (rh, x') \<Longrightarrow>
      journal x' = journal x \<and> routes x' = routes x \<and>
      holds x \<subseteq> holds x' \<and> holds x' \<subseteq> insert b (holds x) \<and>
      (rh = Ok (BrokerRouteConfirmation_held b) \<longrightarrow> b \<in> holds x')"
    and release: "release_exact A b x = (rr, x') \<Longrightarrow>
      journal x' = journal x \<and> routes x' = routes x \<and>
      holds x' \<subseteq> holds x \<and> holds x - {b} \<subseteq> holds x' \<and>
      (rr = Ok (BrokerRouteConfirmation_released b) \<longrightarrow> b \<notin> holds x')"
    and install: "apply_exact A w x = (ri, x') \<Longrightarrow>
      journal x' = journal x \<and> holds x' = holds x \<and>
      routes x \<subseteq> routes x' \<and> routes x' \<subseteq> insert (from_owner w) (routes x) \<and>
      (ri = Ok () \<longrightarrow> from_owner w \<in> routes x')"
    and remove: "rollback_and_prove_absent A f x = (rm, x') \<Longrightarrow>
      journal x' = journal x \<and> holds x' = holds x \<and>
      routes x' \<subseteq> routes x \<and> routes x - {f} \<subseteq> routes x' \<and>
      (rm = Ok (RouteAbsenceProofV3_new f) \<longrightarrow> f \<notin> routes x')"

definition interlock ::
  "('x \<Rightarrow> RouteLeaseJournalRecord option) \<Rightarrow> ('x \<Rightarrow> RouteLeaseBinding set) \<Rightarrow>
   ('x \<Rightarrow> RouteLeaseReferenceV3 set) \<Rightarrow> ProductionRouteV3Session \<Rightarrow> 'x \<Rightarrow> bool" where
  "interlock journal holds routes s x \<longleftrightarrow>
     v3_wf s \<and>
     (case rs_record s of
        None \<Rightarrow> ba_binding (rs_authorization s) \<notin> holds x \<and> rs_reference s \<notin> routes x \<and>
          (\<forall>d. journal x = Some d \<longrightarrow> RouteLeaseOwnerV3_binding (jr_owner d) = ba_binding (rs_authorization s) \<longrightarrow>
             hold_pending (rs_owner s) = Ok d)
      | Some m \<Rightarrow> \<exists>d. journal x = Some d \<and>
          (d = m \<or> (\<exists>n. valid_transition (jr_state m) n \<and> d = advance n m)) \<and>
          (rs_reference s \<in> routes x \<longrightarrow> ba_binding (rs_authorization s) \<in> holds x \<and>
             jr_state m \<in> {Held, AppliedV3} \<and> jr_state d \<in> {Held, AppliedV3}) \<and>
          (ba_binding (rs_authorization s) \<in> holds x \<longrightarrow> jr_state m \<noteq> Released \<and> jr_state d \<noteq> Released))"

lemma interlock_Some:
  "rs_record s = Some m \<Longrightarrow> interlock journal holds routes s x \<longleftrightarrow>
     v3_wf s \<and>
     (\<exists>d. journal x = Some d \<and> (d = m \<or> (\<exists>n. valid_transition (jr_state m) n \<and> d = advance n m)) \<and>
        (rs_reference s \<in> routes x \<longrightarrow> ba_binding (rs_authorization s) \<in> holds x \<and>
           jr_state m \<in> {Held, AppliedV3} \<and> jr_state d \<in> {Held, AppliedV3}) \<and>
        (ba_binding (rs_authorization s) \<in> holds x \<longrightarrow> jr_state m \<noteq> Released \<and> jr_state d \<noteq> Released))"
  by (simp add: interlock_def)

lemma jr_state_advance [simp]: "jr_state (advance n m) = n"
  by (simp add: advance_def)

text \<open>The interlock only looks at the three readings, and survives a loss of routes and holds.\<close>

lemma interlock_weaken:
  assumes "interlock journal holds routes s x" and "journal x' = journal x"
    and "ba_binding (rs_authorization s) \<in> holds x' \<Longrightarrow> ba_binding (rs_authorization s) \<in> holds x"
    and "rs_reference s \<in> routes x' \<Longrightarrow>
      rs_reference s \<in> routes x \<and> ba_binding (rs_authorization s) \<in> holds x'"
  shows "interlock journal holds routes s x'"
  using assms by (cases "rs_record s") (auto simp: interlock_def)

context route_v3_world
begin

abbreviation linked :: "ProductionRouteV3Session \<Rightarrow> 'x \<Rightarrow> bool" where
  "linked \<equiv> interlock journal holds routes"

abbreviation held_by :: "ProductionRouteV3Session \<Rightarrow> 'x \<Rightarrow> bool" where
  "held_by s x \<equiv> ba_binding (rs_authorization s) \<in> holds x"

abbreviation routed :: "ProductionRouteV3Session \<Rightarrow> 'x \<Rightarrow> bool" where
  "routed s x \<equiv> rs_reference s \<in> routes x"

lemma transition_durable_linked:
  assumes "linked s x" and run: "transition_durable A n s x = (r, s', x')"
    and "routed s x \<Longrightarrow> n \<in> {Held, AppliedV3}" and "held_by s x \<Longrightarrow> n \<noteq> Released"
  shows "linked s' x' \<and> same_authority s' s \<and> holds x' = holds x \<and> routes x' = routes x \<and>
    (r = Ok () \<longrightarrow> journal_state s' = Some n \<and> journal x' = rs_record s') \<and> (r \<noteq> Ok () \<longrightarrow> s' = s)"
proof -
  have wf: "v3_wf s" using assms(1) by (simp add: interlock_def)
  from wf run show ?thesis
  proof (cases rule: transition_durable_cases)
    case refused
    then show ?thesis using assms(1) by simp
  next
    case (failed m e)
    then show ?thesis
      using persist [OF failed(3)] assms by (auto simp: interlock_Some [OF failed(1)])
  next
    case (written m)
    have "rs_record s' = Some (advance n m)" using written(5) by simp
    moreover have "v3_wf s'" using wf_advance [OF wf written(1,2)] written(5) by simp
    ultimately show ?thesis
      using persist [OF written(3)] written assms
      by (auto simp: interlock_Some same_authority_def journal_state_def)
  qed
qed

lemma not_routed:
  "linked s x \<Longrightarrow> journal_state s \<notin> {Some Held, Some AppliedV3} \<Longrightarrow> \<not> routed s x"
  by (cases "rs_record s") (auto simp: interlock_def journal_state_def)

lemma release_call:
  assumes "linked s x" and "journal_state s = Some RetirementPending"
    and "release_exact A (ba_binding (rs_authorization s)) x = (r, y)"
  shows "linked s y \<and> \<not> routed s y \<and> routes y = routes x"
  using release [OF assms(3)] not_routed [OF assms(1)] assms(2)
  by (auto intro!: interlock_weaken [OF assms(1)])

lemma release_linked:
  assumes "linked s x" and "v3_release A s x = (r, s', x')"
  shows "linked s' x' \<and> same_authority s' s \<and> routes x' = routes x \<and>
    (r = Ok () \<longrightarrow> journal_state s' = Some Released \<and> \<not> held_by s x')"
  using assms(2) unfolding v3_release_def
proof (elim case_ifE case_runE case_resultE, goal_cases)
  case (4 c y u)
  note call = release_call [OF assms(1) _ 4(2)]
  have "c = BrokerRouteConfirmation_released (ba_binding (rs_authorization s))"
    using 4(3) confirmation_require by (simp add: result_simps BrokerRouteConfirmation_released_def)
  then have "\<not> held_by s y" using release [OF 4(2)] by simp
  then show ?case
    using transition_durable_linked [OF _ 4(4)] call 4(1) by auto
qed (use assms(1) in \<open>auto dest: release_call\<close>)

lemma rollback_linked:
  assumes "linked s x" and "rollback_then_release A s x = (r, s', x')"
  shows "linked s' x' \<and> same_authority s' s \<and>
    (r = Ok () \<longrightarrow> journal_state s' = Some Released \<and> \<not> held_by s x' \<and> \<not> routed s x')"
proof -
  have call: "linked s y" if "rollback_and_prove_absent A (rs_reference s) x = (q, y)" for q y
    using remove [OF that] assms(1)
    by (intro interlock_weaken [OF assms(1)]) (auto simp: interlock_def split: option.splits)
  show ?thesis
    using assms(2) unfolding rollback_then_release_def
  proof (elim case_run2E case_runE case_resultE, goal_cases)
    case (3 p y u e t z)
    have "p = RouteAbsenceProofV3_new (rs_reference s)"
      using 3(2) absence_require by (simp add: result_simps)
    then have "\<not> routed s y" using remove [OF 3(1)] by simp
    then show ?case using transition_durable_linked [OF call [OF 3(1)] 3(3)] 3(4) by auto
  next
    case (4 p y u v t z)
    have "p = RouteAbsenceProofV3_new (rs_reference s)"
      using 4(2) absence_require by (simp add: result_simps)
    then have "\<not> routed s y" using remove [OF 4(1)] by simp
    then have t: "linked t z" "same_authority t s" "routes z = routes y"
      using transition_durable_linked [OF call [OF 4(1)] 4(3)] by auto
    from release_linked [OF t(1) 4(4)] t \<open>\<not> routed s y\<close> show ?case
      by (auto simp: same_authority_def)
  qed (use call in auto)
qed

lemma fail_after_cleanup_linked:
  assumes "linked s x" and "fail_after_cleanup A e s x = (r, s', x')"
  shows "linked s' x' \<and> same_authority s' s \<and> r \<noteq> Ok ()"
  using assms(2) unfolding fail_after_cleanup_def
  by (elim case_run2E) (auto dest: rollback_linked [OF assms(1)])

lemma persist_pending:
  assumes "linked s x" and "rs_record s = None" and "hold_pending (rs_owner s) = Ok j"
    and "persist_durable A j x = (r, y)"
  shows "\<not> is_ok r \<Longrightarrow> linked s y"
    and "is_ok r \<Longrightarrow> linked (s\<lparr>rs_record := Some j\<rparr>) y \<and> journal y = Some j"
proof -
  have wf: "v3_wf s" and n: "\<not> held_by s x" "\<not> routed s x" using assms(1,2) by (auto simp: interlock_def)
  have j: "RouteLeaseJournalRecord_validate j = Ok ()" "jr_owner j = rs_owner s" "jr_state j = HoldPending"
    using assms(3) by (auto simp: hold_pending_valid record_valid_iff shape_def)
  show "linked s y" if "\<not> is_ok r"
    using persist [OF assms(4)] assms(1-3) by (auto simp: interlock_def)
  assume "is_ok r"
  then have "journal y = Some j" using persist [OF assms(4)] by auto
  moreover have "v3_wf (s\<lparr>rs_record := Some j\<rparr>)" using wf j by (simp add: v3_wf_def)
  ultimately show "linked (s\<lparr>rs_record := Some j\<rparr>) y \<and> journal y = Some j"
    using persist [OF assms(4)] n by (simp add: interlock_Some)
qed

lemma hold_call:
  assumes "linked s x" and "journal_state s = Some HoldPending" and "journal x = rs_record s"
    and "hold_exact A (ba_binding (rs_authorization s)) x = (r, y)"
  shows "linked s y \<and> \<not> routed s y"
proof -
  obtain m where m: "rs_record s = Some m" "jr_state m = HoldPending"
    using assms(2) by (auto simp: journal_state_def)
  have "\<not> routed s x" using not_routed [OF assms(1)] assms(2) by simp
  moreover have "v3_wf s" using assms(1) by (simp add: interlock_def)
  ultimately show ?thesis using hold [OF assms(4)] m assms(3) by (auto simp: interlock_Some)
qed

lemma apply_call:
  assumes "linked s x" and "journal_state s = Some Held" and "journal x = rs_record s" and "held_by s x"
    and "apply_exact A (rs_owner s) x = (r, y)"
  shows "linked s y \<and> held_by s y \<and> (r = Ok () \<longrightarrow> routed s y)"
proof -
  obtain m where m: "rs_record s = Some m" "jr_state m = Held"
    using assms(2) by (auto simp: journal_state_def)
  moreover have "v3_wf s" using assms(1) by (simp add: interlock_def)
  moreover from this have "rs_reference s = from_owner (rs_owner s)" by (simp add: v3_wf_def)
  ultimately show ?thesis using install [OF assms(5)] assms(3,4) by (auto simp: interlock_Some)
qed

lemma hold_linked:
  assumes "linked s x" and "journal_state s = Some HoldPending" and "journal x = rs_record s"
    and "hold_exact A (ba_binding (rs_authorization s)) x = (Ok c, y)"
    and "BrokerRouteConfirmation_require (ba_binding (rs_authorization s)) DispositionHeld c = Ok ()"
    and "transition_durable A Held s y = (r, t, z)"
  shows "linked t z \<and> same_authority t s \<and>
    (r = Ok () \<longrightarrow> journal_state t = Some Held \<and> journal z = rs_record t \<and> held_by t z)"
proof -
  note call = hold_call [OF assms(1-4)]
  have "c = BrokerRouteConfirmation_held (ba_binding (rs_authorization s))"
    using confirmation_require [OF assms(5)] by (simp add: BrokerRouteConfirmation_held_def)
  then have "held_by s y" using hold [OF assms(4)] by simp
  then show ?thesis
    using call transition_durable_linked [OF _ assms(6)] by (auto simp: same_authority_def)
qed

lemma connect_linked:
  assumes "linked s x" and "v3_connect A s x = (r, s', x')"
  shows "linked s' x' \<and> same_authority s' s \<and>
    (r = Ok () \<longrightarrow> journal_state s' = Some AppliedV3 \<and> held_by s x' \<and> routed s x')"
proof -
  have pend: "linked (s\<lparr>rs_record := Some j\<rparr>) y \<and> journal y = Some j \<and> jr_state j = HoldPending"
    if "\<not> rs_record s \<noteq> None" "map_err Contract (hold_pending (rs_owner s)) = Ok j"
      "persist_durable A j x = (Ok u, y)" for j u y
    using persist_pending(2) [OF assms(1) _ _ that(3)] that by (auto simp: result_simps hold_pending_valid)
  have held: "linked t w \<and> same_authority t s \<and>
      (q = Ok () \<longrightarrow> journal_state t = Some Held \<and> journal w = rs_record t \<and> held_by t w)"
    if "linked (s\<lparr>rs_record := Some j\<rparr>) y \<and> journal y = Some j \<and> jr_state j = HoldPending"
      "hold_exact A (ba_binding (rs_authorization (s\<lparr>rs_record := Some j\<rparr>))) y = (Ok c, z)"
      "map_err Contract (BrokerRouteConfirmation_require
         (ba_binding (rs_authorization (s\<lparr>rs_record := Some j\<rparr>))) DispositionHeld c) = Ok v"
      "transition_durable A Held (s\<lparr>rs_record := Some j\<rparr>) z = (q, t, w)" for j y c z v q t w
    using hold_linked [OF _ _ _ that(2) _ that(4)] that(1,3)
    by (auto simp: journal_state_def result_simps same_authority_def)
  show ?thesis
    using assms(2) unfolding v3_connect_def Let_def
  proof (elim case_ifE case_run2E case_runE case_resultE, goal_cases)
    case (4 u j e y)
    then show ?case using persist_pending(1) [OF assms(1) _ _ 4(4)] by (auto simp: result_simps)
  next
    case (5 u j u' y e z)
    then show ?case
      using hold_call [OF _ _ _ 5(5)] pend [OF 5(1,3,4)] by (auto simp: journal_state_def same_authority_def)
  next
    case (6 u j u' y c z e)
    then show ?case
      using hold_call [OF _ _ _ 6(5)] pend [OF 6(1,3,4)] by (auto simp: journal_state_def same_authority_def)
  next
    case (7 u j u' y c z v e t w)
    then show ?case using held [OF pend [OF 7(1,3,4)] 7(5,6,7)] by auto
  next
    case (8 u j u' y c z v v' t w e w')
    note h = held [OF pend [OF 8(1,3,4)] 8(5,6,7)]
    then show ?case
      using fail_after_cleanup_linked [OF _ 8(9)] apply_call [OF _ _ _ _ 8(8)] by (auto simp: same_authority_def)
  next
    case (9 u j u' y c z v v' t w a w' e t' k)
    note h = held [OF pend [OF 9(1,3,4)] 9(5,6,7)]
    note ap = apply_call [OF _ _ _ _ 9(8)]
    show ?case
      using h ap transition_durable_linked [OF _ 9(9)] fail_after_cleanup_linked [OF _ 9(10)]
      by (auto simp: same_authority_def)
  next
    case (10 u j u' y c z v v' t w a w' b t' k)
    note h = held [OF pend [OF 10(1,3,4)] 10(5,6,7)]
    note ap = apply_call [OF _ _ _ _ 10(8)]
    show ?case
      using h ap transition_durable_linked [OF _ 10(9)] 10(10) by (auto simp: same_authority_def)
  qed (use assms(1) in auto)
qed

lemma disconnect_linked:
  assumes "linked s x" and "v3_disconnect A s x = (r, s', x')"
  shows "linked s' x' \<and> same_authority s' s \<and>
    (r = Ok () \<longrightarrow> journal_state s' = Some Released \<and> \<not> held_by s x' \<and> \<not> routed s x')"
proof -
  have wf: "v3_wf s" using assms(1) by (simp add: interlock_def)
  from wf assms(2) show ?thesis
  proof (cases rule: v3_disconnect_cases)
    case rollback
    then show ?thesis using rollback_linked [OF assms(1)] by simp
  next
    case release
    then show ?thesis using release_linked [OF assms(1)] not_routed [OF assms(1)] by simp
  next
    case (failed e)
    then have "\<not> routed s x" using not_routed [OF assms(1)] by simp
    then show ?thesis using transition_durable_linked [OF assms(1) failed(2)] failed(3) by auto
  next
    case (retire v t y)
    then have "\<not> routed s x" using not_routed [OF assms(1)] by simp
    then show ?thesis
      using transition_durable_linked [OF assms(1) retire(2)] release_linked [OF _ retire(3)]
      by (auto simp: same_authority_def)
  next
    case refused
    then show ?thesis using assms(1) by simp
  qed
qed

end

subsection \<open>Refinement of the lease journal\<close>

text \<open>
  The abstract machine of a lease: it starts with a pending hold and moves by accepted transitions.
  Every operation of the session is a sequence of its steps, whatever the adapters answer.
\<close>

inductive lease_abs ::
  "RouteLeaseOwnerV3 \<Rightarrow> RouteLeaseJournalRecord option \<Rightarrow> RouteLeaseJournalRecord option \<Rightarrow> bool"
  for w where
  abs_begin: "hold_pending w = Ok j \<Longrightarrow> lease_abs w None (Some j)"
| abs_step: "apply_transition e j = Ok j' \<Longrightarrow> lease_abs w (Some j) (Some j')"

definition refines :: "ProductionRouteV3Session \<Rightarrow> ProductionRouteV3Session \<Rightarrow> bool" where
  "refines s s' \<longleftrightarrow> v3_wf s' \<and> same_authority s' s \<and>
     (lease_abs (rs_owner s))\<^sup>*\<^sup>* (rs_record s) (rs_record s')"

lemma refines_refl: "v3_wf s \<Longrightarrow> refines s s"
  by (simp add: refines_def)

lemma refines_trans: "refines s t \<Longrightarrow> refines t u \<Longrightarrow> refines s u"
  by (auto simp: refines_def same_authority_def)

lemma refines_wf: "refines s t \<Longrightarrow> v3_wf t"
  by (simp add: refines_def)

lemma transition_durable_refines:
  assumes "v3_wf s" and "transition_durable A n s x = (r, s', x')"
  shows "refines s s' \<and> (r = Ok () \<longrightarrow> journal_state s' = Some n)"
  using assms
proof (cases rule: transition_durable_cases)
  case (written m)
  have "RouteLeaseJournalRecord_validate m = Ok ()" using assms(1) written(1) by (simp add: v3_wf_def)
  then have "apply_transition (lease_event n m) m = Ok (advance n m)"
    using written(2) by (simp add: apply_transition_Ok lease_event_def)
  then have "lease_abs (rs_owner s) (Some m) (Some (advance n m))" by (rule abs_step)
  then show ?thesis
    using wf_advance [OF assms(1) written(1,2)] written(1,4,5)
    by (simp add: refines_def same_authority_def r_into_rtranclp journal_state_def)
qed (use refines_refl [OF assms(1)] in auto)

lemma release_refines:
  assumes "v3_wf s" and "v3_release A s x = (r, s', x')"
  shows "refines s s' \<and> (r = Ok () \<longrightarrow> journal_state s' = Some Released)"
  using assms(2) unfolding v3_release_def
  by (elim case_ifE case_run2E case_runE case_resultE)
    (use assms(1) in \<open>auto simp: refines_refl dest: transition_durable_refines\<close>)

lemma rollback_refines:
  assumes "v3_wf s" and "rollback_then_release A s x = (r, s', x')"
  shows "refines s s' \<and> (r = Ok () \<longrightarrow> journal_state s' = Some Released)"
  using assms(2) unfolding rollback_then_release_def
proof (elim case_run2E case_runE case_resultE, goal_cases)
  case (4 p y u v t z)
  then show ?case
    using transition_durable_refines [OF assms(1) 4(3)] release_refines [OF refines_wf 4(4)] refines_trans by blast
qed (use assms(1) in \<open>auto simp: refines_refl dest: transition_durable_refines\<close>)

lemma fail_after_cleanup_refines:
  assumes "v3_wf s" and "fail_after_cleanup A e s x = (r, s', x')"
  shows "refines s s' \<and> r \<noteq> Ok ()"
  using assms(2) unfolding fail_after_cleanup_def
  by (elim case_run2E) (auto dest: rollback_refines [OF assms(1)])

lemma pending_refines:
  assumes "v3_wf s" and "rs_record s = None" and "hold_pending (rs_owner s) = Ok j"
  shows "refines s (s\<lparr>rs_record := Some j\<rparr>)"
  using assms r_into_rtranclp [of "lease_abs (rs_owner s)", OF abs_begin [OF assms(3)]]
  by (auto simp: refines_def same_authority_def v3_wf_def hold_pending_valid record_valid_iff shape_def)

lemma connect_refines:
  assumes "v3_wf s" and "v3_connect A s x = (r, s', x')"
  shows "refines s s' \<and> (r = Ok () \<longrightarrow> journal_state s' = Some AppliedV3)"
proof -
  have pend: "refines s (s\<lparr>rs_record := Some j\<rparr>)"
    if "\<not> rs_record s \<noteq> None" "map_err Contract (hold_pending (rs_owner s)) = Ok j" for j
    using pending_refines [OF assms(1)] that by (simp add: result_simps)
  have step: "refines s u" if "refines s t" "transition_durable A n t y = (q, u, z)" for t n y q u z
    using transition_durable_refines [OF refines_wf that(2)] that(1) refines_trans by blast
  have clean: "refines s u \<and> q \<noteq> Ok ()" if "refines s t" "fail_after_cleanup A e t y = (q, u, z)" for t e y q u z
    using fail_after_cleanup_refines [OF refines_wf that(2)] that(1) refines_trans by blast
  show ?thesis
    using assms(2) unfolding v3_connect_def Let_def
  proof (elim case_ifE case_run2E case_runE case_resultE, goal_cases)
    case 5
    then show ?case using pend by auto
  next
    case 6
    then show ?case using pend by auto
  next
    case 7
    then show ?case using step [OF pend [OF 7(1,3)] 7(7)] by auto
  next
    case 8
    then show ?case using clean [OF step [OF pend [OF 8(1,3)] 8(7)] 8(9)] by auto
  next
    case 9
    then show ?case using clean [OF step [OF step [OF pend [OF 9(1,3)] 9(7)] 9(9)] 9(10)] by auto
  next
    case (10 u j u' y c z v v' t w a w' b t' k)
    have "v3_wf t" using step [OF pend [OF 10(1,3)] 10(7)] by (rule refines_wf)
    then show ?case
      using step [OF step [OF pend [OF 10(1,3)] 10(7)] 10(9)] transition_durable_refines [OF _ 10(9)] 10(10)
      by auto
  qed (use refines_refl [OF assms(1)] in auto)
qed

lemma disconnect_refines:
  assumes "v3_wf s" and "v3_disconnect A s x = (r, s', x')"
  shows "refines s s' \<and> (r = Ok () \<longrightarrow> journal_state s' = Some Released)"
  using assms
proof (cases rule: v3_disconnect_cases)
  case rollback
  show ?thesis by (rule rollback_refines [OF assms(1) rollback(2)])
next
  case release
  show ?thesis by (rule release_refines [OF assms(1) release(2)])
next
  case (failed e)
  then show ?thesis using transition_durable_refines [OF assms(1) failed(2)] by simp
next
  case (retire v t y)
  then show ?thesis
    using transition_durable_refines [OF assms(1) retire(2)] release_refines [OF refines_wf retire(3)]
      refines_trans by blast
next
  case refused
  then show ?thesis using refines_refl [OF assms(1)] by simp
qed

text \<open>
  Claim C7. The session implements the lease journal: with any adapters, failing in any way, every
  connect and every disconnect is a sequence of steps of the abstract lease, so the record it keeps is
  always one that the journal contract can produce and it never goes back; a successful connect ends in
  the applied state and a successful disconnect in the released one.
\<close>

theorem session_refines_lease:
  assumes "v3_wf s" and "v3_connect A s x = (r, t, y)" and "v3_disconnect A s x = (q, u, z)"
  shows "(lease_abs (rs_owner s))\<^sup>*\<^sup>* (rs_record s) (rs_record t) \<and>
    (lease_abs (rs_owner s))\<^sup>*\<^sup>* (rs_record s) (rs_record u) \<and>
    (r = Ok () \<longrightarrow> rs_record s = None \<and> journal_state t = Some AppliedV3) \<and>
    (q = Ok () \<longrightarrow> rs_record s \<noteq> None \<and> journal_state u = Some Released)"
proof -
  have "rs_record s = None" if "r = Ok ()"
    using assms(2) that by (auto simp: v3_connect_def split: if_splits)
  moreover have "rs_record s \<noteq> None" if "q = Ok ()"
    using assms(3) that by (auto simp: v3_disconnect_def journal_state_def split: result.splits option.splits)
  ultimately show ?thesis
    using connect_refines [OF assms(1,2)] disconnect_refines [OF assms(1,3)] by (auto simp: refines_def)
qed

subsection \<open>The calls of a session\<close>

text \<open>
  Any adapters can be observed: \<open>recording A\<close> answers as \<open>A\<close> does and writes down every call with its
  argument.
\<close>

datatype v3_call =
    PersistCall RouteLeaseJournalRecord
  | HoldCall RouteLeaseBinding
  | ReleaseCall RouteLeaseBinding
  | ApplyCall RouteLeaseOwnerV3
  | RollbackCall RouteLeaseReferenceV3

definition tap :: "'c \<Rightarrow> ('x \<Rightarrow> 'r \<times> 'x) \<Rightarrow> 'x \<times> 'c list \<Rightarrow> 'r \<times> 'x \<times> 'c list" where
  "tap c f z = (case f (fst z) of (r, y) \<Rightarrow> (r, y, snd z @ [c]))"

definition recording :: "'x ProductionRouteV3Adapters \<Rightarrow> ('x \<times> v3_call list) ProductionRouteV3Adapters" where
  "recording A =
     \<lparr>persist_durable = \<lambda>j. tap (PersistCall j) (persist_durable A j),
      hold_exact = \<lambda>b. tap (HoldCall b) (hold_exact A b),
      release_exact = \<lambda>b. tap (ReleaseCall b) (release_exact A b),
      apply_exact = \<lambda>w. tap (ApplyCall w) (apply_exact A w),
      rollback_and_prove_absent = \<lambda>f. tap (RollbackCall f) (rollback_and_prove_absent A f)\<rparr>"

fun own_call :: "ProductionRouteV3Session \<Rightarrow> v3_call \<Rightarrow> bool" where
  "own_call s (PersistCall j) \<longleftrightarrow> jr_owner j = rs_owner s \<and> RouteLeaseJournalRecord_validate j = Ok ()"
| "own_call s (HoldCall b) \<longleftrightarrow> b = ba_binding (rs_authorization s)"
| "own_call s (ReleaseCall b) \<longleftrightarrow> b = ba_binding (rs_authorization s)"
| "own_call s (ApplyCall w) \<longleftrightarrow> w = rs_owner s"
| "own_call s (RollbackCall f) \<longleftrightarrow> f = rs_reference s"

text \<open>
  \<open>recorded s l run run'\<close>: the outcome \<open>run'\<close> on the recording adapters, whose list was \<open>l\<close>, is the outcome
  \<open>run\<close> on the adapters themselves, and only calls of the session \<open>s\<close> were added.
\<close>

definition recorded ::
  "ProductionRouteV3Session \<Rightarrow> v3_call list \<Rightarrow> 'r \<times> ProductionRouteV3Session \<times> 'x \<Rightarrow>
   'r \<times> ProductionRouteV3Session \<times> 'x \<times> v3_call list \<Rightarrow> bool" where
  "recorded s l run run' \<longleftrightarrow> (\<exists>new. list_all (own_call s) new \<and>
     run' = (fst run, fst (snd run), snd (snd run), l @ new))"

lemma recordedE:
  assumes "recorded s l (r, t, y) run"
  obtains new where "list_all (own_call s) new" and "run = (r, t, y, l @ new)"
  using assms by (auto simp: recorded_def)

lemma recorded_done: "recorded s l (r, t, y) (r, t, y, l)"
  by (simp add: recorded_def)

lemma recorded_after:
  "list_all (own_call s) new \<Longrightarrow> recorded s (l @ new) run run' \<Longrightarrow> recorded s l run run'"
  by (auto simp: recorded_def)

lemma recorded_call: "own_call s c \<Longrightarrow> recorded s (l @ [c]) run run' \<Longrightarrow> recorded s l run run'"
  by (rule recorded_after [of s "[c]"]) simp_all

lemma recorded_one: "own_call s c \<Longrightarrow> recorded s l (r, t, y) (r, t, y, l @ [c])"
  by (simp add: recorded_def)

lemma own_call_same: "same_authority t s \<Longrightarrow> own_call t = own_call s"
proof (rule ext)
  fix c assume "same_authority t s"
  then show "own_call t c = own_call s c" by (cases c) (simp_all add: same_authority_def)
qed

lemma recorded_same: "same_authority t s \<Longrightarrow> recorded t l run run' \<longleftrightarrow> recorded s l run run'"
  by (simp add: recorded_def own_call_same)

lemma recording_simps:
  "persist_durable A j x = (p, y) \<Longrightarrow> persist_durable (recording A) j (x, l) = (p, y, l @ [PersistCall j])"
  "hold_exact A b x = (h, y) \<Longrightarrow> hold_exact (recording A) b (x, l) = (h, y, l @ [HoldCall b])"
  "release_exact A b x = (h, y) \<Longrightarrow> release_exact (recording A) b (x, l) = (h, y, l @ [ReleaseCall b])"
  "apply_exact A w x = (p, y) \<Longrightarrow> apply_exact (recording A) w (x, l) = (p, y, l @ [ApplyCall w])"
  "rollback_and_prove_absent A f x = (a, y) \<Longrightarrow>
     rollback_and_prove_absent (recording A) f (x, l) = (a, y, l @ [RollbackCall f])"
  by (simp_all add: recording_def tap_def)

lemma transition_durable_recorded:
  assumes "v3_wf s" and "transition_durable A n s x = (r, t, y)"
  shows "recorded s l (r, t, y) (transition_durable (recording A) n s (x, l))"
proof -
  have own: "own_call s (PersistCall j)"
    if "ok_or (rs_record s) (Contract InvalidStateTransitionV3) = Ok m"
      "map_err Contract (transition n (rs_reference s) m) = Ok j" for m j
  proof -
    have "rs_record s = Some m" using that(1) by (simp add: ok_or_def split: option.splits)
    then have m: "RouteLeaseJournalRecord_validate m = Ok ()" "rs_reference s = from_owner (jr_owner m)"
      "jr_owner m = rs_owner s"
      using assms(1) by (auto simp: v3_wf_def)
    then have "valid_transition (jr_state m) n \<and> j = advance n m"
      using that(2) transition_Ok [OF m(1)] by (simp add: result_simps)
    then show ?thesis using m advance_valid [OF m(1)] by (auto simp: advance_def)
  qed
  show ?thesis
    using assms(2) unfolding transition_durable_def
  proof (elim case_runE case_resultE, goal_cases)
    case (3 m j e z)
    then show ?case using recorded_call [OF own [OF 3(1,2)] recorded_done] by (simp add: recording_simps)
  next
    case (4 m j u z)
    then show ?case using recorded_call [OF own [OF 4(1,2)] recorded_done] by (simp add: recording_simps)
  qed (auto simp: recorded_done)
qed

lemma release_recorded:
  assumes "v3_wf s" and "v3_release A s x = (r, t, y)"
  shows "recorded s l (r, t, y) (v3_release (recording A) s (x, l))"
proof -
  note call = recorded_call [of s "ReleaseCall (ba_binding (rs_authorization s))" l]
  show ?thesis
    using assms(2) unfolding v3_release_def
  proof (elim case_ifE case_runE case_resultE, goal_cases)
    case (3 c z e)
    show ?case using 3(1-3) 3(4) [symmetric] by (simp add: recording_simps recorded_one)
  next
    case (4 c z u)
    then show ?case using call [OF _ transition_durable_recorded [OF assms(1) 4(4)]] by (simp add: recording_simps)
  qed (auto simp: recording_simps recorded_done recorded_one)
qed

lemma retire_recorded:
  assumes "v3_wf s" and "transition_durable A n s x = (Ok v, t, y)" and "v3_release A t y = (r, t', y')"
  shows "recorded s l (r, t', y') (case transition_durable (recording A) n s (x, l) of
    (Err e, s, x) \<Rightarrow> (Err e, s, x) | (Ok _, s, x) \<Rightarrow> v3_release (recording A) s x)"
proof -
  have "refines s t" using transition_durable_refines [OF assms(1,2)] by simp
  then have t: "v3_wf t" "same_authority t s" by (simp_all add: refines_def)
  obtain new where n: "list_all (own_call s) new"
    "transition_durable (recording A) n s (x, l) = (Ok v, t, y, l @ new)"
    using transition_durable_recorded [OF assms(1,2)] by (rule recordedE)
  have "recorded s (l @ new) (r, t', y') (v3_release (recording A) t (y, l @ new))"
    using release_recorded [OF t(1) assms(3)] recorded_same [OF t(2)] by blast
  then show ?thesis using recorded_after [OF n(1)] n(2) by simp
qed

lemma rollback_recorded:
  assumes "v3_wf s" and "rollback_then_release A s x = (r, t, y)"
  shows "recorded s l (r, t, y) (rollback_then_release (recording A) s (x, l))"
proof -
  note call = recorded_call [of s "RollbackCall (rs_reference s)" l]
  show ?thesis
    using assms(2) unfolding rollback_then_release_def
  proof (elim case_run2E case_runE case_resultE, goal_cases)
    case (2 p z e)
    show ?case using 2(1,2) 2(3) [symmetric] by (simp add: recording_simps recorded_one)
  next
    case (3 p z u e t' z')
    obtain new where n: "list_all (own_call s) new"
      "transition_durable (recording A) RetirementPending s (z, l @ [RollbackCall (rs_reference s)]) =
        (Err e, t', z', (l @ [RollbackCall (rs_reference s)]) @ new)"
      using transition_durable_recorded [OF assms(1) 3(3)] by (rule recordedE)
    show ?case
      using call [OF _ recorded_after [OF n(1) recorded_done]] n(2) 3(1-3) 3(4) [symmetric]
      by (simp add: recording_simps)
  next
    case (4 p z u v t' z')
    then show ?case using call [OF _ retire_recorded [OF assms(1) 4(3,4)]] by (simp add: recording_simps)
  qed (auto simp: recording_simps recorded_done recorded_one)
qed

lemma fail_after_cleanup_recorded:
  assumes "v3_wf s" and "fail_after_cleanup A e s x = (r, t, y)"
  shows "recorded s l (r, t, y) (fail_after_cleanup (recording A) e s (x, l))"
  using assms(2) unfolding fail_after_cleanup_def
proof (elim case_run2E, goal_cases)
  case (1 c t' y')
  then show ?case using rollback_recorded [OF assms(1) 1(1), of l] by (auto simp: recorded_def)
next
  case (2 v t' y')
  then show ?case using rollback_recorded [OF assms(1) 2(1), of l] by (auto simp: recorded_def)
qed

lemma connect_recorded:
  assumes "v3_wf s" and "v3_connect A s x = (r, t, y)"
  shows "recorded s l (r, t, y) (v3_connect (recording A) s (x, l))"
proof -
  have pend: "refines s (s\<lparr>rs_record := Some j\<rparr>) \<and> own_call s (PersistCall j)"
    if "\<not> rs_record s \<noteq> None" "map_err Contract (hold_pending (rs_owner s)) = Ok j" for j
    using pending_refines [OF assms(1)] that
    by (auto simp: result_simps hold_pending_valid record_valid_iff shape_def)
  have step: "refines s u \<and> recorded s k (q, u, z) (transition_durable (recording A) n t (y, k))"
    if "refines s t" "transition_durable A n t y = (q, u, z)" for t n y q u z k
  proof
    have t: "v3_wf t" "same_authority t s" using that(1) by (simp_all add: refines_def)
    show "refines s u" using transition_durable_refines [OF t(1) that(2)] that(1) refines_trans by blast
    show "recorded s k (q, u, z) (transition_durable (recording A) n t (y, k))"
      using transition_durable_recorded [OF t(1) that(2)] recorded_same [OF t(2)] by blast
  qed
  have clean: "recorded s k (q, u, z) (fail_after_cleanup (recording A) e t (y, k))"
    if "refines s t" "fail_after_cleanup A e t y = (q, u, z)" for t e y q u z k
  proof -
    have t: "v3_wf t" "same_authority t s" using that(1) by (simp_all add: refines_def)
    show ?thesis using fail_after_cleanup_recorded [OF t(1) that(2)] recorded_same [OF t(2)] by blast
  qed
  let ?k = "\<lambda>j. (l @ [PersistCall j]) @ [HoldCall (ba_binding (rs_authorization s))]"
  have pre: "recorded s l run run'"
    if "refines s (s\<lparr>rs_record := Some j\<rparr>) \<and> own_call s (PersistCall j)" "recorded s (?k j) run run'"
    for j and run :: "unit v3_result \<times> ProductionRouteV3Session \<times> 'a" and run'
    by (rule recorded_call [of s "PersistCall j" l], use that(1) in blast, rule recorded_call [OF _ that(2)], simp)
  show ?thesis
    using assms(2) unfolding v3_connect_def Let_def
  proof (elim case_ifE case_run2E case_runE case_resultE, goal_cases)
    case (2 e)
    show ?case using 2(1,2) 2(3) [symmetric] by (simp add: recorded_done)
  next
    case (3 u e)
    show ?case using 3(1-3) 3(4) [symmetric] by (simp add: recorded_done)
  next
    case (4 u j e y)
    then show ?case
      using pend [OF 4(1,3)] recorded_one [of s "PersistCall j" l] by (simp add: recording_simps)
  next
    case (5 u j u' y e z)
    show ?case
      using pre [OF pend [OF 5(1,3)] recorded_done] 5(1-5) 5(6) [symmetric] by (simp add: recording_simps)
  next
    case (6 u j u' y c z e)
    show ?case
      using pre [OF pend [OF 6(1,3)] recorded_done] 6(1-6) 6(7) [symmetric] by (simp add: recording_simps)
  next
    case (7 u j u' y c z v e t w)
    obtain n where n: "list_all (own_call s) n"
      "transition_durable (recording A) Held (s\<lparr>rs_record := Some j\<rparr>) (z, ?k j) = (Err e, t, w, ?k j @ n)"
      using step [OF pend [OF 7(1,3), THEN conjunct1] 7(7), THEN conjunct2] by (rule recordedE)
    show ?case
      using pre [OF pend [OF 7(1,3)] recorded_after [OF n(1) recorded_done]] n(2) 7(1-7) 7(8) [symmetric]
      by (simp add: recording_simps)
  next
    case (8 u j u' y c z v v' t w e w')
    note h = step [OF pend [OF 8(1,3), THEN conjunct1] 8(7)]
    obtain n where n: "list_all (own_call s) n"
      "transition_durable (recording A) Held (s\<lparr>rs_record := Some j\<rparr>) (z, ?k j) = (Ok v', t, w, ?k j @ n)"
      using h [THEN conjunct2] by (rule recordedE)
    have a: "own_call s (ApplyCall (rs_owner t))" using h by (simp add: refines_def same_authority_def)
    show ?case
      using pre [OF pend [OF 8(1,3)] recorded_after [OF n(1) recorded_call [OF a clean [OF h [THEN conjunct1] 8(9)]]]]
        n(2) 8(1-8) by (simp add: recording_simps)
  next
    case (9 u j u' y c z v v' t w a w' e t' k)
    note h = step [OF pend [OF 9(1,3), THEN conjunct1] 9(7)]
    obtain n where n: "list_all (own_call s) n"
      "transition_durable (recording A) Held (s\<lparr>rs_record := Some j\<rparr>) (z, ?k j) = (Ok v', t, w, ?k j @ n)"
      using h [THEN conjunct2] by (rule recordedE)
    have a: "own_call s (ApplyCall (rs_owner t))" using h by (simp add: refines_def same_authority_def)
    note i = step [OF h [THEN conjunct1] 9(9)]
    obtain m where m: "list_all (own_call s) m"
      "transition_durable (recording A) AppliedV3 t (w', (?k j @ n) @ [ApplyCall (rs_owner t)]) =
         (Err e, t', k, ((?k j @ n) @ [ApplyCall (rs_owner t)]) @ m)"
      using i [THEN conjunct2] by (rule recordedE)
    show ?case
      using pre [OF pend [OF 9(1,3)] recorded_after [OF n(1) recorded_call [OF a
          recorded_after [OF m(1) clean [OF i [THEN conjunct1] 9(10)]]]]]
        n(2) m(2) 9(1-9) by (simp add: recording_simps)
  next
    case (10 u j u' y c z v v' t w a w' b t' k)
    note h = step [OF pend [OF 10(1,3), THEN conjunct1] 10(7)]
    obtain n where n: "list_all (own_call s) n"
      "transition_durable (recording A) Held (s\<lparr>rs_record := Some j\<rparr>) (z, ?k j) = (Ok v', t, w, ?k j @ n)"
      using h [THEN conjunct2] by (rule recordedE)
    have a: "own_call s (ApplyCall (rs_owner t))" using h by (simp add: refines_def same_authority_def)
    note i = step [OF h [THEN conjunct1] 10(9)]
    obtain m where m: "list_all (own_call s) m"
      "transition_durable (recording A) AppliedV3 t (w', (?k j @ n) @ [ApplyCall (rs_owner t)]) =
         (Ok b, t', k, ((?k j @ n) @ [ApplyCall (rs_owner t)]) @ m)"
      using i [THEN conjunct2] by (rule recordedE)
    show ?case
      using pre [OF pend [OF 10(1,3)] recorded_after [OF n(1) recorded_call [OF a
          recorded_after [OF m(1) recorded_done]]]]
        n(2) m(2) 10(1-9) 10(10) [symmetric] by (simp add: recording_simps)
  qed (auto simp: recorded_done)
qed

lemma disconnect_recorded:
  assumes "v3_wf s" and "v3_disconnect A s x = (r, t, y)"
  shows "recorded s l (r, t, y) (v3_disconnect (recording A) s (x, l))"
proof -
  have va: "validate_authority s = Ok ()" using assms(1) by (simp add: validate_authority_Ok)
  from assms show ?thesis
  proof (cases rule: v3_disconnect_cases)
    case rollback
    then show ?thesis using rollback_recorded [OF assms(1) rollback(2)] va by (auto simp: v3_disconnect_def)
  next
    case release
    then show ?thesis using release_recorded [OF assms(1) release(2)] va by (simp add: v3_disconnect_def)
  next
    case (failed e)
    obtain new where "list_all (own_call s) new"
      "transition_durable (recording A) RetirementPending s (x, l) = (Err e, t, y, l @ new)"
      using transition_durable_recorded [OF assms(1) failed(2)] by (rule recordedE)
    with failed va show ?thesis by (simp add: v3_disconnect_def recorded_def)
  next
    case (retire v t' y')
    then show ?thesis using retire_recorded [OF assms(1) retire(2,3)] va by (simp add: v3_disconnect_def)
  next
    case (refused e)
    then show ?thesis using va assms(2) by (auto simp: v3_disconnect_def recorded_done)
  qed
qed

text \<open>
  Claim C9. A session is well-typed from its construction on: one made by \<open>new\<close> or \<open>resume\<close> has a valid
  owner whose tuple and tunnel are those of its authority, the reference of that owner, and a record
  that validates for the same owner; connect and disconnect keep this and never exchange the authority,
  the owner or the reference.  With any adapters, every call they make carries the original tuple: the
  holds and releases name the binding of the authority, the application the owner, the rollback the
  reference, and every record they write is a valid one of this owner.
\<close>

theorem session_keeps_its_authority:
  "(v3_new a revision ifs cidrs = Ok s \<longrightarrow> v3_wf s \<and> rs_authorization s = a) \<and>
   (v3_resume a d = Ok s \<longrightarrow> v3_wf s \<and> rs_authorization s = a \<and> rs_record s = Some d) \<and>
   (v3_wf s \<and> v3_connect A s x = (r, t, y) \<longrightarrow> v3_wf t \<and> same_authority t s \<and>
      (\<exists>calls. v3_connect (recording A) s (x, []) = (r, t, y, calls) \<and> list_all (own_call s) calls)) \<and>
   (v3_wf s \<and> v3_disconnect A s x = (q, u, z) \<longrightarrow> v3_wf u \<and> same_authority u s \<and>
      (\<exists>calls. v3_disconnect (recording A) s (x, []) = (q, u, z, calls) \<and> list_all (own_call s) calls))"
proof -
  have "v3_wf t \<and> same_authority t s \<and>
      (\<exists>calls. v3_connect (recording A) s (x, []) = (r, t, y, calls) \<and> list_all (own_call s) calls)"
    if "v3_wf s" "v3_connect A s x = (r, t, y)"
    using connect_refines [OF that] connect_recorded [OF that, of "[]"] by (auto simp: refines_def recorded_def)
  moreover have "v3_wf u \<and> same_authority u s \<and>
      (\<exists>calls. v3_disconnect (recording A) s (x, []) = (q, u, z, calls) \<and> list_all (own_call s) calls)"
    if "v3_wf s" "v3_disconnect A s x = (q, u, z)"
    using disconnect_refines [OF that] disconnect_recorded [OF that, of "[]"]
    by (auto simp: refines_def recorded_def)
  ultimately show ?thesis using v3_new_wf v3_resume_wf by blast
qed

subsection \<open>All histories\<close>

text \<open>
  The states a session and its adapters can reach: from a new session whose lease nothing knows yet, by
  connects and disconnects, and by a restart that loses the session and resumes the record on disk.
\<close>

inductive v3_reach ::
  "'x ProductionRouteV3Adapters \<Rightarrow> ('x \<Rightarrow> RouteLeaseJournalRecord option) \<Rightarrow>
   ('x \<Rightarrow> RouteLeaseBinding set) \<Rightarrow> ('x \<Rightarrow> RouteLeaseReferenceV3 set) \<Rightarrow>
   ProductionRouteV3Session \<Rightarrow> 'x \<Rightarrow> bool"
  for A journal holds routes where
  reach_new: "v3_new a revision ifs cidrs = Ok s \<Longrightarrow> ba_binding a \<notin> holds x \<Longrightarrow>
     rs_reference s \<notin> routes x \<Longrightarrow>
     (\<forall>d. journal x = Some d \<longrightarrow> RouteLeaseOwnerV3_binding (jr_owner d) \<noteq> ba_binding a) \<Longrightarrow>
     v3_reach A journal holds routes s x"
| reach_connect: "v3_reach A journal holds routes s x \<Longrightarrow> v3_connect A s x = (r, s', x') \<Longrightarrow>
     v3_reach A journal holds routes s' x'"
| reach_disconnect: "v3_reach A journal holds routes s x \<Longrightarrow> v3_disconnect A s x = (r, s', x') \<Longrightarrow>
     v3_reach A journal holds routes s' x'"
| reach_resume: "v3_reach A journal holds routes s x \<Longrightarrow> journal x = Some d \<Longrightarrow>
     ba_binding a = ba_binding (rs_authorization s) \<Longrightarrow> v3_resume a d = Ok s' \<Longrightarrow>
     v3_reach A journal holds routes s' x"

lemma interlock_journal:
  assumes "interlock journal holds routes s x" and "journal x = Some d"
    and "RouteLeaseOwnerV3_binding (jr_owner d) = ba_binding (rs_authorization s)"
  shows "jr_owner d = rs_owner s \<and> RouteLeaseJournalRecord_validate d = Ok () \<and>
    (rs_reference s \<in> routes x \<longrightarrow> ba_binding (rs_authorization s) \<in> holds x \<and> jr_state d \<in> {Held, AppliedV3}) \<and>
    (ba_binding (rs_authorization s) \<in> holds x \<longrightarrow> jr_state d \<noteq> Released)"
proof (cases "rs_record s")
  case None
  then show ?thesis
    using assms by (auto simp: interlock_def hold_pending_valid record_valid_iff shape_def)
next
  case (Some m)
  then have m: "RouteLeaseJournalRecord_validate m = Ok ()" "jr_owner m = rs_owner s"
    and d: "d = m \<or> (\<exists>n. valid_transition (jr_state m) n \<and> d = advance n m)"
    using assms(1,2) by (auto simp: interlock_Some v3_wf_def)
  from d have "RouteLeaseJournalRecord_validate d = Ok () \<and> jr_owner d = rs_owner s"
  proof
    assume "\<exists>n. valid_transition (jr_state m) n \<and> d = advance n m"
    then show ?thesis using advance_valid [OF m(1)] m(2) by (auto simp: advance_def)
  qed (use m in simp)
  then show ?thesis using assms(1,2) Some by (auto simp: interlock_Some)
qed

lemma resume_linked:
  assumes "interlock journal holds routes s x" and "journal x = Some d"
    and "ba_binding a = ba_binding (rs_authorization s)" and "v3_resume a d = Ok t"
  shows "interlock journal holds routes t x"
proof -
  have t: "v3_wf t" "rs_record t = Some d" "rs_authorization t = a" "rs_owner t = jr_owner d"
    using v3_resume_wf [OF assms(4)] by auto
  then have "RouteLeaseOwnerV3_binding (jr_owner d) = ba_binding (rs_authorization s)"
    using assms(3) by (simp add: v3_wf_def)
  note j = interlock_journal [OF assms(1,2) this]
  have "rs_reference t = rs_reference s"
    using t j assms(1) by (simp add: v3_wf_def interlock_def)
  then show ?thesis using j t assms(2,3) by (auto simp: interlock_Some)
qed

context route_v3_world
begin

lemma reach_linked: "v3_reach A journal holds routes s x \<Longrightarrow> linked s x"
proof (induction rule: v3_reach.induct)
  case (reach_new a revision ifs cidrs s x)
  then show ?case using v3_new_wf [OF reach_new(1)] by (simp add: interlock_def)
next
  case (reach_connect s x r s' x')
  show ?case using connect_linked [OF reach_connect.IH reach_connect.hyps(2)] by simp
next
  case (reach_disconnect s x r s' x')
  show ?case using disconnect_linked [OF reach_disconnect.IH reach_disconnect.hyps(2)] by simp
next
  case (reach_resume s x d a s')
  show ?case by (rule resume_linked [OF reach_resume.IH reach_resume.hyps(2-4)])
qed

lemma held_is_journalled:
  assumes "linked s x" and "held_by s x"
  shows "\<exists>d. journal x = Some d \<and> jr_owner d = rs_owner s \<and> jr_state d \<noteq> Released \<and>
    (\<exists>t. v3_resume (rs_authorization s) d = Ok t)"
proof -
  obtain m where m: "rs_record s = Some m" using assms by (cases "rs_record s") (auto simp: interlock_def)
  then obtain d where d: "journal x = Some d" "d = m \<or> (\<exists>n. valid_transition (jr_state m) n \<and> d = advance n m)"
    using assms(1) by (auto simp: interlock_Some)
  have wf: "v3_wf s" using assms(1) by (simp add: interlock_def)
  have "jr_owner d = rs_owner s" using d(2) m wf by (auto simp: v3_wf_def advance_def)
  then have b: "RouteLeaseOwnerV3_binding (jr_owner d) = ba_binding (rs_authorization s)"
    using wf by (simp add: v3_wf_def)
  note j = interlock_journal [OF assms(1) d(1) b]
  have "require_owner_authority (jr_owner d) (rs_authorization s) = Ok ()"
    using j wf by (simp add: require_owner_authority_Ok v3_wf_def)
  then have "\<exists>t. v3_resume (rs_authorization s) d = Ok t" using j by (simp add: v3_resume_def)
  then show ?thesis using d(1) j assms(2) by blast
qed

lemma stop_is_safe:
  "linked s x \<Longrightarrow> permits_sidecar_stop s \<Longrightarrow> \<not> held_by s x \<and> \<not> routed s x"
  by (cases "rs_record s") (auto simp: interlock_def permits_sidecar_stop_def journal_state_def)

end

text \<open>What a retirement of the lease of \<open>s\<close> leaves: the session \<open>s'\<close> and the adapters \<open>x'\<close>.\<close>

definition retired_in ::
  "('x \<Rightarrow> RouteLeaseBinding set) \<Rightarrow> ('x \<Rightarrow> RouteLeaseReferenceV3 set) \<Rightarrow>
   ProductionRouteV3Session \<Rightarrow> ProductionRouteV3Session \<Rightarrow> 'x \<Rightarrow> bool" where
  "retired_in holds routes s s' x' \<longleftrightarrow> permits_sidecar_stop s' \<and> journal_state s' = Some Released \<and>
     ba_binding (rs_authorization s) \<notin> holds x' \<and> rs_reference s \<notin> routes x'"

text \<open>Adapters that answer: while \<open>up\<close> holds, every call of a retirement succeeds.\<close>

locale route_v3_live = route_v3_world A journal holds routes
  for A :: "'x ProductionRouteV3Adapters"
    and journal :: "'x \<Rightarrow> RouteLeaseJournalRecord option"
    and holds :: "'x \<Rightarrow> RouteLeaseBinding set"
    and routes :: "'x \<Rightarrow> RouteLeaseReferenceV3 set" +
  fixes up :: "'x \<Rightarrow> bool"
  assumes persist_up: "up x \<Longrightarrow> \<exists>x'. persist_durable A j x = (Ok (), x') \<and> up x'"
    and release_up: "up x \<Longrightarrow>
      \<exists>x'. release_exact A b x = (Ok (BrokerRouteConfirmation_released b), x') \<and> up x'"
    and remove_up: "up x \<Longrightarrow>
      \<exists>x'. rollback_and_prove_absent A f x = (Ok (RouteAbsenceProofV3_new f), x') \<and> up x'"

lemma released_confirms:
  "RouteLeaseBinding_validate b = Ok () \<Longrightarrow>
     BrokerRouteConfirmation_require b DispositionReleased (BrokerRouteConfirmation_released b) = Ok ()"
  by (simp add: BrokerRouteConfirmation_require_def BrokerRouteConfirmation_released_def
      RouteLeaseBinding_matches_def)

lemma absence_confirms:
  "RouteLeaseReferenceV3_validate f = Ok () \<Longrightarrow>
     RouteAbsenceProofV3_require f (RouteAbsenceProofV3_new f) = Ok ()"
  by (simp add: RouteAbsenceProofV3_require_def RouteAbsenceProofV3_new_def)

lemma v3_wf_tuple:
  assumes "v3_wf s"
  shows "RouteLeaseBinding_validate (ba_binding (rs_authorization s)) = Ok () \<and>
    RouteLeaseReferenceV3_validate (rs_reference s) = Ok ()"
proof -
  have w: "RouteLeaseOwnerV3_validate (rs_owner s) = Ok ()"
    "ba_binding (rs_authorization s) = RouteLeaseOwnerV3_binding (rs_owner s)"
    "rs_reference s = from_owner (rs_owner s)"
    using assms by (simp_all add: v3_wf_def)
  then have "RouteLeaseBinding_validate (RouteLeaseOwnerV3_binding (rs_owner s)) = Ok ()"
    by (auto simp: RouteLeaseOwnerV3_validate_def split: if_splits result.splits)
  then show ?thesis using w reference_of_owner_valid by simp
qed

context route_v3_live
begin

lemma transition_up:
  assumes "v3_wf s" and "up x" and "journal_state s = Some n" and "valid_transition n n'"
  shows "\<exists>s' x'. transition_durable A n' s x = (Ok (), s', x') \<and> up x'"
proof -
  obtain m where m: "rs_record s = Some m" "jr_state m = n" using assms(3) by (auto simp: journal_state_def)
  then have "transition n' (rs_reference s) m = Ok (advance n' m)"
    using assms(1,4) transition_Ok [of m n' "advance n' m"] by (simp add: v3_wf_def)
  with m persist_up [OF assms(2), of "advance n' m"] show ?thesis
    by (auto simp: transition_durable_def ok_or_def)
qed

lemma release_finishes:
  assumes "v3_wf s" and "up x" and "journal_state s = Some RetirementPending"
  shows "\<exists>s' x'. v3_release A s x = (Ok (), s', x')"
proof -
  obtain y where y: "release_exact A (ba_binding (rs_authorization s)) x =
      (Ok (BrokerRouteConfirmation_released (ba_binding (rs_authorization s))), y)" "up y"
    using release_up [OF assms(2)] by blast
  have "\<exists>s' x'. transition_durable A Released s y = (Ok (), s', x') \<and> up x'"
    using transition_up [OF assms(1) y(2) assms(3)] by (simp add: valid_transition_def)
  then show ?thesis
    using assms(3) y(1) v3_wf_tuple [OF assms(1)] by (auto simp: v3_release_def released_confirms)
qed

lemma retirement_finishes:
  assumes "v3_wf s" and "up x" and "journal_state s = Some n" and "valid_transition n RetirementPending"
  shows "\<exists>t y s' x'. transition_durable A RetirementPending s x = (Ok (), t, y) \<and>
    v3_release A t y = (Ok (), s', x')"
proof -
  obtain t y where t: "transition_durable A RetirementPending s x = (Ok (), t, y)" "up y"
    using transition_up [OF assms] by blast
  note r = transition_durable_refines [OF assms(1) t(1)]
  then have "\<exists>s' x'. v3_release A t y = (Ok (), s', x')"
    by (intro release_finishes [OF _ t(2)]) (simp_all add: refines_def)
  with t(1) show ?thesis by blast
qed

lemma disconnect_finishes:
  assumes "v3_wf s" and "up x" and "journal_state s \<notin> {None, Some Released}"
  shows "\<exists>s' x'. v3_disconnect A s x = (Ok (), s', x')"
proof -
  obtain n where n: "journal_state s = Some n" "n \<noteq> Released" using assms(3) by auto
  then have "n \<noteq> RecoveryOnlyState"
    using assms(1) by (auto simp: v3_wf_def journal_state_def record_valid_iff shape_def)
  have va: "validate_authority s = Ok ()" using assms(1) by (simp add: validate_authority_Ok)
  obtain y where y: "rollback_and_prove_absent A (rs_reference s) x =
      (Ok (RouteAbsenceProofV3_new (rs_reference s)), y)" "up y"
    using remove_up [OF assms(2)] by blast
  have roll: "\<exists>s' x'. rollback_then_release A s x = (Ok (), s', x')" if "valid_transition n RetirementPending"
    using retirement_finishes [OF assms(1) y(2) n(1) that] y(1) v3_wf_tuple [OF assms(1)]
    by (auto simp: rollback_then_release_def absence_confirms)
  show ?thesis
  proof (cases n)
    case HoldPending
    then show ?thesis
      using retirement_finishes [OF assms(1,2) n(1)] n va by (auto simp: v3_disconnect_def valid_transition_def)
  next
    case RetirementPending
    then show ?thesis using release_finishes [OF assms(1,2)] n va by (simp add: v3_disconnect_def)
  qed (use n roll va \<open>n \<noteq> RecoveryOnlyState\<close> in \<open>simp_all add: v3_disconnect_def valid_transition_def\<close>)
qed

lemma disconnect_retires:
  assumes "linked s x" and "up x" and "journal_state s \<notin> {None, Some Released}"
  shows "\<exists>s' x'. v3_disconnect A s x = (Ok (), s', x') \<and> retired_in holds routes s s' x'"
proof -
  have "v3_wf s" using assms(1) by (simp add: interlock_def)
  then obtain s' x' where d: "v3_disconnect A s x = (Ok (), s', x')"
    using disconnect_finishes [OF _ assms(2,3)] by blast
  with disconnect_linked [OF assms(1) d] show ?thesis
    by (auto simp: retired_in_def permits_sidecar_stop_def)
qed

lemma resumed_retires:
  assumes "linked s x" and "up x" and "journal_state s = None" and "journal x = Some d"
    and "RouteLeaseOwnerV3_binding (jr_owner d) = ba_binding (rs_authorization s)"
  shows "\<exists>t s' x'. v3_resume (rs_authorization s) d = Ok t \<and> v3_disconnect A t x = (Ok (), s', x') \<and>
    retired_in holds routes s s' x'"
proof -
  have wf: "v3_wf s" using assms(1) by (simp add: interlock_def)
  note j = interlock_journal [OF assms(1,4,5)]
  have "hold_pending (rs_owner s) = Ok d"
    using assms(1,3-5) by (auto simp: interlock_def journal_state_def)
  then have h: "jr_state d = HoldPending" by (auto simp: hold_pending_valid)
  have "require_owner_authority (jr_owner d) (rs_authorization s) = Ok ()"
    using j wf by (simp add: require_owner_authority_Ok v3_wf_def)
  then obtain t where t: "v3_resume (rs_authorization s) d = Ok t" using j by (simp add: v3_resume_def)
  note w = v3_resume_wf [OF t]
  have "linked t x" by (rule resume_linked [OF assms(1,4) refl t])
  moreover have "journal_state t \<notin> {None, Some Released}" using w h by (simp add: journal_state_def)
  ultimately obtain s' x' where "v3_disconnect A t x = (Ok (), s', x')" "retired_in holds routes t s' x'"
    using disconnect_retires [OF _ assms(2)] by blast
  moreover have "rs_authorization t = rs_authorization s" "rs_reference t = rs_reference s"
    using w j wf by (simp_all add: v3_wf_def)
  ultimately show ?thesis using t by (auto simp: retired_in_def)
qed

end

text \<open>
  Claim C6. The interlock holds in every history, with any failures of the journal, the broker and the
  route helper and with restarts at any point: routes of the lease are installed only while the broker
  holds exactly its tuple and the journal on disk says so; a hold is always accounted for by a record on
  disk from which a session with the same authority resumes; and the sidecar may be stopped only when
  neither the hold nor a route is left.
\<close>

theorem production_route_interlock:
  assumes "route_v3_world A journal holds routes" and "v3_reach A journal holds routes s x"
  shows "(rs_reference s \<in> routes x \<longrightarrow> ba_binding (rs_authorization s) \<in> holds x \<and>
      (\<exists>d. journal x = Some d \<and> jr_owner d = rs_owner s \<and> jr_state d \<in> {Held, AppliedV3})) \<and>
    (ba_binding (rs_authorization s) \<in> holds x \<longrightarrow>
      (\<exists>d. journal x = Some d \<and> jr_owner d = rs_owner s \<and> jr_state d \<noteq> Released \<and>
        (\<exists>t. v3_resume (rs_authorization s) d = Ok t))) \<and>
    (permits_sidecar_stop s \<longrightarrow>
      ba_binding (rs_authorization s) \<notin> holds x \<and> rs_reference s \<notin> routes x)"
proof -
  note l = route_v3_world.reach_linked [OF assms]
  have "ba_binding (rs_authorization s) \<in> holds x \<and>
      (\<exists>d. journal x = Some d \<and> jr_owner d = rs_owner s \<and> jr_state d \<in> {Held, AppliedV3})"
    if r: "rs_reference s \<in> routes x"
  proof -
    have h: "ba_binding (rs_authorization s) \<in> holds x"
      using l r by (auto simp: interlock_def split: option.splits)
    with route_v3_world.held_is_journalled [OF assms(1) l]
    obtain d where d: "journal x = Some d" "jr_owner d = rs_owner s" by blast
    moreover have "RouteLeaseOwnerV3_binding (jr_owner d) = ba_binding (rs_authorization s)"
      using d l by (simp add: interlock_def v3_wf_def)
    ultimately show ?thesis using interlock_journal [OF l] h r by blast
  qed
  then show ?thesis
    using route_v3_world.held_is_journalled [OF assms(1) l] route_v3_world.stop_is_safe [OF assms(1) l]
    by blast
qed

text \<open>
  Claim C8. Retirement makes progress: in every reachable history, as soon as the adapters answer again,
  one disconnect of a session that has a record and is not released returns success, after which the
  lease is released, no route and no hold is left, and the sidecar may be stopped.  A session that has
  no record, or is released, has nothing to retire: the broker does not hold its tuple, no route of it is
  installed, the sidecar may be stopped, and disconnect refuses and changes nothing.  If the write of
  the first record reported a failure and yet reached the disk, that record resumes under the same
  authority, and one disconnect of the resumed session releases it.
\<close>

theorem every_session_can_be_retired:
  assumes "route_v3_live A journal holds routes up" and "v3_reach A journal holds routes s x"
    and "up x"
  shows "(journal_state s \<notin> {None, Some Released} \<longrightarrow>
      (\<exists>s' x'. v3_disconnect A s x = (Ok (), s', x') \<and> retired_in holds routes s s' x')) \<and>
    (journal_state s \<in> {None, Some Released} \<longrightarrow> permits_sidecar_stop s \<and>
      ba_binding (rs_authorization s) \<notin> holds x \<and> rs_reference s \<notin> routes x \<and>
      (\<exists>e. v3_disconnect A s x = (Err e, s, x))) \<and>
    (\<forall>d. journal_state s = None \<and> journal x = Some d \<and>
       RouteLeaseOwnerV3_binding (jr_owner d) = ba_binding (rs_authorization s) \<longrightarrow>
       (\<exists>t s' x'. v3_resume (rs_authorization s) d = Ok t \<and>
          v3_disconnect A t x = (Ok (), s', x') \<and> retired_in holds routes s s' x'))"
proof -
  have W: "route_v3_world A journal holds routes" using assms(1) by (simp add: route_v3_live_def)
  note l = route_v3_world.reach_linked [OF W assms(2)]
  have "\<exists>e. v3_disconnect A s x = (Err e, s, x)" if n: "journal_state s \<in> {None, Some Released}"
  proof -
    obtain r s' x' where d: "v3_disconnect A s x = (r, s', x')" by (metis prod_cases3)
    have "v3_wf s" using l by (simp add: interlock_def)
    from this d show ?thesis by (cases rule: v3_disconnect_cases) (use n d in auto)
  qed
  moreover have "\<exists>t s' x'. v3_resume (rs_authorization s) d = Ok t \<and>
      v3_disconnect A t x = (Ok (), s', x') \<and> retired_in holds routes s s' x'"
    if "journal_state s = None" "journal x = Some d"
      "RouteLeaseOwnerV3_binding (jr_owner d) = ba_binding (rs_authorization s)" for d
    by (rule route_v3_live.resumed_retires [OF assms(1) l assms(3) that])
  moreover have "\<exists>s' x'. v3_disconnect A s x = (Ok (), s', x') \<and> retired_in holds routes s s' x'"
    if "journal_state s \<notin> {None, Some Released}"
    by (rule route_v3_live.disconnect_retires [OF assms(1) l assms(3) that])
  ultimately show ?thesis
    using route_v3_world.stop_is_safe [OF W l] by (auto simp: permits_sidecar_stop_def)
qed

subsection \<open>The adapters of the tests\<close>

text \<open>
  \<open>FakeJournal\<close>, \<open>FakeBroker\<close> and \<open>FakeRoutes\<close> share the event list; their state is one record.  The last
  three fields are not in the source: they keep what the calls stand for, so that the laws can be stated
  of the fakes.  A hold that reports an error was taken, its reply lost; a failed application has
  installed a part of the routes.  The mutex around the events is never poisoned.
\<close>

record FakeV3 =
  fv_events :: "string list"
  fv_hold_error :: "NetworkErrorCode option"
  fv_release_failures :: nat
  fv_wrong_hold_tuple :: bool
  fv_wrong_release_tuple :: bool
  fv_calls :: "RouteLeaseBinding list"
  fv_apply_error :: "NetworkErrorCode option"
  fv_rollback_error :: "NetworkErrorCode option"
  fv_apply_calls :: nat
  fv_rollback_calls :: nat
  fv_journal :: "RouteLeaseJournalRecord option"
  fv_holds :: "RouteLeaseBinding list"
  fv_routes :: "RouteLeaseReferenceV3 list"

definition fv_push :: "string \<Rightarrow> FakeV3 \<Rightarrow> FakeV3" where
  "fv_push e x = x\<lparr>fv_events := fv_events x @ [e]\<rparr>"

definition FakeJournal_persist_durable :: "RouteLeaseJournalRecord \<Rightarrow> FakeV3 \<Rightarrow> unit net_result \<times> FakeV3" where
  "FakeJournal_persist_durable r x =
     (let x = fv_push (case jr_state r of
            HoldPending \<Rightarrow> ''journal:hold_pending'' | Held \<Rightarrow> ''journal:held''
          | AppliedV3 \<Rightarrow> ''journal:applied'' | RetirementPending \<Rightarrow> ''journal:retirement_pending''
          | Released \<Rightarrow> ''journal:released'' | RecoveryOnlyState \<Rightarrow> ''journal:recovery_only'') x
      in (Ok (), x\<lparr>fv_journal := Some r\<rparr>))"

definition FakeBroker_hold_exact ::
  "RouteLeaseBinding \<Rightarrow> FakeV3 \<Rightarrow> BrokerRouteConfirmation net_result \<times> FakeV3" where
  "FakeBroker_hold_exact binding x =
     (let x = fv_push ''broker:hold'' x;
          x = x\<lparr>fv_calls := fv_calls x @ [binding], fv_holds := binding # fv_holds x\<rparr> in
      case fv_hold_error x of
        Some error \<Rightarrow> (Err error, x)
      | None \<Rightarrow>
          let echoed = (if fv_wrong_hold_tuple x then binding\<lparr>lb_operation_id := ''operation.wrong''\<rparr> else binding)
          in (Ok (BrokerRouteConfirmation_held echoed), x))"

definition FakeBroker_release_exact ::
  "RouteLeaseBinding \<Rightarrow> FakeV3 \<Rightarrow> BrokerRouteConfirmation net_result \<times> FakeV3" where
  "FakeBroker_release_exact binding x =
     (let x = fv_push ''broker:release'' x;
          x = x\<lparr>fv_calls := fv_calls x @ [binding]\<rparr> in
      if fv_release_failures x \<noteq> 0
      then (Err OperationTimedOut, x\<lparr>fv_release_failures := fv_release_failures x - 1\<rparr>)
      else
        let echoed = (if fv_wrong_release_tuple x then binding\<lparr>lb_lease_id := ''lease.wrong''\<rparr> else binding)
        in (Ok (BrokerRouteConfirmation_released echoed), x\<lparr>fv_holds := removeAll binding (fv_holds x)\<rparr>))"

definition FakeRoutes_apply_exact :: "RouteLeaseOwnerV3 \<Rightarrow> FakeV3 \<Rightarrow> unit net_result \<times> FakeV3" where
  "FakeRoutes_apply_exact owner x =
     (let x = fv_push ''routes:apply'' x;
          x = x\<lparr>fv_apply_calls := fv_apply_calls x + 1, fv_routes := from_owner owner # fv_routes x\<rparr>
      in (case fv_apply_error x of None \<Rightarrow> Ok () | Some e \<Rightarrow> Err e, x))"

definition FakeRoutes_rollback_and_prove_absent ::
  "RouteLeaseReferenceV3 \<Rightarrow> FakeV3 \<Rightarrow> RouteAbsenceProofV3 net_result \<times> FakeV3" where
  "FakeRoutes_rollback_and_prove_absent reference x =
     (let x = fv_push ''routes:rollback'' x;
          x = x\<lparr>fv_rollback_calls := fv_rollback_calls x + 1\<rparr> in
      case fv_rollback_error x of
        Some error \<Rightarrow> (Err error, x)
      | None \<Rightarrow> (Ok (RouteAbsenceProofV3_new reference), x\<lparr>fv_routes := removeAll reference (fv_routes x)\<rparr>))"

definition FakeV3_impl :: "FakeV3 ProductionRouteV3Adapters" where
  "FakeV3_impl =
     \<lparr>persist_durable = FakeJournal_persist_durable, hold_exact = FakeBroker_hold_exact,
      release_exact = FakeBroker_release_exact, apply_exact = FakeRoutes_apply_exact,
      rollback_and_prove_absent = FakeRoutes_rollback_and_prove_absent\<rparr>"

lemmas fake_v3_defs = FakeV3_impl_def FakeJournal_persist_durable_def FakeBroker_hold_exact_def
  FakeBroker_release_exact_def FakeRoutes_apply_exact_def FakeRoutes_rollback_and_prove_absent_def
  fv_push_def Let_def

abbreviation fake_holds :: "FakeV3 \<Rightarrow> RouteLeaseBinding set" where
  "fake_holds x \<equiv> set (fv_holds x)"

abbreviation fake_routes :: "FakeV3 \<Rightarrow> RouteLeaseReferenceV3 set" where
  "fake_routes x \<equiv> set (fv_routes x)"

definition fake_up :: "FakeV3 \<Rightarrow> bool" where
  "fake_up x \<longleftrightarrow> fv_release_failures x = 0 \<and> \<not> fv_wrong_release_tuple x \<and> fv_rollback_error x = None"

interpretation fakes: route_v3_live FakeV3_impl fv_journal fake_holds fake_routes fake_up
  by unfold_locales
    (auto simp: fake_v3_defs fake_up_def BrokerRouteConfirmation_held_def BrokerRouteConfirmation_released_def
      split: option.splits if_splits)

lemma fakes_live: "route_v3_live FakeV3_impl fv_journal fake_holds fake_routes fake_up"
  by unfold_locales

lemma fakes_world: "route_v3_world FakeV3_impl fv_journal fake_holds fake_routes"
  by unfold_locales

subsection \<open>Witnesses\<close>

definition sample_authorization :: BrokerRouteAuthorization where
  "sample_authorization =
     \<lparr>ba_runtime_generation = 7, ba_binding = RouteLeaseOwnerV3_binding sample_owner,
      ba_tunnel = ow_tunnel sample_owner\<rparr>"

definition sample_v3 :: ProductionRouteV3Session where
  "sample_v3 =
     \<lparr>rs_authorization = sample_authorization, rs_owner = sample_owner,
      rs_reference = from_owner sample_owner, rs_record = None\<rparr>"

definition fake_v3 :: FakeV3 where
  "fake_v3 =
     \<lparr>fv_events = [], fv_hold_error = None, fv_release_failures = 0, fv_wrong_hold_tuple = False,
      fv_wrong_release_tuple = False, fv_calls = [], fv_apply_error = None, fv_rollback_error = None,
      fv_apply_calls = 0, fv_rollback_calls = 0, fv_journal = None, fv_holds = [], fv_routes = []\<rparr>"

lemma sample_v3_new: "v3_new sample_authorization 7 [''utun9''] [''10.0.0.0/8''] = Ok sample_v3"
proof -
  have "owner_from_authorization sample_authorization 7 [''utun9''] [''10.0.0.0/8''] = sample_owner"
    by (simp add: owner_from_authorization_def sample_authorization_def RouteLeaseOwnerV3_binding_def
        sample_owner_def v3_versions)
  then show ?thesis by (simp add: v3_new_def Let_def sample_owner_valid sample_v3_def)
qed

lemma sample_v3_wf: "v3_wf sample_v3"
  using v3_new_wf [OF sample_v3_new] by blast

lemma sample_v3_reach: "v3_reach FakeV3_impl fv_journal fake_holds fake_routes sample_v3 fake_v3"
  by (rule reach_new [OF sample_v3_new]) (simp_all add: fake_v3_def)

lemma lease_record_valid:
  "RouteLeaseOwnerV3_validate w = Ok () \<Longrightarrow> shape s n \<Longrightarrow> n \<le> 5 \<Longrightarrow>
     RouteLeaseJournalRecord_validate (lease_record w s n) = Ok ()"
  by (simp add: record_valid_iff lease_record_def unat_of_nat take_bit_nat_eq_self)

lemma sample_transition:
  "shape s n \<Longrightarrow> n \<le> 5 \<Longrightarrow> valid_transition s s' \<Longrightarrow>
     transition s' (from_owner sample_owner) (lease_record sample_owner s n) =
       Ok (lease_record sample_owner s' (Suc n))"
  using transition_Ok [of "lease_record sample_owner s n" s'] lease_record_valid [OF sample_owner_valid]
  by (simp add: lease_record_def) (simp add: advance_def add.commute)

lemma sample_steps:
  "validate_authority sample_v3 = Ok ()"
  "hold_pending sample_owner = Ok (lease_record sample_owner HoldPending 1)"
  "BrokerRouteConfirmation_require (RouteLeaseOwnerV3_binding sample_owner) DispositionHeld
     (BrokerRouteConfirmation_held (RouteLeaseOwnerV3_binding sample_owner)) = Ok ()"
  "transition Held (from_owner sample_owner) (lease_record sample_owner HoldPending 1) =
     Ok (lease_record sample_owner Held 2)"
  "transition AppliedV3 (from_owner sample_owner) (lease_record sample_owner Held 2) =
     Ok (lease_record sample_owner AppliedV3 3)"
proof -
  show "validate_authority sample_v3 = Ok ()" using sample_v3_wf by (simp add: validate_authority_Ok)
  show "hold_pending sample_owner = Ok (lease_record sample_owner HoldPending 1)"
    by (simp add: hold_pending_valid sample_owner_valid lease_record_def)
  have "RouteLeaseBinding_validate (RouteLeaseOwnerV3_binding sample_owner) = Ok ()"
    using v3_wf_tuple [OF sample_v3_wf] by (simp add: sample_v3_def sample_authorization_def)
  then show "BrokerRouteConfirmation_require (RouteLeaseOwnerV3_binding sample_owner) DispositionHeld
     (BrokerRouteConfirmation_held (RouteLeaseOwnerV3_binding sample_owner)) = Ok ()"
    by (simp add: BrokerRouteConfirmation_require_def BrokerRouteConfirmation_held_def
        RouteLeaseBinding_matches_def)
  show "transition Held (from_owner sample_owner) (lease_record sample_owner HoldPending 1) =
     Ok (lease_record sample_owner Held 2)"
    using sample_transition [of HoldPending 1 Held]
    by (simp add: shape_def valid_transition_def eval_nat_numeral)
  show "transition AppliedV3 (from_owner sample_owner) (lease_record sample_owner Held 2) =
     Ok (lease_record sample_owner AppliedV3 3)"
    using sample_transition [of Held 2 AppliedV3]
    by (simp add: shape_def valid_transition_def eval_nat_numeral)
qed

text \<open>The calls of a successful connect, in the order the tests expect.\<close>

lemma sample_connect:
  "\<exists>x. v3_connect FakeV3_impl sample_v3 fake_v3 =
      (Ok (), sample_v3\<lparr>rs_record := Some (lease_record sample_owner AppliedV3 3)\<rparr>, x) \<and> fake_up x \<and>
    from_owner sample_owner \<in> fake_routes x \<and>
    fv_events x = [''journal:hold_pending'', ''broker:hold'', ''journal:held'', ''routes:apply'', ''journal:applied'']"
proof -
  have s: "rs_owner sample_v3 = sample_owner" "rs_reference sample_v3 = from_owner sample_owner"
    "rs_record sample_v3 = None"
    "ba_binding (rs_authorization sample_v3) = RouteLeaseOwnerV3_binding sample_owner"
    by (simp_all add: sample_v3_def sample_authorization_def)
  show ?thesis
    by (simp add: v3_connect_def transition_durable_def s sample_steps ok_or_def fake_v3_defs fake_v3_def
        fake_up_def del: One_nat_def)
qed

lemma sample_connected:
  obtains s x where "v3_connect FakeV3_impl sample_v3 fake_v3 = (Ok (), s, x)"
    and "v3_reach FakeV3_impl fv_journal fake_holds fake_routes s x" and "fake_up x"
    and "rs_reference s \<in> fake_routes x" and "journal_state s = Some AppliedV3"
proof -
  obtain x where x: "v3_connect FakeV3_impl sample_v3 fake_v3 =
      (Ok (), sample_v3\<lparr>rs_record := Some (lease_record sample_owner AppliedV3 3)\<rparr>, x)" "fake_up x"
    "from_owner sample_owner \<in> fake_routes x"
    using sample_connect by blast
  show thesis
    using that [OF x(1) reach_connect [OF sample_v3_reach x(1)]] x(2,3)
    by (simp add: journal_state_def) (simp add: sample_v3_def)
qed

text \<open>After a connect the hold stands behind the routes, and one disconnect retires both.\<close>

theorem production_route_interlock_witness:
  "\<exists>s x. v3_connect FakeV3_impl sample_v3 fake_v3 = (Ok (), s, x) \<and> rs_reference s \<in> fake_routes x \<and>
     ba_binding (rs_authorization s) \<in> fake_holds x \<and> \<not> permits_sidecar_stop s"
proof -
  obtain s x where c: "v3_connect FakeV3_impl sample_v3 fake_v3 = (Ok (), s, x)"
    "v3_reach FakeV3_impl fv_journal fake_holds fake_routes s x" "rs_reference s \<in> fake_routes x"
    using sample_connected by metis
  with production_route_interlock [OF fakes_world c(2)] show ?thesis by blast
qed

theorem every_session_can_be_retired_witness:
  "\<exists>s x s' x'. v3_connect FakeV3_impl sample_v3 fake_v3 = (Ok (), s, x) \<and>
     v3_disconnect FakeV3_impl s x = (Ok (), s', x') \<and> permits_sidecar_stop s' \<and>
     rs_reference s \<notin> fake_routes x'"
proof -
  obtain s x where c: "v3_connect FakeV3_impl sample_v3 fake_v3 = (Ok (), s, x)"
    "v3_reach FakeV3_impl fv_journal fake_holds fake_routes s x" "fake_up x" "journal_state s = Some AppliedV3"
    using sample_connected by metis
  with every_session_can_be_retired [OF fakes_live c(2,3)] show ?thesis by (auto simp: retired_in_def)
qed

theorem session_refines_lease_witness:
  "\<exists>t y. v3_connect FakeV3_impl sample_v3 fake_v3 = (Ok (), t, y) \<and>
     (lease_abs sample_owner)\<^sup>*\<^sup>* None (rs_record t) \<and> journal_state t = Some AppliedV3"
proof -
  obtain t y where c: "v3_connect FakeV3_impl sample_v3 fake_v3 = (Ok (), t, y)"
    using sample_connected by metis
  obtain q u z where d: "v3_disconnect FakeV3_impl sample_v3 fake_v3 = (q, u, z)" by (metis prod_cases3)
  have "rs_owner sample_v3 = sample_owner" "rs_record sample_v3 = None" by (simp_all add: sample_v3_def)
  with session_refines_lease [OF sample_v3_wf c d] c show ?thesis by auto
qed

theorem session_keeps_its_authority_witness:
  "\<exists>t y calls. v3_connect (recording FakeV3_impl) sample_v3 (fake_v3, []) = (Ok (), t, y, calls) \<and>
     list_all (own_call sample_v3) calls \<and> journal_state t = Some AppliedV3 \<and> v3_wf t"
proof -
  obtain t y where c: "v3_connect FakeV3_impl sample_v3 fake_v3 = (Ok (), t, y)" "journal_state t = Some AppliedV3"
    using sample_connected by metis
  have "v3_wf sample_v3" using session_keeps_its_authority [THEN conjunct1, THEN mp, OF sample_v3_new] by blast
  with session_keeps_its_authority [of _ _ _ _ sample_v3 _ FakeV3_impl fake_v3 "Ok ()" t y,
      THEN conjunct2, THEN conjunct2, THEN conjunct1] c
  show ?thesis by blast
qed

end
