(* ===== verification/Broker_Bound.thy ===== *)
theory Broker_Bound
  imports Route_Client_V3 Route_Boundary Production_Route_V3 Net_Config_Facts
begin

section \<open>The broker-bound route boundary\<close>

text \<open>
  \<open>networking/broker_bound_route_v3.rs\<close>: the adapter that derives every identity of a lease from the sealed
  authority, and the deferred boundary the one-shot controller uses.  The helper is a record of
  operations on a state \<open>'x\<close>; opening its client is the argument \<open>connect\<close>.
\<close>

subsection \<open>The adapter\<close>

record BrokerBoundRouteHelperV3 =
  bh_authorization :: BrokerRouteAuthorization
  bh_owner :: RouteLeaseOwnerV3
  bh_reference :: RouteLeaseReferenceV3
  bh_runtime_generation :: u64

definition BrokerBoundRouteHelperV3_new ::
  "BrokerRouteAuthorization \<Rightarrow> u64 \<Rightarrow> string list \<Rightarrow> string list \<Rightarrow> BrokerBoundRouteHelperV3 net_result" where
  "BrokerBoundRouteHelperV3_new authorization profile_revision active_mihomo_tun_interfaces private_cidrs =
     (let binding = ba_binding authorization;
          owner = \<lparr>ow_protocol_version = ROUTE_HELPER_V3_PROTOCOL_VERSION,
                   ow_broker_protocol_version = lb_broker_protocol_version binding,
                   ow_broker_generation = lb_broker_generation binding,
                   ow_sidecar_instance_id = lb_sidecar_instance_id binding,
                   ow_lease_id = lb_lease_id binding, ow_operation_id = lb_operation_id binding,
                   ow_profile_revision = profile_revision, ow_tunnel = ba_tunnel authorization,
                   ow_active_mihomo_tun_interfaces = active_mihomo_tun_interfaces,
                   ow_private_cidrs = private_cidrs\<rparr> in
      case map_err network_code (RouteLeaseOwnerV3_validate owner) of
        Err e \<Rightarrow> Err e
      | Ok _ \<Rightarrow>
          let reference = from_owner owner in
     (case map_err network_code (RouteLeaseReferenceV3_validate reference) of
        Err e \<Rightarrow> Err e
      | Ok _ \<Rightarrow> Ok \<lparr>bh_authorization = authorization, bh_owner = owner, bh_reference = reference,
                    bh_runtime_generation = ba_runtime_generation authorization\<rparr>))"

definition bh_validate_authority :: "BrokerBoundRouteHelperV3 \<Rightarrow> unit net_result" where
  "bh_validate_authority h =
     (case map_err network_code (RouteLeaseOwnerV3_validate (bh_owner h)) of
        Err e \<Rightarrow> Err e
      | Ok _ \<Rightarrow>
          if RouteLeaseOwnerV3_binding (bh_owner h) \<noteq> ba_binding (bh_authorization h) \<or>
             ow_tunnel (bh_owner h) \<noteq> ba_tunnel (bh_authorization h)
          then Err AuthenticationFailed
          else map_err network_code (matches_owner (bh_owner h) (bh_reference h)))"

definition bh_discover ::
  "'x RouteHelperV3Operations \<Rightarrow> BrokerBoundRouteHelperV3 \<Rightarrow> 'x \<Rightarrow> RouteHelperV3Status net_result \<times> 'x" where
  "bh_discover C h x =
     (case bh_validate_authority h of Err e \<Rightarrow> (Err e, x) | Ok _ \<Rightarrow> vo_discover C x)"

definition bh_begin ::
  "'x RouteHelperV3Operations \<Rightarrow> BrokerBoundRouteHelperV3 \<Rightarrow> 'x \<Rightarrow> RouteHelperV3Status net_result \<times> 'x" where
  "bh_begin C h x =
     (case bh_validate_authority h of Err e \<Rightarrow> (Err e, x) | Ok _ \<Rightarrow> vo_begin C (bh_owner h) x)"

definition bh_recover ::
  "'x RouteHelperV3Operations \<Rightarrow> BrokerBoundRouteHelperV3 \<Rightarrow> 'x \<Rightarrow> RouteHelperV3Status net_result \<times> 'x" where
  "bh_recover C h x =
     (case bh_validate_authority h of Err e \<Rightarrow> (Err e, x) | Ok _ \<Rightarrow> vo_recover C (bh_owner h) x)"

definition bh_apply ::
  "'x RouteHelperV3Operations \<Rightarrow> BrokerBoundRouteHelperV3 \<Rightarrow> 'x \<Rightarrow> RouteHelperV3Status net_result \<times> 'x" where
  "bh_apply C h x =
     (case bh_validate_authority h of Err e \<Rightarrow> (Err e, x) | Ok _ \<Rightarrow> vo_apply C (bh_reference h) x)"

definition bh_rollback ::
  "'x RouteHelperV3Operations \<Rightarrow> BrokerBoundRouteHelperV3 \<Rightarrow> 'x \<Rightarrow> RouteHelperV3Status net_result \<times> 'x" where
  "bh_rollback C h x =
     (case bh_validate_authority h of Err e \<Rightarrow> (Err e, x) | Ok _ \<Rightarrow> vo_rollback C (bh_reference h) x)"

definition bh_heartbeat ::
  "'x RouteHelperV3Operations \<Rightarrow> BrokerBoundRouteHelperV3 \<Rightarrow> 'x \<Rightarrow> RouteHelperV3Status net_result \<times> 'x" where
  "bh_heartbeat C h x =
     (case bh_validate_authority h of Err e \<Rightarrow> (Err e, x) | Ok _ \<Rightarrow> vo_heartbeat C (bh_reference h) x)"

definition bh_status ::
  "'x RouteHelperV3Operations \<Rightarrow> BrokerBoundRouteHelperV3 \<Rightarrow> 'x \<Rightarrow> RouteHelperV3Status net_result \<times> 'x" where
  "bh_status C h x =
     (case bh_validate_authority h of Err e \<Rightarrow> (Err e, x) | Ok _ \<Rightarrow> vo_status C (bh_reference h) x)"

definition bh_is_idle ::
  "'x RouteHelperV3Operations \<Rightarrow> BrokerBoundRouteHelperV3 \<Rightarrow> 'x \<Rightarrow> bool net_result \<times> 'x" where
  "bh_is_idle C h x =
     (case bh_validate_authority h of
        Err e \<Rightarrow> (Err e, x)
      | Ok _ \<Rightarrow>
     (case vo_discover C x of
        (Err e, x) \<Rightarrow> (Err e, x)
      | (Ok status, x) \<Rightarrow> (Ok (hv_state status = V3Idle \<or> hv_state status = V3Released), x)))"

text \<open>The native factory connects the client and builds the adapter on it.\<close>

definition bound_factory_create ::
  "('x \<Rightarrow> unit net_result \<times> 'x) \<Rightarrow> BrokerRouteAuthorization \<Rightarrow> u64 \<Rightarrow> string list \<Rightarrow> string list \<Rightarrow> 'x \<Rightarrow>
     BrokerBoundRouteHelperV3 net_result \<times> 'x" where
  "bound_factory_create connect authorization profile_revision interfaces private_cidrs x =
     (case connect x of
        (Err e, x) \<Rightarrow> (Err e, x)
      | (Ok _, x) \<Rightarrow>
          (BrokerBoundRouteHelperV3_new authorization profile_revision interfaces private_cidrs, x))"

subsection \<open>The deferred boundary\<close>

record DeferredV3ProductionRouteBoundary =
  db_active :: "BrokerBoundRouteHelperV3 option"
  db_active_operation_id :: "string option"
  db_retirement_issuer :: RouteRetirementIssuer
  db_native_generation :: u64
  db_recovery_required :: bool
  db_retired :: bool

definition db_new :: "u64 \<Rightarrow> DeferredV3ProductionRouteBoundary net_result \<times> u64" where
  "db_new counter =
     (case RouteRetirementIssuer_allocate counter of
        (Err e, counter) \<Rightarrow> (Err e, counter)
      | (Ok issuer, counter) \<Rightarrow>
          (Ok \<lparr>db_active = None, db_active_operation_id = None, db_retirement_issuer = issuer,
               db_native_generation = 1, db_recovery_required = False, db_retired = False\<rparr>, counter))"

definition db_require_live :: "DeferredV3ProductionRouteBoundary \<Rightarrow> unit net_result" where
  "db_require_live d = (if db_retired d then Err InvalidStateTransition else Ok ())"

definition validate_active_status ::
  "RouteHelperV3Status \<Rightarrow> RouteHelperV3State \<Rightarrow> u64 \<Rightarrow> DeferredV3ProductionRouteBoundary \<Rightarrow> unit net_result" where
  "validate_active_status status expected expected_transition d =
     (if hv_protocol_version status \<noteq> ROUTE_HELPER_V3_PROTOCOL_VERSION then Err UnsupportedProtocolVersion
      else case hv_error_code status of
        Some error \<Rightarrow> Err error
      | None \<Rightarrow>
     (case ok_or (map_option bh_reference (db_active d)) InvalidStateTransition of
        Err e \<Rightarrow> Err e
      | Ok reference \<Rightarrow>
          if hv_state status \<noteq> expected \<or> hv_reference status \<noteq> Some reference \<or>
             hv_transition status \<noteq> expected_transition
          then Err AuthenticationFailed else Ok ()))"

definition validate_discover_status :: "RouteHelperV3Status \<Rightarrow> unit net_result" where
  "validate_discover_status status =
     (if hv_protocol_version status \<noteq> ROUTE_HELPER_V3_PROTOCOL_VERSION then Err UnsupportedProtocolVersion
      else case hv_error_code status of
        Some error \<Rightarrow> Err error
      | None \<Rightarrow>
          if hv_state status \<noteq> V3Idle \<or> hv_reference status \<noteq> None \<or> hv_transition status \<noteq> 0
          then Err InvalidStateTransition else Ok ())"

definition validate_rollback_status ::
  "RouteHelperV3Status \<Rightarrow> DeferredV3ProductionRouteBoundary \<Rightarrow> unit net_result" where
  "validate_rollback_status status d =
     (if hv_protocol_version status \<noteq> ROUTE_HELPER_V3_PROTOCOL_VERSION then Err UnsupportedProtocolVersion
      else case hv_error_code status of
        Some error \<Rightarrow> Err error
      | None \<Rightarrow>
     (case ok_or (map_option bh_reference (db_active d)) InvalidStateTransition of
        Err e \<Rightarrow> Err e
      | Ok reference \<Rightarrow>
          if hv_state status = V3Released \<and> hv_reference status = Some reference \<and> 0 < hv_transition status
          then Ok ()
          else if hv_state status = V3Idle \<and> hv_reference status = None \<and> hv_transition status = 0
          then Ok ()
          else Err AuthenticationFailed))"

definition db_freeze ::
  "NetworkErrorCode \<Rightarrow> DeferredV3ProductionRouteBoundary \<Rightarrow>
     NetworkErrorCode \<times> DeferredV3ProductionRouteBoundary" where
  "db_freeze error d = (error, d\<lparr>db_recovery_required := True\<rparr>)"

definition db_disposition :: "DeferredV3ProductionRouteBoundary \<Rightarrow> ProductionRouteDisposition" where
  "db_disposition d =
     (if db_retired d then BoundaryRetired
      else if db_recovery_required d then BoundaryRecoveryOnly
      else if db_active d \<noteq> None \<or> db_active_operation_id d \<noteq> None then BoundaryBusy
      else BoundaryReusable)"

definition db_try_retire ::
  "DeferredV3ProductionRouteBoundary \<Rightarrow>
     ProductionRouteRetirementResult \<times> DeferredV3ProductionRouteBoundary" where
  "db_try_retire d =
     (case db_disposition d of
        BoundaryBusy \<Rightarrow> (ResultBusy, d)
      | BoundaryRecoveryOnly \<Rightarrow> (ResultRecoveryOnly, d)
      | BoundaryRetired \<Rightarrow> (ResultAlreadyRetired, d)
      | BoundaryReusable \<Rightarrow>
          let d = d\<lparr>db_retired := True\<rparr> in
          (ResultRetired (ProductionRouteRetirementReceipt_issued (db_retirement_issuer d)
             (db_native_generation d)), d))"

text \<open>The legacy \<open>apply\<close> of the trait is refused.\<close>

definition db_apply :: "DeferredV3ProductionRouteBoundary \<Rightarrow> unit net_result" where
  "db_apply d = Err InvalidStateTransition"

text \<open>Every failure of a call on the open session freezes the boundary.\<close>

definition db_fail ::
  "NetworkErrorCode \<Rightarrow> DeferredV3ProductionRouteBoundary \<Rightarrow> 'x \<Rightarrow>
     unit net_result \<times> DeferredV3ProductionRouteBoundary \<times> 'x" where
  "db_fail error d x = (case db_freeze error d of (error, d) \<Rightarrow> (Err error, d, x))"

definition on_active ::
  "(BrokerBoundRouteHelperV3 \<Rightarrow> 'x \<Rightarrow> RouteHelperV3Status net_result \<times> 'x) \<Rightarrow>
     DeferredV3ProductionRouteBoundary \<Rightarrow> 'x \<Rightarrow> RouteHelperV3Status net_result \<times> 'x" where
  "on_active call d x =
     (case db_active d of Some active \<Rightarrow> call active x | None \<Rightarrow> (Err InvalidStateTransition, x))"

text \<open>The sequence on the open session: an idle helper, then the hold, then the routes.\<close>

definition apply_on_session ::
  "'x RouteHelperV3Operations \<Rightarrow> DeferredV3ProductionRouteBoundary \<Rightarrow> 'x \<Rightarrow>
     unit net_result \<times> DeferredV3ProductionRouteBoundary \<times> 'x" where
  "apply_on_session C d x =
     (case on_active (bh_discover C) d x of
        (Err e, x) \<Rightarrow> db_fail e d x
      | (Ok discovered, x) \<Rightarrow>
     (case validate_discover_status discovered of
        Err e \<Rightarrow> db_fail e d x
      | Ok _ \<Rightarrow>
     (case on_active (bh_begin C) d x of
        (Err e, x) \<Rightarrow> db_fail e d x
      | (Ok begun, x) \<Rightarrow>
     (case validate_active_status begun V3Held 2 d of
        Err e \<Rightarrow> db_fail e d x
      | Ok _ \<Rightarrow>
     (case on_active (bh_apply C) d x of
        (Err e, x) \<Rightarrow> db_fail e d x
      | (Ok applied, x) \<Rightarrow>
     (case validate_active_status applied V3Applied 3 d of
        Err e \<Rightarrow> db_fail e d x
      | Ok _ \<Rightarrow> (Ok (), d\<lparr>db_recovery_required := False\<rparr>, x)))))))"

definition apply_broker_bound ::
  "config_lib \<Rightarrow> ('x \<Rightarrow> unit net_result \<times> 'x) \<Rightarrow> 'x RouteHelperV3Operations \<Rightarrow> NetworkProfile \<Rightarrow> string \<Rightarrow>
     TunnelDeviceFacts \<Rightarrow> u64 \<Rightarrow> MihomoTunSnapshot \<Rightarrow> ControllerStartReceipt \<Rightarrow>
     DeferredV3ProductionRouteBoundary \<Rightarrow> 'x \<Rightarrow>
     unit net_result \<times> DeferredV3ProductionRouteBoundary \<times> 'x" where
  "apply_broker_bound L connect C profile operation_id tunnel profile_revision mihomo receipt d x =
     (case db_require_live d of
        Err e \<Rightarrow> (Err e, d, x)
      | Ok _ \<Rightarrow>
      if db_active d \<noteq> None \<or> db_active_operation_id d \<noteq> None \<or> db_recovery_required d
      then (Err InvalidStateTransition, d, x)
      else
     (case NetworkProfile_validate L profile of
        Err e \<Rightarrow> (Err e, d, x)
      | Ok _ \<Rightarrow>
     (case MihomoTunSnapshot_validate_for (tf_interface_name tunnel) mihomo of
        Err e \<Rightarrow> (Err e, d, x)
      | Ok _ \<Rightarrow>
     (case authorize_routes tunnel operation_id operation_id receipt of
        Err e \<Rightarrow> (Err e, d, x)
      | Ok authorization \<Rightarrow>
     (case bound_factory_create connect authorization profile_revision
             (mt_active_mihomo_tun_interfaces mihomo) (site_private_cidrs (pr_site profile)) x of
        (Err e, x) \<Rightarrow> (Err e, d, x)
      | (Ok session, x) \<Rightarrow>
          let d = d\<lparr>db_active_operation_id := Some operation_id, db_active := Some session\<rparr> in
          apply_on_session C d x)))))"

definition db_heartbeat ::
  "'x RouteHelperV3Operations \<Rightarrow> string \<Rightarrow> DeferredV3ProductionRouteBoundary \<Rightarrow> 'x \<Rightarrow>
     unit net_result \<times> DeferredV3ProductionRouteBoundary \<times> 'x" where
  "db_heartbeat C operation_id d x =
     (case db_require_live d of
        Err e \<Rightarrow> (Err e, d, x)
      | Ok _ \<Rightarrow>
      if db_active_operation_id d \<noteq> Some operation_id then (Err InvalidStateTransition, d, x)
      else
     (case on_active (bh_heartbeat C) d x of
        (Err e, x) \<Rightarrow> db_fail e d x
      | (Ok heartbeat, x) \<Rightarrow>
     (case validate_active_status heartbeat V3Applied 3 d of
        Err e \<Rightarrow> db_fail e d x
      | Ok _ \<Rightarrow> (Ok (), d, x))))"

definition db_rollback ::
  "'x RouteHelperV3Operations \<Rightarrow> string \<Rightarrow> DeferredV3ProductionRouteBoundary \<Rightarrow> 'x \<Rightarrow>
     unit net_result \<times> DeferredV3ProductionRouteBoundary \<times> 'x" where
  "db_rollback C operation_id d x =
     (case db_require_live d of
        Err e \<Rightarrow> (Err e, d, x)
      | Ok _ \<Rightarrow>
     (case db_active_operation_id d of
        None \<Rightarrow> if db_active d = None then (Ok (), d, x) else db_fail InvalidStateTransition d x
      | Some active_operation_id \<Rightarrow>
          if active_operation_id \<noteq> operation_id then (Err InvalidStateTransition, d, x)
          else
     (case on_active (bh_rollback C) d x of
        (Err e, x) \<Rightarrow> db_fail e d x
      | (Ok rollback, x) \<Rightarrow>
     (case validate_rollback_status rollback d of
        Err e \<Rightarrow> db_fail e d x
      | Ok _ \<Rightarrow> (Ok (), d\<lparr>db_active := None, db_active_operation_id := None,
                     db_recovery_required := False\<rparr>, x)))))"

definition db_drop :: "'x RouteHelperV3Operations \<Rightarrow> DeferredV3ProductionRouteBoundary \<Rightarrow> 'x \<Rightarrow> 'x" where
  "db_drop C d x =
     (if \<not> db_retired d \<and> db_active d \<noteq> None then snd (on_active (bh_rollback C) d x) else x)"

subsection \<open>No lease is forgotten\<close>

text \<open>
  What the helper promises: only \<open>begin\<close> and \<open>apply\<close> can leave a lease, the one they name, whether or not
  they report success; and a rollback that answers with the released lease, or with an idle helper,
  has removed it.
\<close>

definition rolled_back :: "RouteLeaseReferenceV3 \<Rightarrow> RouteHelperV3Status \<Rightarrow> bool" where
  "rolled_back f st \<longleftrightarrow> hv_protocol_version st = 3 \<and> hv_error_code st = None \<and>
     (hv_state st = V3Released \<and> hv_reference st = Some f \<and> 0 < hv_transition st \<or>
      hv_state st = V3Idle \<and> hv_reference st = None \<and> hv_transition st = 0)"

locale helper_v3 =
  fixes L :: config_lib
    and C :: "'x RouteHelperV3Operations"
    and connect :: "'x \<Rightarrow> unit net_result \<times> 'x"
    and leases :: "'x \<Rightarrow> RouteLeaseReferenceV3 set"
  assumes connect_leases: "leases (snd (connect x)) \<subseteq> leases x"
    and discover_leases: "leases (snd (vo_discover C x)) \<subseteq> leases x"
    and begin_leases: "leases (snd (vo_begin C w x)) \<subseteq> insert (from_owner w) (leases x)"
    and apply_leases: "leases (snd (vo_apply C f x)) \<subseteq> insert f (leases x)"
    and heartbeat_leases: "leases (snd (vo_heartbeat C f x)) \<subseteq> leases x"
    and rollback_leases: "leases (snd (vo_rollback C f x)) \<subseteq> leases x"
    and rollback_removes: "fst (vo_rollback C f x) = Ok st \<Longrightarrow> rolled_back f st \<Longrightarrow>
      f \<notin> leases (snd (vo_rollback C f x))"

definition bound_wf :: "DeferredV3ProductionRouteBoundary \<Rightarrow> bool" where
  "bound_wf d \<longleftrightarrow>
     (db_active d = None \<longleftrightarrow> db_active_operation_id d = None) \<and> (db_retired d \<longrightarrow> db_active d = None) \<and>
     (\<forall>h. db_active d = Some h \<longrightarrow> bh_validate_authority h = Ok ())"

definition bound_accounted ::
  "('x \<Rightarrow> RouteLeaseReferenceV3 set) \<Rightarrow> DeferredV3ProductionRouteBoundary \<times> 'x \<Rightarrow> bool" where
  "bound_accounted leases s \<longleftrightarrow> bound_wf (fst s) \<and>
     leases (snd s) \<subseteq> (case db_active (fst s) of None \<Rightarrow> {} | Some h \<Rightarrow> {bh_reference h})"

inductive bound_move ::
  "config_lib \<Rightarrow> ('x \<Rightarrow> unit net_result \<times> 'x) \<Rightarrow> 'x RouteHelperV3Operations \<Rightarrow>
     DeferredV3ProductionRouteBoundary \<times> 'x \<Rightarrow> DeferredV3ProductionRouteBoundary \<times> 'x \<Rightarrow> bool"
  for L connect C where
  move_apply: "bound_move L connect C (d, x)
     (snd (apply_broker_bound L connect C profile op tunnel revision mihomo receipt d x))"
| move_heartbeat: "bound_move L connect C (d, x) (snd (db_heartbeat C op d x))"
| move_rollback: "bound_move L connect C (d, x) (snd (db_rollback C op d x))"

definition bound_retire ::
  "DeferredV3ProductionRouteBoundary \<times> 'x \<Rightarrow>
     ProductionRouteRetirementResult \<times> DeferredV3ProductionRouteBoundary \<times> 'x" where
  "bound_retire s = (case db_try_retire (fst s) of (r, d) \<Rightarrow> (r, d, snd s))"

lemma bound_new_authority:
  assumes "BrokerBoundRouteHelperV3_new a revision ifs cidrs = Ok h"
  shows "bh_validate_authority h = Ok () \<and> bh_authorization h = a \<and> bh_reference h = from_owner (bh_owner h) \<and>
    bh_owner h = owner_from_authorization a revision ifs cidrs"
proof -
  let ?w = "owner_from_authorization a revision ifs cidrs"
  have h: "RouteLeaseOwnerV3_validate ?w = Ok ()"
    "h = \<lparr>bh_authorization = a, bh_owner = ?w, bh_reference = from_owner ?w,
          bh_runtime_generation = ba_runtime_generation a\<rparr>"
    using assms
    by (auto simp: BrokerBoundRouteHelperV3_new_def Let_def owner_from_authorization_def result_simps
        split: result.splits)
  moreover have "RouteLeaseOwnerV3_binding ?w = ba_binding a" "ow_tunnel ?w = ba_tunnel a"
    by (simp_all add: owner_from_authorization_def RouteLeaseOwnerV3_binding_def Let_def)
  ultimately show ?thesis by (simp add: bh_validate_authority_def matches_owner_Ok result_simps)
qed

lemma bh_reference_owner: "bh_validate_authority h = Ok () \<Longrightarrow> bh_reference h = from_owner (bh_owner h)"
  by (auto simp: bh_validate_authority_def matches_owner_Ok result_simps split: result.splits if_splits)

lemma bound_factory_Ok:
  assumes "bound_factory_create connect a revision ifs cidrs x = (Ok h, y)"
  shows "BrokerBoundRouteHelperV3_new a revision ifs cidrs = Ok h \<and> y = snd (connect x)"
  using assms unfolding bound_factory_create_def by (elim case_runE) auto

lemma validate_rollback_Ok:
  "db_active d = Some h \<Longrightarrow> validate_rollback_status st d = Ok () \<longleftrightarrow> rolled_back (bh_reference h) st"
  by (auto simp: validate_rollback_status_def rolled_back_def ok_or_def v3_versions
      split: option.splits if_splits)

lemma validate_active_Ok:
  "db_active d = Some h \<Longrightarrow> validate_active_status st s n d = Ok () \<longleftrightarrow>
     hv_protocol_version st = 3 \<and> hv_error_code st = None \<and> hv_state st = s \<and>
     hv_reference st = Some (bh_reference h) \<and> hv_transition st = n"
  by (auto simp: validate_active_status_def ok_or_def v3_versions split: option.splits if_splits)

lemma db_fail_eq: "db_fail e d x = (Err e, d\<lparr>db_recovery_required := True\<rparr>, x)"
  by (simp add: db_fail_def db_freeze_def)

lemma bound_wf_recovery [simp]: "bound_wf (d\<lparr>db_recovery_required := b\<rparr>) = bound_wf d"
  by (simp add: bound_wf_def)

context helper_v3
begin

lemma on_active_leases:
  assumes "db_active d = Some h" and "bh_validate_authority h = Ok ()" and "leases x \<subseteq> {bh_reference h}"
  shows "leases (snd (on_active (bh_discover C) d x)) \<subseteq> {bh_reference h}"
    "leases (snd (on_active (bh_begin C) d x)) \<subseteq> {bh_reference h}"
    "leases (snd (on_active (bh_apply C) d x)) \<subseteq> {bh_reference h}"
    "leases (snd (on_active (bh_heartbeat C) d x)) \<subseteq> {bh_reference h}"
    "leases (snd (on_active (bh_rollback C) d x)) \<subseteq> {bh_reference h}"
    "fst (on_active (bh_rollback C) d x) = Ok st \<Longrightarrow> rolled_back (bh_reference h) st \<Longrightarrow>
       leases (snd (on_active (bh_rollback C) d x)) = {}"
  using assms bh_reference_owner [OF assms(2)] discover_leases [of x] begin_leases [of "bh_owner h" x]
    apply_leases [of "bh_reference h" x] heartbeat_leases [of "bh_reference h" x]
    rollback_leases [of "bh_reference h" x] rollback_removes [of "bh_reference h" x st]
  by (auto simp: on_active_def bh_discover_def bh_begin_def bh_apply_def bh_heartbeat_def bh_rollback_def)

lemma accounted_active:
  "db_active d = Some h \<Longrightarrow> bound_accounted leases (d, x) \<longleftrightarrow> bound_wf d \<and> leases x \<subseteq> {bh_reference h}"
  by (simp add: bound_accounted_def)

lemma call_accounted:
  assumes "bound_accounted leases (d, x)" and "db_active d = Some h"
    and "leases y \<subseteq> {bh_reference h}"
  shows "bound_accounted leases (d, y)" "bound_accounted leases (d\<lparr>db_recovery_required := b\<rparr>, y)"
    "bound_accounted leases (snd (db_fail e d y))"
  using assms by (simp_all add: bound_accounted_def db_fail_eq)

lemma session_calls:
  assumes "db_active d = Some h" and "bh_validate_authority h = Ok ()" and "leases x \<subseteq> {bh_reference h}"
  shows "on_active (bh_discover C) d x = (r, y) \<Longrightarrow> leases y \<subseteq> {bh_reference h}"
    "on_active (bh_begin C) d x = (r, y) \<Longrightarrow> leases y \<subseteq> {bh_reference h}"
    "on_active (bh_apply C) d x = (r, y) \<Longrightarrow> leases y \<subseteq> {bh_reference h}"
    "on_active (bh_heartbeat C) d x = (r, y) \<Longrightarrow> leases y \<subseteq> {bh_reference h}"
    "on_active (bh_rollback C) d x = (r, y) \<Longrightarrow> leases y \<subseteq> {bh_reference h}"
    "on_active (bh_rollback C) d x = (Ok st, y) \<Longrightarrow> rolled_back (bh_reference h) st \<Longrightarrow> leases y = {}"
  using on_active_leases [OF assms] by auto

lemma rollback_accounted:
  assumes "bound_accounted leases (d, x)"
  shows "bound_accounted leases (snd (db_rollback C op d x))"
proof -
  obtain r s where run: "db_rollback C op d x = (r, s)" by (cases "db_rollback C op d x")
  show ?thesis
  proof (cases "db_active d")
    case None
    then have "db_active_operation_id d = None" using assms by (simp add: bound_accounted_def bound_wf_def)
    with None assms show ?thesis by (simp add: db_rollback_def split: result.splits)
  next
    case (Some h)
    then have h: "bh_validate_authority h = Ok ()" "leases x \<subseteq> {bh_reference h}" "bound_wf d"
      using assms by (auto simp: bound_accounted_def bound_wf_def)
    have "bound_accounted leases s"
      using run unfolding db_rollback_def
    proof (elim case_runE case_resultE case_optionE case_ifE, goal_cases)
      case 7
      then show ?case
        using session_calls(6) [OF Some h(1,2)] validate_rollback_Ok [OF Some] h(3)
        by (auto simp: bound_accounted_def bound_wf_def)
    qed (use Some assms h in
        \<open>auto simp: db_fail_eq bound_accounted_def dest: session_calls(5) [OF Some h(1,2), THEN subsetD]\<close>)
    then show ?thesis using run by simp
  qed
qed

lemma heartbeat_accounted:
  assumes "bound_accounted leases (d, x)"
  shows "bound_accounted leases (snd (db_heartbeat C op d x))"
proof -
  obtain r s where run: "db_heartbeat C op d x = (r, s)" by (cases "db_heartbeat C op d x")
  show ?thesis
  proof (cases "db_active d")
    case None
    then have "db_active_operation_id d = None" using assms by (simp add: bound_accounted_def bound_wf_def)
    with None assms show ?thesis by (simp add: db_heartbeat_def split: result.splits)
  next
    case (Some h)
    then have h: "bh_validate_authority h = Ok ()" "leases x \<subseteq> {bh_reference h}" "bound_wf d"
      using assms by (auto simp: bound_accounted_def bound_wf_def)
    have "bound_accounted leases s"
      using run unfolding db_heartbeat_def
      by (elim case_runE case_resultE case_optionE case_ifE)
        (use Some assms h in
          \<open>auto simp: db_fail_eq bound_accounted_def dest: session_calls(4) [OF Some h(1,2), THEN subsetD]\<close>)
    then show ?thesis using run by simp
  qed
qed

lemma apply_on_session_accounted:
  assumes "db_active d = Some h" and "bound_accounted leases (d, x)"
  shows "bound_accounted leases (snd (apply_on_session C d x))"
proof -
  obtain r s where run: "apply_on_session C d x = (r, s)" by (cases "apply_on_session C d x")
  have h: "bh_validate_authority h = Ok ()" "leases x \<subseteq> {bh_reference h}" "bound_wf d"
    using assms by (auto simp: bound_accounted_def bound_wf_def)
  note c = session_calls [OF assms(1) h(1)]
  have "bound_accounted leases s"
    using run unfolding apply_on_session_def
  proof (elim case_runE case_resultE, goal_cases)
    case 1
    then show ?case using c(1) [OF h(2) 1(1)] h(3) assms(1) by (auto simp: db_fail_eq accounted_active)
  next
    case 2
    then show ?case using c(1) [OF h(2) 2(1)] h(3) assms(1) by (auto simp: db_fail_eq accounted_active)
  next
    case 3
    then show ?case using c(2) [OF c(1) [OF h(2) 3(1)] 3(3)] h(3) assms(1) by (auto simp: db_fail_eq accounted_active)
  next
    case 4
    then show ?case using c(2) [OF c(1) [OF h(2) 4(1)] 4(3)] h(3) assms(1) by (auto simp: db_fail_eq accounted_active)
  next
    case 5
    then show ?case
      using c(3) [OF c(2) [OF c(1) [OF h(2) 5(1)] 5(3)] 5(5)] h(3) assms(1) by (auto simp: db_fail_eq accounted_active)
  next
    case 6
    then show ?case
      using c(3) [OF c(2) [OF c(1) [OF h(2) 6(1)] 6(3)] 6(5)] h(3) assms(1) by (auto simp: db_fail_eq accounted_active)
  next
    case 7
    then show ?case
      using c(3) [OF c(2) [OF c(1) [OF h(2) 7(1)] 7(3)] 7(5)] h(3) assms(1) by (auto simp: accounted_active)
  qed
  then show ?thesis using run by simp
qed

lemma apply_accounted:
  assumes "bound_accounted leases (d, x)"
  shows "bound_accounted leases
    (snd (apply_broker_bound L connect C profile op tunnel revision mihomo receipt d x))"
proof -
  obtain r s where run: "apply_broker_bound L connect C profile op tunnel revision mihomo receipt d x = (r, s)"
    by (cases "apply_broker_bound L connect C profile op tunnel revision mihomo receipt d x")
  have opened: "bound_accounted leases (d\<lparr>db_active_operation_id := Some op, db_active := Some h\<rparr>, y)"
    if "db_require_live d = Ok u" "\<not> (db_active d \<noteq> None \<or> b)"
      "bound_factory_create connect a revision ifs cidrs x = (Ok h, y)" for u b a ifs cidrs h y
    using that bound_new_authority [of a revision ifs cidrs h] bound_factory_Ok [OF that(3)] assms
      connect_leases [of x]
    by (auto simp: bound_accounted_def bound_wf_def db_require_live_def split: if_splits)
  have "bound_accounted leases s"
    using run unfolding apply_broker_bound_def Let_def
  proof (elim case_runE case_resultE case_ifE, goal_cases)
    case (6 u p m a e y)
    then show ?case
      using connect_leases [of x] assms
      by (auto simp: bound_factory_create_def bound_accounted_def split: prod.splits result.splits)
  next
    case (7 u p m a h y)
    then show ?case using apply_on_session_accounted [OF _ opened [OF 7(1,2,6)]] by simp
  qed (use assms in auto)
  then show ?thesis using run by simp
qed

end

lemma db_disposition_retired: "db_disposition d = BoundaryRetired \<longleftrightarrow> db_retired d"
  by (simp add: db_disposition_def)

lemma bound_move_retired: "bound_move L connect C s s' \<Longrightarrow> db_retired (fst s) \<Longrightarrow> s' = s"
  by (induction rule: bound_move.induct)
    (simp_all add: apply_broker_bound_def db_heartbeat_def db_rollback_def db_require_live_def)

lemma bound_retire_cases:
  "bound_retire s =
     (case db_disposition (fst s) of
        BoundaryBusy \<Rightarrow> (ResultBusy, s)
      | BoundaryRecoveryOnly \<Rightarrow> (ResultRecoveryOnly, s)
      | BoundaryRetired \<Rightarrow> (ResultAlreadyRetired, s)
      | BoundaryReusable \<Rightarrow>
          (ResultRetired (ProductionRouteRetirementReceipt_issued (db_retirement_issuer (fst s))
             (db_native_generation (fst s))), (fst s)\<lparr>db_retired := True\<rparr>, snd s))"
  by (cases s) (simp add: bound_retire_def db_try_retire_def Let_def split: ProductionRouteDisposition.split)

sublocale helper_v3 \<subseteq> bound: route_boundary "\<lambda>s. db_disposition (fst s)" bound_retire
    "bound_move L connect C" "\<lambda>s. leases (snd s) \<noteq> {}" "bound_accounted leases"
proof
  fix s s' :: "DeferredV3ProductionRouteBoundary \<times> 'x"
  assume "bound_move L connect C s s'" "bound_accounted leases s"
  then show "bound_accounted leases s'"
    by (induction rule: bound_move.induct) (auto intro: apply_accounted heartbeat_accounted rollback_accounted)
next
  fix s :: "DeferredV3ProductionRouteBoundary \<times> 'x"
  assume "bound_accounted leases s"
  then show "bound_accounted leases (snd (bound_retire s))"
    by (auto simp: bound_retire_cases bound_accounted_def bound_wf_def db_disposition_def
        split: ProductionRouteDisposition.split if_splits)
next
  fix s :: "DeferredV3ProductionRouteBoundary \<times> 'x"
  assume "bound_accounted leases s" "db_disposition (fst s) = BoundaryReusable"
  then show "\<not> leases (snd s) \<noteq> {}"
    by (auto simp: bound_accounted_def db_disposition_def split: if_splits)
next
  fix s s' :: "DeferredV3ProductionRouteBoundary \<times> 'x" and r
  assume "bound_retire s = (ResultRetired r, s')"
  then show "db_disposition (fst s) = BoundaryReusable \<and> db_disposition (fst s') = BoundaryRetired \<and>
      (leases (snd s') \<noteq> {} \<longrightarrow> leases (snd s) \<noteq> {})"
    by (auto simp: bound_retire_cases db_disposition_retired split: ProductionRouteDisposition.splits)
next
  fix s s' :: "DeferredV3ProductionRouteBoundary \<times> 'x"
  assume "db_disposition (fst s) = BoundaryRetired" "bound_move L connect C s s'"
  then show "s' = s" using bound_move_retired by (simp add: db_disposition_retired)
next
  fix s :: "DeferredV3ProductionRouteBoundary \<times> 'x"
  assume "db_disposition (fst s) = BoundaryRetired"
  then show "bound_retire s = (ResultAlreadyRetired, s)" by (simp add: bound_retire_cases)
qed

context helper_v3
begin

lemmas receipt_absence = bound.receipt_proves_absence

end

text \<open>
  Claim C12. A retirement receipt of the broker-bound boundary is honest: for every helper that obeys its
  contract, after any sequence of applications, heartbeats, rollbacks and retirement attempts with any
  replies and failures, the boundary issues a receipt only when the helper has no lease of it left; then
  no later call reaches the helper and no second receipt is given.
\<close>

theorem bound_receipt_proves_absence:
  assumes "helper_v3 C connect leases" and "db_new counter = (Ok d0, counter')" and "leases x0 = {}"
    and "boundary_history bound_retire (bound_move L connect C) (d0, x0) (d, x)"
    and "bound_retire (d, x) = (ResultRetired r, s)"
    and "boundary_history bound_retire (bound_move L connect C) s t"
  shows "leases x = {} \<and> t = s \<and> leases (snd t) = {} \<and> fst (bound_retire t) = ResultAlreadyRetired"
proof -
  have "bound_accounted leases (d0, x0)"
    using assms(2,3)
    by (auto simp: db_new_def RouteRetirementIssuer_allocate_def bound_accounted_def bound_wf_def
        split: option.splits)
  from helper_v3.receipt_absence [OF assms(1) this assms(4-6)] show ?thesis by auto
qed

text \<open>The answers that a successful application requires of the helper, one after the other.\<close>

definition idle_answer :: "RouteHelperV3Status \<Rightarrow> bool" where
  "idle_answer st \<longleftrightarrow> hv_protocol_version st = 3 \<and> hv_error_code st = None \<and> hv_state st = V3Idle \<and>
     hv_reference st = None \<and> hv_transition st = 0"

definition lease_answer :: "RouteLeaseReferenceV3 \<Rightarrow> RouteHelperV3State \<Rightarrow> u64 \<Rightarrow> RouteHelperV3Status \<Rightarrow> bool" where
  "lease_answer f state n st \<longleftrightarrow> hv_protocol_version st = 3 \<and> hv_error_code st = None \<and> hv_state st = state \<and>
     hv_reference st = Some f \<and> hv_transition st = n"

lemma apply_on_session_Ok:
  assumes "db_active d = Some h" and "bh_validate_authority h = Ok ()"
    and "apply_on_session C d x = (Ok (), d', x')"
  shows "\<exists>x2 x3 st1 st2 st3. d' = d\<lparr>db_recovery_required := False\<rparr> \<and>
    vo_discover C x = (Ok st1, x2) \<and> idle_answer st1 \<and>
    vo_begin C (bh_owner h) x2 = (Ok st2, x3) \<and> lease_answer (bh_reference h) V3Held 2 st2 \<and>
    vo_apply C (bh_reference h) x3 = (Ok st3, x') \<and> lease_answer (bh_reference h) V3Applied 3 st3"
proof -
  have d: "validate_discover_status st = Ok () \<Longrightarrow> idle_answer st" for st
    by (auto simp: validate_discover_status_def idle_answer_def v3_versions split: if_splits option.splits)
  show ?thesis
    using assms(3) unfolding apply_on_session_def
    by (elim case_runE case_resultE)
      (auto simp: db_fail_eq on_active_def assms(1,2) bh_discover_def bh_begin_def bh_apply_def
        validate_active_Ok [OF assms(1)] lease_answer_def dest!: d)
qed

lemma apply_on_session_Err:
  assumes "apply_on_session C d x = (r, d', x')"
  shows "r \<noteq> Ok () \<Longrightarrow> d' = d\<lparr>db_recovery_required := True\<rparr>"
  using assms unfolding apply_on_session_def by (elim case_runE case_resultE) (auto simp: db_fail_eq)

text \<open>A frozen boundary, and the one way out of it.\<close>

definition bound_frozen :: "BrokerBoundRouteHelperV3 \<Rightarrow> string \<Rightarrow> DeferredV3ProductionRouteBoundary \<Rightarrow> bool" where
  "bound_frozen h op d \<longleftrightarrow> db_active d = Some h \<and> db_active_operation_id d = Some op \<and>
     db_recovery_required d \<and> \<not> db_retired d"

definition confirmed_rollback ::
  "'x RouteHelperV3Operations \<Rightarrow> BrokerBoundRouteHelperV3 \<Rightarrow> string \<Rightarrow>
     DeferredV3ProductionRouteBoundary \<times> 'x \<Rightarrow> DeferredV3ProductionRouteBoundary \<times> 'x \<Rightarrow> bool" where
  "confirmed_rollback C h op s t \<longleftrightarrow> bound_frozen h op (fst s) \<and> t = snd (db_rollback C op (fst s) (snd s)) \<and>
     (case fst (vo_rollback C (bh_reference h) (snd s)) of
        Ok st \<Rightarrow> rolled_back (bh_reference h) st | Err _ \<Rightarrow> False)"

lemma bound_frozen_disposition: "bound_frozen h op d \<Longrightarrow> db_disposition d = BoundaryRecoveryOnly"
  by (simp add: bound_frozen_def db_disposition_def)

lemma rollback_thaws:
  assumes "bound_frozen h op d" and "bh_validate_authority h = Ok ()"
    and "db_rollback C op' d x = (r, d', x')"
  shows "bound_frozen h op d' \<or>
    op' = op \<and> (\<exists>st. fst (vo_rollback C (bh_reference h) x) = Ok st \<and> rolled_back (bh_reference h) st)"
proof -
  have a: "db_active d = Some h" "db_active_operation_id d = Some op" "db_recovery_required d" "\<not> db_retired d"
    using assms(1) by (simp_all add: bound_frozen_def)
  show ?thesis
    using assms(3) unfolding db_rollback_def
    by (elim case_runE case_resultE case_optionE case_ifE)
      (use a assms(2) in \<open>auto simp: db_require_live_def db_fail_eq bound_frozen_def on_active_def bh_rollback_def
        validate_rollback_Ok\<close>)
qed

lemma heartbeat_stays_frozen:
  assumes "bound_frozen h op d" and "db_heartbeat C op' d x = (r, d', x')"
  shows "bound_frozen h op d'"
  using assms(2) unfolding db_heartbeat_def
  by (elim case_runE case_resultE case_ifE) (use assms(1) in \<open>auto simp: db_fail_eq bound_frozen_def\<close>)

lemma frozen_move:
  assumes "bound_move L connect C s t" and "bound_frozen h op (fst s)" and "bh_validate_authority h = Ok ()"
  shows "bound_frozen h op (fst t) \<or> confirmed_rollback C h op s t"
  using assms(1)
proof cases
  case (move_apply d x profile op' tunnel revision mihomo receipt)
  then show ?thesis
    using assms(2) by (simp add: apply_broker_bound_def db_require_live_def bound_frozen_def)
next
  case (move_heartbeat d x op')
  then show ?thesis
    using heartbeat_stays_frozen [of h op d C op' x] assms(2) by (cases "db_heartbeat C op' d x") auto
next
  case (move_rollback d x op')
  then show ?thesis
    using rollback_thaws [of h op d C op' x] assms(2,3)
    by (cases "db_rollback C op' d x") (auto simp: confirmed_rollback_def)
qed

lemma frozen_history:
  assumes "boundary_history bound_retire (bound_move L connect C) s t" and "bound_frozen h op (fst s)"
    and "bh_validate_authority h = Ok ()"
  shows "bound_frozen h op (fst t) \<or>
    (\<exists>u v. boundary_history bound_retire (bound_move L connect C) s u \<and> confirmed_rollback C h op u v \<and>
       boundary_history bound_retire (bound_move L connect C) v t)"
  using assms(1,2)
proof (induction rule: boundary_history.induct)
  case (history_refl s)
  then show ?case by simp
next
  case (history_move s t u)
  then show ?case
    using frozen_move [OF history_move(2) _ assms(3)] boundary_history.history_move boundary_history.history_refl
    by metis
next
  case (history_retire s t)
  have "bound_frozen h op (fst (snd (bound_retire t)))" if "bound_frozen h op (fst t)"
    using that by (simp add: bound_retire_cases bound_frozen_disposition)
  with history_retire show ?case using boundary_history.history_retire by metis
qed

text \<open>
  Claim C13. Applying routes through the broker-bound boundary is exact.  Success means that the open
  session was built from this receipt and operation, that the client was opened, and that the helper
  then reported itself idle, confirmed the hold and confirmed the routes for exactly this lease, each
  answer to the call before it, of the protocol version, in the state and transition the protocol
  fixes and without an error.  A failure either leaves the boundary as it was, before any lease was
  named to the helper, or freezes it on this operation: whatever heartbeats, applications, rollbacks
  and retirements follow, it stays frozen until a rollback
  of this operation is asked for and the helper confirms it for this very lease.
\<close>

theorem bound_apply_is_exact:
  assumes "apply_broker_bound L connect C profile op tunnel revision mihomo receipt d x = (r, d', x')"
  shows "(r = Ok () \<longrightarrow>
      db_active d = None \<and> db_disposition d' = BoundaryBusy \<and>
      (\<exists>h a x1 x2 x3 st1 st2 st3. db_active d' = Some h \<and> authorize_routes tunnel op op receipt = Ok a \<and>
         bh_owner h = owner_from_authorization a revision (mt_active_mihomo_tun_interfaces mihomo)
           (site_private_cidrs (pr_site profile)) \<and> bh_reference h = from_owner (bh_owner h) \<and>
         connect x = (Ok (), x1) \<and>
         vo_discover C x1 = (Ok st1, x2) \<and> idle_answer st1 \<and>
         vo_begin C (bh_owner h) x2 = (Ok st2, x3) \<and> lease_answer (bh_reference h) V3Held 2 st2 \<and>
         vo_apply C (bh_reference h) x3 = (Ok st3, x') \<and> lease_answer (bh_reference h) V3Applied 3 st3)) \<and>
    (r \<noteq> Ok () \<longrightarrow> d' = d \<and> (x' = x \<or> x' = snd (connect x)) \<or>
      (\<exists>h. bound_frozen h op d' \<and>
         (\<forall>t. boundary_history bound_retire (bound_move L connect C) (d', x') t \<longrightarrow>
            bound_frozen h op (fst t) \<and> db_disposition (fst t) = BoundaryRecoveryOnly \<or>
            (\<exists>u v. boundary_history bound_retire (bound_move L connect C) (d', x') u \<and>
               confirmed_rollback C h op u v \<and> boundary_history bound_retire (bound_move L connect C) v t))))"
  using assms unfolding apply_broker_bound_def Let_def
proof (elim case_runE case_resultE case_ifE, goal_cases)
  case (6 u p m a e y)
  then show ?case by (auto simp: bound_factory_create_def split: prod.splits result.splits)
next
  case (7 u p m a h y)
  let ?d = "d\<lparr>db_active_operation_id := Some op, db_active := Some h\<rparr>"
  have h: "bh_validate_authority h = Ok ()" "bh_reference h = from_owner (bh_owner h)"
    "bh_owner h = owner_from_authorization a revision (mt_active_mihomo_tun_interfaces mihomo)
       (site_private_cidrs (pr_site profile))"
    using bound_new_authority bound_factory_Ok [OF 7(6)] by blast+
  have c: "connect x = (Ok (), y)"
    using 7(6) by (auto simp: bound_factory_create_def split: prod.splits result.splits)
  have l: "\<not> db_retired d" "db_active d = None" using 7(1,2) by (auto simp: db_require_live_def split: if_splits)
  show ?case
  proof (cases "r = Ok ()")
    case True
    from apply_on_session_Ok [OF _ h(1) 7(7) [unfolded True]] obtain x2 x3 st1 st2 st3 where
      t: "d' = ?d\<lparr>db_recovery_required := False\<rparr>"
      "vo_discover C y = (Ok st1, x2)" "idle_answer st1"
      "vo_begin C (bh_owner h) x2 = (Ok st2, x3)" "lease_answer (bh_reference h) V3Held 2 st2"
      "vo_apply C (bh_reference h) x3 = (Ok st3, x')" "lease_answer (bh_reference h) V3Applied 3 st3"
      by auto
    have "db_active d' = Some h" "db_disposition d' = BoundaryBusy"
      using t(1) l by (simp_all add: db_disposition_def)
    then show ?thesis using True l 7(5) h(2,3) c t by blast
  next
    case False
    then have "d' = ?d\<lparr>db_recovery_required := True\<rparr>"
      using apply_on_session_Err [OF 7(7)] by simp
    then have f: "bound_frozen h op (fst (d', x'))" using l by (simp add: bound_frozen_def)
    have "bound_frozen h op (fst t) \<and> db_disposition (fst t) = BoundaryRecoveryOnly \<or>
        (\<exists>u v. boundary_history bound_retire (bound_move L connect C) (d', x') u \<and>
           confirmed_rollback C h op u v \<and> boundary_history bound_retire (bound_move L connect C) v t)"
      if "boundary_history bound_retire (bound_move L connect C) (d', x') t" for t
      using frozen_history [OF that f h(1)] bound_frozen_disposition by blast
    with f have "\<exists>h. bound_frozen h op d' \<and>
        (\<forall>t. boundary_history bound_retire (bound_move L connect C) (d', x') t \<longrightarrow>
           bound_frozen h op (fst t) \<and> db_disposition (fst t) = BoundaryRecoveryOnly \<or>
           (\<exists>u v. boundary_history bound_retire (bound_move L connect C) (d', x') u \<and>
              confirmed_rollback C h op u v \<and> boundary_history bound_retire (bound_move L connect C) v t))"
      unfolding fst_conv by blast
    with False show ?thesis by blast
  qed
qed auto

subsection \<open>The helper of the tests\<close>

text \<open>
  \<open>FakeClient\<close> records its calls and answers with success; \<open>fc_leases\<close> is not in the source and keeps the
  leases the answers stand for.
\<close>

record FakeClient =
  fc_calls :: "string list"
  fc_discovery :: "RouteHelperV3Status option"
  fc_leases :: "RouteLeaseReferenceV3 list"

definition FakeClient_mark ::
  "string \<Rightarrow> RouteHelperV3State \<Rightarrow> u64 \<Rightarrow> RouteLeaseReferenceV3 option \<Rightarrow> FakeClient \<Rightarrow>
     RouteHelperV3Status net_result \<times> FakeClient" where
  "FakeClient_mark call state step reference x =
     (Ok \<lparr>hv_protocol_version = ROUTE_HELPER_V3_PROTOCOL_VERSION, hv_state = state,
          hv_transition = step, hv_reference = reference, hv_error_code = None\<rparr>,
      x\<lparr>fc_calls := fc_calls x @ [call]\<rparr>)"

definition FakeClient_discover :: "FakeClient \<Rightarrow> RouteHelperV3Status net_result \<times> FakeClient" where
  "FakeClient_discover x =
     (Ok (case fc_discovery x of
            Some status \<Rightarrow> status
          | None \<Rightarrow> \<lparr>hv_protocol_version = ROUTE_HELPER_V3_PROTOCOL_VERSION, hv_state = V3Idle,
                     hv_transition = 0, hv_reference = None, hv_error_code = None\<rparr>),
      x\<lparr>fc_calls := fc_calls x @ [''discover'']\<rparr>)"

definition FakeClient_impl :: "FakeClient RouteHelperV3Operations" where
  "FakeClient_impl =
     \<lparr>vo_discover = FakeClient_discover,
      vo_begin = (\<lambda>w x. FakeClient_mark ''begin'' V3Held 2 (Some (from_owner w))
        (x\<lparr>fc_leases := from_owner w # fc_leases x\<rparr>)),
      vo_recover = (\<lambda>w. FakeClient_mark ''recover'' V3Held 2 (Some (from_owner w))),
      vo_apply = (\<lambda>f. FakeClient_mark ''apply'' V3Applied 3 (Some f)),
      vo_rollback = (\<lambda>f x. FakeClient_mark ''rollback'' V3Released 5 (Some f)
        (x\<lparr>fc_leases := removeAll f (fc_leases x)\<rparr>)),
      vo_heartbeat = (\<lambda>f. FakeClient_mark ''heartbeat'' V3Applied 3 (Some f)),
      vo_status = (\<lambda>f. FakeClient_mark ''status'' V3Applied 3 (Some f))\<rparr>"

definition fake_connect :: "FakeClient \<Rightarrow> unit net_result \<times> FakeClient" where
  "fake_connect x = (Ok (), x)"

interpretation fake_client: helper_v3 L FakeClient_impl fake_connect "\<lambda>x. set (fc_leases x)" for L
  by unfold_locales (auto simp: FakeClient_impl_def FakeClient_mark_def FakeClient_discover_def fake_connect_def)

lemma fake_client_helper: "helper_v3 FakeClient_impl fake_connect (\<lambda>x. set (fc_leases x))"
  by unfold_locales

subsection \<open>Witnesses\<close>

definition bound_profile :: NetworkProfile where
  "bound_profile = sample_profile_v1\<lparr>pr_site := \<lparr>site_id = ''site.1'', site_display_name = ''Office'',
     site_private_cidrs = [''10.0.0.0/8'']\<rparr>\<rparr>"

lemma bound_profile_valid: "NetworkProfile_validate sample_lib bound_profile = Ok ()"
  by code_simp

definition bound_snapshot :: MihomoTunSnapshot where
  "bound_snapshot = \<lparr>mt_active_mihomo_tun_interfaces = [''utun9'']\<rparr>"

definition bound_receipt :: ControllerStartReceipt where
  "bound_receipt = \<lparr>rc_runtime_generation = 7, rc_broker_reference = st_reference sample_session\<rparr>"

definition bound_owner :: RouteLeaseOwnerV3 where
  "bound_owner = sample_owner\<lparr>ow_broker_generation := 91, ow_lease_id := ''operation-1''\<rparr>"

definition bound_boundary :: DeferredV3ProductionRouteBoundary where
  "bound_boundary =
     \<lparr>db_active = None, db_active_operation_id = None,
      db_retirement_issuer = \<lparr>ri_boundary_incarnation = 1\<rparr>,
      db_native_generation = 1, db_recovery_required = False, db_retired = False\<rparr>"

definition fake_client0 :: FakeClient where
  "fake_client0 = \<lparr>fc_calls = [], fc_discovery = None, fc_leases = []\<rparr>"

lemma lease_id_irrelevant:
  "RouteLeaseOwner_validate w = Ok () \<Longrightarrow> valid_identifier l \<Longrightarrow>
     RouteLeaseOwner_validate (w\<lparr>lo_lease_id := l\<rparr>) = Ok ()"
  by (auto simp: RouteLeaseOwner_validate_def split: if_splits)

lemma bound_owner_valid: "RouteLeaseOwnerV3_validate bound_owner = Ok ()"
proof -
  have "legacy_owner bound_owner = sample_lease\<lparr>lo_lease_id := ''operation-1''\<rparr>"
    by (simp add: legacy_owner_def bound_owner_def sample_owner_def sample_lease_def)
  moreover have ids: "valid_ipc_id ''instance-1''" "valid_ipc_id ''operation-1''" by code_simp+
  ultimately have "RouteLeaseOwner_validate (legacy_owner bound_owner) = Ok ()"
    using lease_id_irrelevant [OF sample_lease_valid, of "''operation-1''"] by (simp add: valid_identifier_def)
  with ids show ?thesis
    by (simp add: RouteLeaseOwnerV3_validate_def RouteLeaseBinding_validate_def v3_versions i64_max_def
        RouteBrokerSessionReference_validate_def RouteLeaseOwnerV3_binding_def bound_owner_def sample_owner_def
        sample_lease_def)
qed

definition bound_authorization :: BrokerRouteAuthorization where
  "bound_authorization =
     \<lparr>ba_runtime_generation = 7, ba_binding = RouteLeaseOwnerV3_binding bound_owner,
      ba_tunnel = ow_tunnel sample_owner\<rparr>"

definition bound_session :: BrokerBoundRouteHelperV3 where
  "bound_session =
     \<lparr>bh_authorization = bound_authorization, bh_owner = bound_owner, bh_reference = from_owner bound_owner,
      bh_runtime_generation = 7\<rparr>"

lemma bound_authorized:
  "authorize_routes (ow_tunnel sample_owner) ''operation-1'' ''operation-1'' bound_receipt = Ok bound_authorization"
proof -
  have ids: "valid_ipc_id ''instance-1''" "valid_ipc_id ''operation-1''" "valid_utun_interface ''utun7''"
    by code_simp+
  have "ow_tunnel sample_owner = \<lparr>tf_interface_name = ''utun7'', tf_mtu = 1420, tf_has_ipv4 = True,
        tf_has_ipv6 = False, tf_instance_id = ''instance-1'', tf_operation_id = ''operation-1.prepare''\<rparr>"
    by (simp add: sample_owner_def sample_lease_def)
  moreover have "st_reference sample_session =
      \<lparr>tb_protocol_version = 1, tb_generation = 91, tb_sidecar_instance_id = ''instance-1''\<rparr>"
    by (simp add: sample_session_def)
  moreover have "RouteLeaseOwnerV3_binding bound_owner =
      \<lparr>lb_broker_protocol_version = 1, lb_broker_generation = 91, lb_sidecar_instance_id = ''instance-1'',
       lb_lease_id = ''operation-1'', lb_operation_id = ''operation-1''\<rparr>"
    by (simp add: RouteLeaseOwnerV3_binding_def bound_owner_def sample_owner_def)
  ultimately show ?thesis
    using sample_reference_valid ids
    by (simp add: authorize_routes_def Let_def v3_versions RouteLeaseBinding_validate_def i64_max_def
        RouteBrokerSessionReference_validate_def TunnelDeviceFacts_validate_def
        TunnelDeviceFacts_validate_owner_def bound_receipt_def bound_authorization_def)
qed

lemma bound_created:
  "bound_factory_create fake_connect bound_authorization 7 (mt_active_mihomo_tun_interfaces bound_snapshot)
     (site_private_cidrs (pr_site bound_profile)) x = (Ok bound_session, x)"
proof -
  have "owner_from_authorization bound_authorization 7 [''utun9''] [''10.0.0.0/8''] = bound_owner"
    by (simp add: owner_from_authorization_def Let_def bound_authorization_def RouteLeaseOwnerV3_binding_def
        bound_owner_def sample_owner_def v3_versions)
  then show ?thesis
    using bound_owner_valid reference_of_owner_valid [OF bound_owner_valid]
    by (simp add: bound_factory_create_def fake_connect_def BrokerBoundRouteHelperV3_new_def
        bound_snapshot_def bound_profile_def owner_from_authorization_def Let_def bound_session_def)
      (simp add: bound_authorization_def)
qed

lemma bound_session_valid: "bh_validate_authority bound_session = Ok ()"
  using bound_new_authority bound_factory_Ok [OF bound_created] by blast

definition bound_applied :: "unit net_result \<times> DeferredV3ProductionRouteBoundary \<times> FakeClient" where
  "bound_applied = apply_broker_bound sample_lib fake_connect FakeClient_impl bound_profile ''operation-1''
     (ow_tunnel sample_owner) 7 bound_snapshot bound_receipt bound_boundary fake_client0"

lemma bound_applied_eq:
  "bound_applied =
     (Ok (), bound_boundary\<lparr>db_active_operation_id := Some ''operation-1'', db_active := Some bound_session\<rparr>,
      \<lparr>fc_calls = [''discover'', ''begin'', ''apply''], fc_discovery = None,
       fc_leases = [from_owner bound_owner]\<rparr>)"
proof -
  have m: "MihomoTunSnapshot_validate_for (tf_interface_name (ow_tunnel sample_owner)) bound_snapshot = Ok ()"
    by code_simp
  show ?thesis
    using bound_authorized bound_profile_valid m bound_session_valid
    by (simp add: bound_applied_def apply_broker_bound_def db_require_live_def bound_created Let_def)
      (simp add: bound_boundary_def apply_on_session_def on_active_def bh_discover_def bh_begin_def bh_apply_def
        FakeClient_impl_def FakeClient_discover_def FakeClient_mark_def fake_client0_def
        validate_discover_status_def validate_active_status_def ok_or_def bound_session_def)
qed

definition bound_rolled_back :: "DeferredV3ProductionRouteBoundary \<times> FakeClient" where
  "bound_rolled_back =
     (bound_boundary, \<lparr>fc_calls = [''discover'', ''begin'', ''apply'', ''rollback''], fc_discovery = None,
        fc_leases = []\<rparr>)"

lemma bound_rolled_back_eq:
  "db_rollback FakeClient_impl ''operation-1'' (fst (snd bound_applied)) (snd (snd bound_applied)) =
     (Ok (), bound_rolled_back)"
  using bound_session_valid
  by (simp add: bound_applied_eq db_rollback_def db_require_live_def on_active_def bh_rollback_def
      FakeClient_impl_def FakeClient_mark_def validate_rollback_status_def ok_or_def v3_versions
      bound_boundary_def bound_rolled_back_def) (simp add: bound_session_def)

lemma bound_history_sample:
  "boundary_history bound_retire (bound_move sample_lib fake_connect FakeClient_impl)
     (bound_boundary, fake_client0) bound_rolled_back"
proof -
  have "bound_move sample_lib fake_connect FakeClient_impl (bound_boundary, fake_client0) (snd bound_applied)"
    unfolding bound_applied_def by (rule move_apply)
  moreover have "bound_move sample_lib fake_connect FakeClient_impl (snd bound_applied) bound_rolled_back"
    using move_rollback [of sample_lib fake_connect FakeClient_impl "fst (snd bound_applied)" "snd (snd bound_applied)"
        "''operation-1''"] by (simp add: bound_rolled_back_eq)
  ultimately show ?thesis using history_refl history_move by metis
qed

text \<open>A lease is taken, rolled back, and then the boundary is retired.\<close>

theorem bound_receipt_proves_absence_witness:
  "fst (bound_retire bound_rolled_back) = ResultRetired \<lparr>rr_boundary_incarnation = 1, rr_native_generation = 1\<rparr> \<and>
   fst (bound_retire (snd (bound_retire bound_rolled_back))) = ResultAlreadyRetired"
proof -
  have n: "db_new 1 = (Ok bound_boundary, 2)"
    by (simp add: db_new_def RouteRetirementIssuer_allocate_def checked_add_def bound_boundary_def)
  obtain d x where dx: "bound_rolled_back = (d, x)" by (cases bound_rolled_back)
  have "fst (bound_retire bound_rolled_back) =
      ResultRetired \<lparr>rr_boundary_incarnation = 1, rr_native_generation = 1\<rparr>"
    by (simp add: bound_retire_cases bound_rolled_back_def db_disposition_def bound_boundary_def
        ProductionRouteRetirementReceipt_issued_def)
  then obtain s where s: "bound_retire (d, x) =
      (ResultRetired \<lparr>rr_boundary_incarnation = 1, rr_native_generation = 1\<rparr>, s)"
    using dx by (cases "bound_retire (d, x)") auto
  have "set (fc_leases fake_client0) = {}" by (simp add: fake_client0_def)
  from bound_receipt_proves_absence [OF fake_client_helper n this bound_history_sample [unfolded dx] s history_refl]
  show ?thesis using s by (simp add: dx)
qed

theorem bound_apply_is_exact_witness:
  "fst bound_applied = Ok () \<and> db_disposition (fst (snd bound_applied)) = BoundaryBusy"
proof -
  obtain r d x where b: "bound_applied = (r, d, x)" by (cases bound_applied)
  have r: "r = Ok ()" using b by (simp add: bound_applied_eq)
  have "db_disposition d = BoundaryBusy"
    using bound_apply_is_exact [OF b [unfolded bound_applied_def]] r by (elim conjE) (drule mp, simp, simp)
  then show ?thesis using r by (simp add: b)
qed

end
