(* ===== verification/Xpc_Boundary.thy ===== *)
theory Xpc_Boundary
  imports Route_Boundary Route_Client_V3 Net_Config_Facts "HOL-Library.Sublist"
begin

section \<open>The route boundary over XPC\<close>

text \<open>
  \<open>networking/route_helper_client.rs\<close>: the version 2 boundary, which replaces the native client after a
  terminal error and reconciles with the helper before it is used again.  The native generations, the
  factory and the clock are one record of operations on a state \<open>'x\<close>; \<open>xp_drop\<close> destroys the current
  generation.  The boundary is owned by one caller, so the counter of calls in flight is the same before
  and after each call.  Durations are natural numbers.
\<close>

subsection \<open>Replies\<close>

datatype RouteHelperCallError = Terminal NetworkErrorCode | LocalError NetworkErrorCode

primrec call_code :: "RouteHelperCallError \<Rightarrow> NetworkErrorCode" where
  "call_code (Terminal e) = e"
| "call_code (LocalError e) = e"

primrec call_terminates_generation :: "RouteHelperCallError \<Rightarrow> bool" where
  "call_terminates_generation (Terminal _) = True"
| "call_terminates_generation (LocalError _) = False"

type_synonym 'a call_result = "(RouteHelperCallError, 'a) result"

record NativeReplyV2 =
  n2_transport_status :: u32
  n2_protocol_version :: u32
  n2_state :: u32
  n2_error_code :: u32

definition decode_v2_state :: "u32 \<Rightarrow> RouteHelperState option" where
  "decode_v2_state s =
     (if s = 0 then Some HelperIdle else if s = 1 then Some HelperPrepared
      else if s = 2 then Some HelperApplied else if s = 3 then Some HelperRollingBack
      else if s = 4 then Some HelperFailedClosed else None)"

definition decode_v2_error :: "u32 \<Rightarrow> NetworkErrorCode option option" where
  "decode_v2_error e =
     (if e = 0 then Some None
      else if e = 1 then Some (Some SidecarUnavailable)
      else if e = 2 then Some (Some InvalidConfiguration)
      else if e = 3 then Some (Some PermissionDenied)
      else if e = 4 then Some (Some RouteJournalUnavailable)
      else if e = 5 then Some (Some PermissionDenied)
      else if e = 6 \<or> e = 7 then Some (Some RouteRollbackFailed)
      else if e = 8 then Some (Some RouteJournalCorrupted)
      else if e = 9 then Some (Some RouteConflict)
      else None)"

definition native_status :: "NativeReplyV2 \<Rightarrow> string option \<Rightarrow> RouteHelperStatus call_result" where
  "native_status reply operation_id =
     (let t = n2_transport_status reply in
      if t = 1 then Err (Terminal OperationTimedOut)
      else if t = 2 \<or> t = 3 \<or> t = 4 \<or> t = 6 then Err (Terminal SidecarUnavailable)
      else if t = 5 then Err (Terminal UnsupportedProtocolVersion)
      else if t = 7 then Err (LocalError InvalidConfiguration)
      else if t \<noteq> 0 then Err (Terminal UnsupportedProtocolVersion)
      else if n2_protocol_version reply \<noteq> ucast ROUTE_HELPER_PROTOCOL_VERSION
      then Err (Terminal UnsupportedProtocolVersion)
      else case decode_v2_state (n2_state reply) of
        None \<Rightarrow> Err (Terminal UnsupportedProtocolVersion)
      | Some state \<Rightarrow>
     (case decode_v2_error (n2_error_code reply) of
        None \<Rightarrow> Err (Terminal UnsupportedProtocolVersion)
      | Some error_code \<Rightarrow>
          let status = \<lparr>hs_protocol_version = ROUTE_HELPER_PROTOCOL_VERSION, hs_state = state,
                        hs_operation_id = operation_id, hs_error_code = error_code\<rparr> in
     (case map_err Terminal (RouteHelperStatus_validate status) of
        Err e \<Rightarrow> Err e
      | Ok _ \<Rightarrow> Ok status)))"

definition is_typed_not_ready :: "RouteHelperStatus \<Rightarrow> bool" where
  "is_typed_not_ready s \<longleftrightarrow>
     hs_protocol_version s = ROUTE_HELPER_PROTOCOL_VERSION \<and> hs_state s = HelperFailedClosed \<and>
     hs_operation_id s = None \<and> hs_error_code s = Some SidecarUnavailable"

definition require_helper_status :: "RouteHelperStatus \<Rightarrow> RouteHelperState \<Rightarrow> unit net_result" where
  "require_helper_status s expected =
     (case hs_error_code s of
        Some error \<Rightarrow> Err error
      | None \<Rightarrow>
          if hs_protocol_version s \<noteq> ROUTE_HELPER_PROTOCOL_VERSION \<or> hs_state s \<noteq> expected
          then Err InvalidStateTransition else Ok ())"

definition require_authoritative_idle :: "RouteHelperStatus \<Rightarrow> unit net_result" where
  "require_authoritative_idle s =
     (if hs_operation_id s \<noteq> None then Err InvalidStateTransition
      else require_helper_status s HelperIdle)"

subsection \<open>Discovery\<close>

record 'x RouteHelperGenerations =
  xp_create :: "'x \<Rightarrow> unit net_result \<times> 'x"
  xp_drop :: "'x \<Rightarrow> 'x"
  xp_discover :: "'x \<Rightarrow> RouteHelperStatus call_result \<times> 'x"
  xp_begin :: "RouteLeaseOwner \<Rightarrow> 'x \<Rightarrow> RouteHelperStatus call_result \<times> 'x"
  xp_recover :: "RouteLeaseOwner \<Rightarrow> 'x \<Rightarrow> RouteHelperStatus call_result \<times> 'x"
  xp_apply :: "RouteLeaseReference \<Rightarrow> 'x \<Rightarrow> RouteHelperStatus call_result \<times> 'x"
  xp_rollback :: "RouteLeaseReference \<Rightarrow> 'x \<Rightarrow> RouteHelperStatus call_result \<times> 'x"
  xp_heartbeat :: "RouteLeaseReference \<Rightarrow> 'x \<Rightarrow> RouteHelperStatus call_result \<times> 'x"
  xt_start :: "nat \<Rightarrow> 'x \<Rightarrow> 'x"
  xt_expired :: "'x \<Rightarrow> bool \<times> 'x"
  xt_wait :: "nat \<Rightarrow> 'x \<Rightarrow> bool \<times> 'x"

text \<open>
  \<open>RouteHelperClient\<close>: the generation on the native bridge, whose functions receive the validated owner or
  reference.  \<open>nb_create\<close> tells whether the bridge returned a client.
\<close>

record 'x NativeV2Bridge =
  nb_create :: "'x \<Rightarrow> bool \<times> 'x"
  nb_destroy :: "'x \<Rightarrow> 'x"
  nb_discover :: "'x \<Rightarrow> NativeReplyV2 \<times> 'x"
  nb_owner :: "u32 \<Rightarrow> RouteLeaseOwner \<Rightarrow> 'x \<Rightarrow> NativeReplyV2 \<times> 'x"
  nb_reference :: "u32 \<Rightarrow> RouteLeaseReference \<Rightarrow> 'x \<Rightarrow> NativeReplyV2 \<times> 'x"

definition RouteHelperClient_connect :: "'x NativeV2Bridge \<Rightarrow> 'x \<Rightarrow> unit net_result \<times> 'x" where
  "RouteHelperClient_connect N x =
     (case nb_create N x of (native, x) \<Rightarrow> if \<not> native then (Err SidecarUnavailable, x) else (Ok (), x))"

definition discover_call :: "'x NativeV2Bridge \<Rightarrow> 'x \<Rightarrow> RouteHelperStatus call_result \<times> 'x" where
  "discover_call N x = (case nb_discover N x of (reply, x) \<Rightarrow> (native_status reply None, x))"

definition owner_request_call ::
  "'x NativeV2Bridge \<Rightarrow> u32 \<Rightarrow> RouteLeaseOwner \<Rightarrow> 'x \<Rightarrow> RouteHelperStatus call_result \<times> 'x" where
  "owner_request_call N method owner x =
     (case map_err LocalError (RouteLeaseOwner_validate owner) of
        Err e \<Rightarrow> (Err e, x)
      | Ok _ \<Rightarrow>
     (case map_err LocalError (collect_results c_string
             ([lo_lease_id owner, lo_operation_id owner, lo_sidecar_instance_id owner,
               tf_interface_name (lo_tunnel owner), tf_operation_id (lo_tunnel owner)] @
              lo_private_cidrs owner @ lo_active_mihomo_tun_interfaces owner)) of
        Err e \<Rightarrow> (Err e, x)
      | Ok _ \<Rightarrow>
     (case nb_owner N method owner x of (reply, x) \<Rightarrow>
        (native_status reply (Some (lo_operation_id owner)), x))))"

definition reference_request_call ::
  "'x NativeV2Bridge \<Rightarrow> u32 \<Rightarrow> RouteLeaseReference \<Rightarrow> 'x \<Rightarrow> RouteHelperStatus call_result \<times> 'x" where
  "reference_request_call N method reference x =
     (case map_err LocalError (RouteLeaseReference_validate reference) of
        Err e \<Rightarrow> (Err e, x)
      | Ok _ \<Rightarrow>
     (case map_err LocalError (collect_results c_string [lr_lease_id reference, lr_operation_id reference]) of
        Err e \<Rightarrow> (Err e, x)
      | Ok _ \<Rightarrow>
     (case nb_reference N method reference x of (reply, x) \<Rightarrow>
        (native_status reply (Some (lr_operation_id reference)), x))))"

definition RouteHelperClient_impl ::
  "'x NativeV2Bridge \<Rightarrow> (nat \<Rightarrow> 'x \<Rightarrow> 'x) \<Rightarrow> ('x \<Rightarrow> bool \<times> 'x) \<Rightarrow> (nat \<Rightarrow> 'x \<Rightarrow> bool \<times> 'x) \<Rightarrow>
     'x RouteHelperGenerations" where
  "RouteHelperClient_impl N start expired wait =
     \<lparr>xp_create = RouteHelperClient_connect N, xp_drop = nb_destroy N, xp_discover = discover_call N,
      xp_begin = owner_request_call N 0, xp_recover = owner_request_call N 1,
      xp_apply = reference_request_call N 0, xp_rollback = reference_request_call N 1,
      xp_heartbeat = reference_request_call N 2,
      xt_start = start, xt_expired = expired, xt_wait = wait\<rparr>"

record DiscoveryPolicy =
  dp_total_timeout :: nat
  dp_initial_backoff :: nat
  dp_maximum_backoff :: nat
  dp_maximum_attempts :: nat

text \<open>The constants of the source, in milliseconds.\<close>

definition DiscoveryPolicy_PRODUCTION :: DiscoveryPolicy where
  "DiscoveryPolicy_PRODUCTION =
     \<lparr>dp_total_timeout = 10000, dp_initial_backoff = 25, dp_maximum_backoff = 200,
      dp_maximum_attempts = 100\<rparr>"

datatype ReconciliationError = Deadline | Call RouteHelperCallError | StatusError NetworkErrorCode

fun reconciliation_code :: "ReconciliationError \<Rightarrow> NetworkErrorCode" where
  "reconciliation_code Deadline = OperationTimedOut"
| "reconciliation_code (Call e) = call_code e"
| "reconciliation_code (StatusError e) = e"

fun reconciliation_terminates_generation :: "ReconciliationError \<Rightarrow> bool" where
  "reconciliation_terminates_generation (Call e) = call_terminates_generation e"
| "reconciliation_terminates_generation _ = False"

text \<open>
  \<open>RouteHelperCallTracker\<close>: a call is refused when the counter would overflow, and the guard restores it.
\<close>

definition tracked ::
  "u64 \<Rightarrow> ('x \<Rightarrow> RouteHelperStatus call_result \<times> 'x) \<Rightarrow> 'x \<Rightarrow> RouteHelperStatus call_result \<times> 'x" where
  "tracked in_flight call x =
     (case checked_add in_flight 1 of
        None \<Rightarrow> (Err (LocalError InvalidStateTransition), x)
      | Some _ \<Rightarrow> call x)"

text \<open>The loop of the discovery, by the number of attempts that are left.\<close>

fun discover_loop ::
  "'x RouteHelperGenerations \<Rightarrow> u64 \<Rightarrow> nat \<Rightarrow> nat \<Rightarrow> nat \<Rightarrow> 'x \<Rightarrow>
     (ReconciliationError, unit) result \<times> 'x" where
  "discover_loop G n maximum_backoff backoff 0 x = (case xt_expired G x of (_, x) \<Rightarrow> (Err Deadline, x))"
| "discover_loop G n maximum_backoff backoff (Suc left) x =
     (case xt_expired G x of (expired, x) \<Rightarrow>
      if expired then (Err Deadline, x)
      else
     (case tracked n (xp_discover G) x of
        (Err e, x) \<Rightarrow> (Err (Call e), x)
      | (Ok status, x) \<Rightarrow>
          if is_typed_not_ready status
          then if left = 0 then (Err Deadline, x)
               else
                 (case xt_wait G backoff x of (go, x) \<Rightarrow>
                    if \<not> go then (Err Deadline, x)
                    else discover_loop G n maximum_backoff (min (2 * backoff) maximum_backoff) left x)
          else
            (case xt_expired G x of (expired, x) \<Rightarrow>
               if expired then (Err Deadline, x)
               else (map_err StatusError (require_authoritative_idle status), x))))"

definition discover_authoritative_idle ::
  "'x RouteHelperGenerations \<Rightarrow> u64 \<Rightarrow> DiscoveryPolicy \<Rightarrow> 'x \<Rightarrow> (ReconciliationError, unit) result \<times> 'x" where
  "discover_authoritative_idle G n policy x =
     discover_loop G n (dp_maximum_backoff policy) (dp_initial_backoff policy) (dp_maximum_attempts policy)
       (xt_start G (dp_total_timeout policy) x)"

subsection \<open>The boundary\<close>

record XpcProductionRouteBoundary =
  xb_client :: bool
  xb_calls :: u64
  xb_native_generation :: u64
  xb_retirement_issuer :: RouteRetirementIssuer
  xb_discovery_policy :: DiscoveryPolicy
  xb_active :: "RouteLeaseReference option"
  xb_active_owner :: "RouteLeaseOwner option"
  xb_recovery_required :: bool
  xb_mutations_blocked :: bool
  xb_reconciliation_error :: "NetworkErrorCode option"
  xb_retired :: bool

definition connect_with_factory ::
  "'x RouteHelperGenerations \<Rightarrow> DiscoveryPolicy \<Rightarrow> u64 \<Rightarrow> 'x \<Rightarrow>
     XpcProductionRouteBoundary net_result \<times> u64 \<times> 'x" where
  "connect_with_factory G policy counter x =
     (case xp_create G x of
        (Err e, x) \<Rightarrow> (Err e, counter, x)
      | (Ok _, x) \<Rightarrow>
     (case discover_authoritative_idle G 0 policy x of
        (Err e, x) \<Rightarrow> (Err (reconciliation_code e), counter, xp_drop G x)
      | (Ok _, x) \<Rightarrow>
     (case RouteRetirementIssuer_allocate counter of
        (Err e, counter) \<Rightarrow> (Err e, counter, xp_drop G x)
      | (Ok issuer, counter) \<Rightarrow>
          (Ok \<lparr>xb_client = True, xb_calls = 0, xb_native_generation = 1, xb_retirement_issuer = issuer,
               xb_discovery_policy = policy, xb_active = None, xb_active_owner = None,
               xb_recovery_required = False, xb_mutations_blocked = False,
               xb_reconciliation_error = None, xb_retired = False\<rparr>, counter, x))))"

definition live_client :: "XpcProductionRouteBoundary \<Rightarrow> unit net_result" where
  "live_client b =
     (if xb_retired b then Err InvalidStateTransition
      else if xb_mutations_blocked b
      then Err (case xb_reconciliation_error b of Some e \<Rightarrow> e | None \<Rightarrow> InvalidStateTransition)
      else if xb_client b then Ok () else Err SidecarUnavailable)"

definition clear_frozen_owner :: "XpcProductionRouteBoundary \<Rightarrow> XpcProductionRouteBoundary" where
  "clear_frozen_owner b =
     b\<lparr>xb_active := None, xb_active_owner := None, xb_recovery_required := False,
       xb_mutations_blocked := False, xb_reconciliation_error := None\<rparr>"

definition freeze_without_replacement ::
  "NetworkErrorCode \<Rightarrow> XpcProductionRouteBoundary \<Rightarrow> NetworkErrorCode \<times> XpcProductionRouteBoundary" where
  "freeze_without_replacement error b =
     (error, b\<lparr>xb_recovery_required := True, xb_mutations_blocked := True,
               xb_reconciliation_error := Some error\<rparr>)"

definition reconcile_terminal_generation ::
  "'x RouteHelperGenerations \<Rightarrow> NetworkErrorCode \<Rightarrow> XpcProductionRouteBoundary \<Rightarrow> 'x \<Rightarrow>
     NetworkErrorCode \<times> XpcProductionRouteBoundary \<times> 'x" where
  "reconcile_terminal_generation G primary b x =
     (let b = b\<lparr>xb_recovery_required := True, xb_mutations_blocked := True,
                xb_reconciliation_error := Some primary\<rparr>;
          x = (if xb_client b then xp_drop G x else x);
          b = b\<lparr>xb_client := False\<rparr> in
      case xp_create G x of
        (Err error, x) \<Rightarrow> (primary, b\<lparr>xb_reconciliation_error := Some error\<rparr>, x)
      | (Ok _, x) \<Rightarrow>
     (case checked_add (xb_native_generation b) 1 of
        None \<Rightarrow> (primary, b\<lparr>xb_reconciliation_error := Some InvalidStateTransition\<rparr>, xp_drop G x)
      | Some native_generation \<Rightarrow>
          let b = b\<lparr>xb_native_generation := native_generation, xb_client := True\<rparr> in
     (case discover_authoritative_idle G (xb_calls b) (xb_discovery_policy b) x of
        (Ok _, x) \<Rightarrow> (primary, clear_frozen_owner b, x)
      | (Err error, x) \<Rightarrow>
          let b = b\<lparr>xb_reconciliation_error := Some (reconciliation_code error)\<rparr> in
          if reconciliation_terminates_generation error
          then (primary, b\<lparr>xb_client := False\<rparr>, xp_drop G x)
          else (primary, b, x))))"

definition handle_call_error ::
  "'x RouteHelperGenerations \<Rightarrow> RouteHelperCallError \<Rightarrow> XpcProductionRouteBoundary \<Rightarrow> 'x \<Rightarrow>
     NetworkErrorCode \<times> XpcProductionRouteBoundary \<times> 'x" where
  "handle_call_error G error b x =
     (if call_terminates_generation error then reconcile_terminal_generation G (call_code error) b x
      else (call_code error, b, x))"

definition rollback_after_helper_error ::
  "'x RouteHelperGenerations \<Rightarrow> RouteLeaseReference \<Rightarrow> NetworkErrorCode \<Rightarrow>
     XpcProductionRouteBoundary \<Rightarrow> 'x \<Rightarrow> NetworkErrorCode \<times> XpcProductionRouteBoundary \<times> 'x" where
  "rollback_after_helper_error G reference primary b x =
     (case live_client b of
        Err error \<Rightarrow>
          (primary, b\<lparr>xb_recovery_required := True, xb_reconciliation_error := Some error\<rparr>, x)
      | Ok _ \<Rightarrow>
     (case tracked (xb_calls b) (xp_rollback G reference) x of
        (Ok status, x) \<Rightarrow>
          if is_typed_not_ready status
          then (primary, snd (freeze_without_replacement SidecarUnavailable b), x)
          else
            (case require_helper_status status HelperIdle of
               Ok _ \<Rightarrow> (primary, clear_frozen_owner b, x)
             | Err error \<Rightarrow>
                 (primary, b\<lparr>xb_recovery_required := True, xb_reconciliation_error := Some error\<rparr>, x))
      | (Err error, x) \<Rightarrow>
          if call_terminates_generation error
          then case reconcile_terminal_generation G primary b x of (_, b, x) \<Rightarrow> (primary, b, x)
          else (primary, b, x)))"

definition recover_active ::
  "'x RouteHelperGenerations \<Rightarrow> XpcProductionRouteBoundary \<Rightarrow> 'x \<Rightarrow>
     RouteHelperState net_result \<times> XpcProductionRouteBoundary \<times> 'x" where
  "recover_active G b x =
     (case ok_or (xb_active_owner b) InvalidStateTransition of
        Err e \<Rightarrow> (Err e, b, x)
      | Ok owner \<Rightarrow>
     (case live_client b of
        Err e \<Rightarrow> (Err e, b, x)
      | Ok _ \<Rightarrow>
     (case tracked (xb_calls b) (xp_recover G owner) x of
        (Err error, x) \<Rightarrow> (case handle_call_error G error b x of (e, b, x) \<Rightarrow> (Err e, b, x))
      | (Ok recovered, x) \<Rightarrow>
          if is_typed_not_ready recovered
          then (case freeze_without_replacement SidecarUnavailable b of (e, b) \<Rightarrow> (Err e, b, x))
          else
            (case hs_error_code recovered of
               Some error \<Rightarrow> (Err error, b, x)
             | None \<Rightarrow>
                 if hs_state recovered = HelperPrepared \<or> hs_state recovered = HelperApplied
                 then (Ok (hs_state recovered), b\<lparr>xb_recovery_required := False\<rparr>, x)
                 else (Err InvalidStateTransition, b, x)))))"

definition xb_disposition :: "XpcProductionRouteBoundary \<Rightarrow> ProductionRouteDisposition" where
  "xb_disposition b =
     (if xb_retired b then BoundaryRetired
      else if xb_calls b \<noteq> 0 then BoundaryBusy
      else if xb_recovery_required b \<or> xb_mutations_blocked b \<or> xb_reconciliation_error b \<noteq> None \<or>
              \<not> xb_client b
      then BoundaryRecoveryOnly
      else case (xb_active b, xb_active_owner b) of
             (None, None) \<Rightarrow> BoundaryReusable
           | (Some _, Some _) \<Rightarrow> BoundaryBusy
           | _ \<Rightarrow> BoundaryRecoveryOnly)"

definition xb_try_retire ::
  "'x RouteHelperGenerations \<Rightarrow> XpcProductionRouteBoundary \<Rightarrow> 'x \<Rightarrow>
     ProductionRouteRetirementResult \<times> XpcProductionRouteBoundary \<times> 'x" where
  "xb_try_retire G b x =
     (case xb_disposition b of
        BoundaryBusy \<Rightarrow> (ResultBusy, b, x)
      | BoundaryRecoveryOnly \<Rightarrow> (ResultRecoveryOnly, b, x)
      | BoundaryRetired \<Rightarrow> (ResultAlreadyRetired, b, x)
      | BoundaryReusable \<Rightarrow>
          if \<not> xb_client b then (ResultRecoveryOnly, b, x)
          else (ResultRetired (ProductionRouteRetirementReceipt_issued (xb_retirement_issuer b)
                  (xb_native_generation b)),
                b\<lparr>xb_client := False, xb_retired := True\<rparr>, xp_drop G x))"

text \<open>\<open>apply\<close>: the owner and its reference, the begin of a fresh lease, and the call that applies it.\<close>

definition xpc_owner ::
  "NetworkProfile \<Rightarrow> string \<Rightarrow> TunnelDeviceFacts \<Rightarrow> u64 \<Rightarrow> MihomoTunSnapshot \<Rightarrow> RouteLeaseOwner" where
  "xpc_owner profile operation_id tunnel profile_revision mihomo =
     \<lparr>lo_protocol_version = ROUTE_HELPER_PROTOCOL_VERSION, lo_lease_id = operation_id,
      lo_operation_id = operation_id, lo_sidecar_instance_id = tf_instance_id tunnel,
      lo_profile_revision = profile_revision, lo_tunnel = tunnel,
      lo_active_mihomo_tun_interfaces = mt_active_mihomo_tun_interfaces mihomo,
      lo_private_cidrs = site_private_cidrs (pr_site profile)\<rparr>"

definition xpc_reference :: "RouteLeaseOwner \<Rightarrow> RouteLeaseReference" where
  "xpc_reference owner =
     \<lparr>lr_protocol_version = ROUTE_HELPER_PROTOCOL_VERSION, lr_lease_id = lo_lease_id owner,
      lr_operation_id = lo_operation_id owner\<rparr>"

definition xb_frozen ::
  "XpcProductionRouteBoundary \<Rightarrow> 'x \<Rightarrow> unit net_result \<times> XpcProductionRouteBoundary \<times> 'x" where
  "xb_frozen b x = (case freeze_without_replacement SidecarUnavailable b of (e, b) \<Rightarrow> (Err e, b, x))"

definition xb_failed ::
  "NetworkErrorCode \<times> XpcProductionRouteBoundary \<times> 'x \<Rightarrow>
     unit net_result \<times> XpcProductionRouteBoundary \<times> 'x" where
  "xb_failed r = (case r of (e, b, x) \<Rightarrow> (Err e, b, x))"

definition xb_apply_reference ::
  "'x RouteHelperGenerations \<Rightarrow> RouteLeaseReference \<Rightarrow> XpcProductionRouteBoundary \<Rightarrow> 'x \<Rightarrow>
     unit net_result \<times> XpcProductionRouteBoundary \<times> 'x" where
  "xb_apply_reference G reference b x =
     (case live_client b of
        Err e \<Rightarrow> (Err e, b, x)
      | Ok _ \<Rightarrow>
     (case tracked (xb_calls b) (xp_apply G reference) x of
        (Err error, x) \<Rightarrow> xb_failed (handle_call_error G error b x)
      | (Ok applied, x) \<Rightarrow>
          if is_typed_not_ready applied then xb_frozen b x
          else
            (case require_helper_status applied HelperApplied of
               Err error \<Rightarrow> xb_failed (rollback_after_helper_error G reference error b x)
             | Ok _ \<Rightarrow> (Ok (), b, x))))"

definition xb_begin ::
  "'x RouteHelperGenerations \<Rightarrow> RouteLeaseOwner \<Rightarrow> RouteLeaseReference \<Rightarrow> XpcProductionRouteBoundary \<Rightarrow> 'x \<Rightarrow>
     unit net_result \<times> XpcProductionRouteBoundary \<times> 'x" where
  "xb_begin G owner reference b x =
     (if xb_active b \<noteq> None \<or> xb_active_owner b \<noteq> None then (Err InvalidStateTransition, b, x)
      else
        let b = b\<lparr>xb_active := Some reference, xb_active_owner := Some owner\<rparr> in
     (case live_client b of
        Err e \<Rightarrow> (Err e, b, x)
      | Ok _ \<Rightarrow>
     (case tracked (xb_calls b) (xp_begin G owner) x of
        (Err (LocalError error), x) \<Rightarrow>
          (Err error, b\<lparr>xb_active := None, xb_active_owner := None\<rparr>, x)
      | (Err (Terminal error), x) \<Rightarrow> xb_failed (handle_call_error G (Terminal error) b x)
      | (Ok begun, x) \<Rightarrow>
          if is_typed_not_ready begun then xb_frozen b x
          else
            (case require_helper_status begun HelperPrepared of
               Err error \<Rightarrow> xb_failed (rollback_after_helper_error G reference error b x)
             | Ok _ \<Rightarrow> (Ok (), b, x)))))"

definition xb_apply ::
  "'x RouteHelperGenerations \<Rightarrow> NetworkProfile \<Rightarrow> string \<Rightarrow> TunnelDeviceFacts \<Rightarrow> u64 \<Rightarrow> MihomoTunSnapshot \<Rightarrow>
     XpcProductionRouteBoundary \<Rightarrow> 'x \<Rightarrow> unit net_result \<times> XpcProductionRouteBoundary \<times> 'x" where
  "xb_apply G profile operation_id tunnel profile_revision mihomo b x =
     (case live_client b of
        Err e \<Rightarrow> (Err e, b, x)
      | Ok _ \<Rightarrow>
        let owner = xpc_owner profile operation_id tunnel profile_revision mihomo in
     (case MihomoTunSnapshot_validate_for (tf_interface_name tunnel) mihomo of
        Err e \<Rightarrow> (Err e, b, x)
      | Ok _ \<Rightarrow>
     (case RouteLeaseOwner_validate owner of
        Err e \<Rightarrow> (Err e, b, x)
      | Ok _ \<Rightarrow>
        let reference = xpc_reference owner in
        if xb_recovery_required b
        then
          if xb_active b \<noteq> Some reference \<or> xb_active_owner b \<noteq> Some owner
          then (Err InvalidStateTransition, b, x)
          else
            (case recover_active G b x of
               (Err e, b, x) \<Rightarrow> (Err e, b, x)
             | (Ok state, b, x) \<Rightarrow>
                 if state = HelperApplied then (Ok (), b, x)
                 else if state = HelperPrepared then xb_apply_reference G reference b x
                 else (Err InvalidStateTransition, b, x))
        else
          (case xb_begin G owner reference b x of
             (Err e, b, x) \<Rightarrow> (Err e, b, x)
           | (Ok _, b, x) \<Rightarrow> xb_apply_reference G reference b x))))"

text \<open>\<open>heartbeat\<close> and \<open>rollback\<close> recover the frozen owner first when that is required.\<close>

definition xb_heartbeat_call ::
  "'x RouteHelperGenerations \<Rightarrow> string \<Rightarrow> XpcProductionRouteBoundary \<Rightarrow> 'x \<Rightarrow>
     unit net_result \<times> XpcProductionRouteBoundary \<times> 'x" where
  "xb_heartbeat_call G operation_id b x =
     (case (case xb_active b of
              Some reference \<Rightarrow> if lr_operation_id reference = operation_id then Some reference else None
            | None \<Rightarrow> None) of
        None \<Rightarrow> (Err InvalidStateTransition, b, x)
      | Some reference \<Rightarrow>
     (case live_client b of
        Err e \<Rightarrow> (Err e, b, x)
      | Ok _ \<Rightarrow>
     (case tracked (xb_calls b) (xp_heartbeat G reference) x of
        (Err error, x) \<Rightarrow> xb_failed (handle_call_error G error b x)
      | (Ok status, x) \<Rightarrow>
          if is_typed_not_ready status then xb_frozen b x
          else
            (case require_helper_status status HelperApplied of
               Err error \<Rightarrow> (Err error, b\<lparr>xb_recovery_required := True\<rparr>, x)
             | Ok _ \<Rightarrow> (Ok (), b, x)))))"

definition xb_heartbeat ::
  "'x RouteHelperGenerations \<Rightarrow> string \<Rightarrow> XpcProductionRouteBoundary \<Rightarrow> 'x \<Rightarrow>
     unit net_result \<times> XpcProductionRouteBoundary \<times> 'x" where
  "xb_heartbeat G operation_id b x =
     (case live_client b of
        Err e \<Rightarrow> (Err e, b, x)
      | Ok _ \<Rightarrow>
        if xb_recovery_required b
        then
          (case recover_active G b x of
             (Err e, b, x) \<Rightarrow> (Err e, b, x)
           | (Ok state, b, x) \<Rightarrow>
               if state = HelperApplied then xb_heartbeat_call G operation_id b x
               else (Err InvalidStateTransition, b, x))
        else xb_heartbeat_call G operation_id b x)"

definition xb_rollback_call ::
  "'x RouteHelperGenerations \<Rightarrow> RouteLeaseReference \<Rightarrow> XpcProductionRouteBoundary \<Rightarrow> 'x \<Rightarrow>
     unit net_result \<times> XpcProductionRouteBoundary \<times> 'x" where
  "xb_rollback_call G reference b x =
     (case live_client b of
        Err e \<Rightarrow> (Err e, b, x)
      | Ok _ \<Rightarrow>
     (case tracked (xb_calls b) (xp_rollback G reference) x of
        (Err error, x) \<Rightarrow> xb_failed (handle_call_error G error b x)
      | (Ok status, x) \<Rightarrow>
          if is_typed_not_ready status then xb_frozen b x
          else
            (case require_helper_status status HelperIdle of
               Err error \<Rightarrow> (Err error, b\<lparr>xb_recovery_required := True\<rparr>, x)
             | Ok _ \<Rightarrow> (Ok (), b\<lparr>xb_active := None, xb_active_owner := None,
                            xb_recovery_required := False\<rparr>, x))))"

definition xb_rollback ::
  "'x RouteHelperGenerations \<Rightarrow> string \<Rightarrow> XpcProductionRouteBoundary \<Rightarrow> 'x \<Rightarrow>
     unit net_result \<times> XpcProductionRouteBoundary \<times> 'x" where
  "xb_rollback G operation_id b x =
     (case live_client b of
        Err e \<Rightarrow> (Err e, b, x)
      | Ok _ \<Rightarrow>
     (case xb_active b of
        None \<Rightarrow> (Ok (), b, x)
      | Some reference \<Rightarrow>
          if lr_operation_id reference \<noteq> operation_id then (Err InvalidStateTransition, b, x)
          else if xb_recovery_required b
          then
            (case recover_active G b x of
               (Err e, b, x) \<Rightarrow> (Err e, b, x)
             | (Ok _, b, x) \<Rightarrow> xb_rollback_call G reference b x)
          else xb_rollback_call G reference b x))"

definition xb_drop :: "'x RouteHelperGenerations \<Rightarrow> XpcProductionRouteBoundary \<Rightarrow> 'x \<Rightarrow> 'x" where
  "xb_drop G b x =
     (let x = (if \<not> xb_mutations_blocked b \<and> \<not> xb_retired b \<and> xb_client b
               then case xb_active b of
                      Some reference \<Rightarrow> snd (tracked (xb_calls b) (xp_rollback G reference) x)
                    | None \<Rightarrow> x
               else x)
      in if xb_client b then xp_drop G x else x)"

subsection \<open>No lease is forgotten\<close>

text \<open>
  What the helper and its transport promise.  Only \<open>begin\<close> and \<open>apply\<close> can leave a lease, the one they
  name, and a call that fails locally has sent nothing.  A rollback that answers with an idle helper has
  removed the lease it names, and a discovery that answers idle, without an operation and without an
  error, says that the helper has no lease left.  The clock touches no lease.
\<close>

locale xpc_helper =
  fixes G :: "'x RouteHelperGenerations" and leases :: "'x \<Rightarrow> RouteLeaseReference set"
  assumes create_leases: "leases (snd (xp_create G x)) \<subseteq> leases x"
    and drop_leases: "leases (xp_drop G x) \<subseteq> leases x"
    and discover_leases: "leases (snd (xp_discover G x)) \<subseteq> leases x"
    and discover_idle: "fst (xp_discover G x) = Ok st \<Longrightarrow> require_authoritative_idle st = Ok () \<Longrightarrow>
      leases (snd (xp_discover G x)) = {}"
    and begin_leases: "leases (snd (xp_begin G w x)) \<subseteq> insert (xpc_reference w) (leases x)"
    and begin_local: "fst (xp_begin G w x) = Err (LocalError e) \<Longrightarrow> leases (snd (xp_begin G w x)) \<subseteq> leases x"
    and recover_leases: "leases (snd (xp_recover G w x)) \<subseteq> leases x"
    and apply_leases: "leases (snd (xp_apply G f x)) \<subseteq> insert f (leases x)"
    and heartbeat_leases: "leases (snd (xp_heartbeat G f x)) \<subseteq> leases x"
    and rollback_leases: "leases (snd (xp_rollback G f x)) \<subseteq> leases x"
    and rollback_idle: "fst (xp_rollback G f x) = Ok st \<Longrightarrow> require_helper_status st HelperIdle = Ok () \<Longrightarrow>
      f \<notin> leases (snd (xp_rollback G f x))"
    and timer_leases: "leases (xt_start G n x) = leases x" "leases (snd (xt_expired G x)) = leases x"
      "leases (snd (xt_wait G n x)) = leases x"

text \<open>The boundary knows every lease the helper may have.\<close>

definition xpc_accounted ::
  "('x \<Rightarrow> RouteLeaseReference set) \<Rightarrow> XpcProductionRouteBoundary \<times> 'x \<Rightarrow> bool" where
  "xpc_accounted leases s \<longleftrightarrow>
     xb_active (fst s) = map_option xpc_reference (xb_active_owner (fst s)) \<and>
     leases (snd s) \<subseteq> set_option (xb_active (fst s))"

inductive xpc_move ::
  "'x RouteHelperGenerations \<Rightarrow> XpcProductionRouteBoundary \<times> 'x \<Rightarrow> XpcProductionRouteBoundary \<times> 'x \<Rightarrow> bool"
  for G where
  xpc_move_apply: "xpc_move G (b, x) (snd (xb_apply G profile op tunnel revision mihomo b x))"
| xpc_move_heartbeat: "xpc_move G (b, x) (snd (xb_heartbeat G op b x))"
| xpc_move_rollback: "xpc_move G (b, x) (snd (xb_rollback G op b x))"

definition xpc_retire ::
  "'x RouteHelperGenerations \<Rightarrow> XpcProductionRouteBoundary \<times> 'x \<Rightarrow>
     ProductionRouteRetirementResult \<times> XpcProductionRouteBoundary \<times> 'x" where
  "xpc_retire G s = xb_try_retire G (fst s) (snd s)"

lemma accounted_fields [simp]:
  "xpc_accounted leases (b\<lparr>xb_recovery_required := r\<rparr>, x) = xpc_accounted leases (b, x)"
  "xpc_accounted leases (b\<lparr>xb_mutations_blocked := r\<rparr>, x) = xpc_accounted leases (b, x)"
  "xpc_accounted leases (b\<lparr>xb_reconciliation_error := e\<rparr>, x) = xpc_accounted leases (b, x)"
  "xpc_accounted leases (b\<lparr>xb_client := r\<rparr>, x) = xpc_accounted leases (b, x)"
  "xpc_accounted leases (b\<lparr>xb_native_generation := n\<rparr>, x) = xpc_accounted leases (b, x)"
  "xpc_accounted leases (b\<lparr>xb_retired := r\<rparr>, x) = xpc_accounted leases (b, x)"
  by (simp_all add: xpc_accounted_def)

lemma accounted_less: "xpc_accounted leases (b, x) \<Longrightarrow> leases y \<subseteq> leases x \<Longrightarrow> xpc_accounted leases (b, y)"
  unfolding xpc_accounted_def fst_conv snd_conv by (blast intro: order_trans)

lemma accounted_named:
  assumes "xpc_accounted leases (b, x)" and "xb_active b = Some f" and "leases y \<subseteq> insert f (leases x)"
  shows "xpc_accounted leases (b, y)"
proof -
  have "leases x \<subseteq> {f}" using assms(1,2) by (simp add: xpc_accounted_def)
  then have "leases y \<subseteq> {f}" using assms(3) by blast
  then have "leases y \<subseteq> set_option (xb_active b)" using assms(2) by simp
  then show ?thesis using assms(1) by (simp only: xpc_accounted_def fst_conv snd_conv simp_thms)
qed

lemma accounted_cleared: "leases x = {} \<Longrightarrow> xpc_accounted leases (clear_frozen_owner b, x)"
  by (simp add: xpc_accounted_def clear_frozen_owner_def)

lemma accounted_frozen: "xpc_accounted leases (snd (xb_frozen b x)) = xpc_accounted leases (b, x)"
  by (simp add: xb_frozen_def freeze_without_replacement_def)

lemma not_ok_failed [simp]: "\<not> is_ok (fst (xb_failed r))" "\<not> is_ok (fst (xb_frozen b x))"
  by (simp_all add: xb_failed_def xb_frozen_def freeze_without_replacement_def split: prod.splits)

lemma snd_failed [simp]: "snd (xb_failed r) = snd r"
  by (simp add: xb_failed_def split: prod.splits)

context xpc_helper
begin

lemma tracked_leases:
  assumes "\<And>x. leases (snd (call x)) \<subseteq> L x" and "leases x \<subseteq> L x"
  shows "leases (snd (tracked n call x)) \<subseteq> L x"
  using assms by (simp add: tracked_def split: option.splits)

lemma tracked_Ok: "tracked n call x = (Ok st, y) \<Longrightarrow> call x = (Ok st, y)"
  by (simp add: tracked_def split: option.splits)

lemma timer_step:
  "xt_expired G x = (t, y) \<Longrightarrow> leases y = leases x" "xt_wait G n x = (t, y) \<Longrightarrow> leases y = leases x"
  using timer_leases(2) [of x] timer_leases(3) [of n x] by simp_all

lemma discover_step:
  assumes "tracked n (xp_discover G) x = (r, y)"
  shows "leases y \<subseteq> leases x" "r = Ok st \<Longrightarrow> require_authoritative_idle st = Ok () \<Longrightarrow> leases y = {}"
proof -
  show "leases y \<subseteq> leases x"
    using tracked_leases [of "xp_discover G" leases x n] discover_leases assms by auto
  show "leases y = {}" if "r = Ok st" "require_authoritative_idle st = Ok ()"
    using discover_idle [of x st] that tracked_Ok [of n "xp_discover G" x st y] assms by simp
qed

lemma discover_loop_leases:
  assumes "discover_loop G n mb bo left x = (r, y)"
  shows "leases y \<subseteq> leases x \<and> (r = Ok () \<longrightarrow> leases y = {})"
  using assms
proof (induction left arbitrary: bo x)
  case 0
  then show ?case by (auto split: prod.splits dest: timer_step)
next
  case (Suc left)
  from Suc.prems obtain ex x1 where e: "xt_expired G x = (ex, x1)" by fastforce
  obtain q x2 where d: "tracked n (xp_discover G) x1 = (q, x2)" by fastforce
  obtain go x3 where w: "xt_wait G bo x2 = (go, x3)" by fastforce
  obtain ex' x4 where e': "xt_expired G x2 = (ex', x4)" by fastforce
  have l: "leases x1 = leases x" "leases x2 \<subseteq> leases x" "leases x3 = leases x2" "leases x4 = leases x2"
    using timer_step(1) [OF e] timer_step(2) [OF w] timer_step(1) [OF e'] discover_step(1) [OF d] by simp_all
  note step = Suc.prems [unfolded discover_loop.simps e prod.case d]
  show ?case
  proof (cases "ex \<or> \<not> is_ok q")
    case True
    then show ?thesis using step l by (cases ex; cases q) auto
  next
    case False
    then obtain st where q: "q = Ok st" by (auto simp: is_ok_iff)
    show ?thesis
    proof (cases "is_typed_not_ready st \<and> left \<noteq> 0 \<and> go")
      case True
      then have "discover_loop G n mb (min (2 * bo) mb) left x3 = (r, y)"
        using step False q w by simp
      from Suc.IH [OF this] l show ?thesis by auto
    next
      case other: False
      show ?thesis
      proof (cases "is_typed_not_ready st \<or> ex'")
        case True
        then show ?thesis using step False q w e' other l by (cases "is_typed_not_ready st"; cases "left = 0") auto
      next
        case fin: False
        then have r: "map_err StatusError (require_authoritative_idle st) = r" "y = x4"
          using step False q e' by simp_all
        have "leases x2 = {}" if "r = Ok ()"
          using discover_step(2) [OF d q] r(1) that
          by (cases "require_authoritative_idle st") (simp_all add: result_simps)
        then show ?thesis using l r(2) by simp
      qed
    qed
  qed
qed

lemma discovery_leases:
  "leases (snd (discover_authoritative_idle G n p x)) \<subseteq> leases x"
  "fst (discover_authoritative_idle G n p x) = Ok () \<Longrightarrow> leases (snd (discover_authoritative_idle G n p x)) = {}"
  using discover_loop_leases [OF prod.collapse [symmetric], of n "dp_maximum_backoff p" "dp_initial_backoff p"
      "dp_maximum_attempts p" "xt_start G (dp_total_timeout p) x"] timer_leases(1)
  by (simp_all add: discover_authoritative_idle_def)

lemma reconcile_accounted:
  assumes "xpc_accounted leases (b, x)"
  shows "xpc_accounted leases (snd (reconcile_terminal_generation G e b x))"
proof -
  let ?b = "b\<lparr>xb_recovery_required := True, xb_mutations_blocked := True,
    xb_reconciliation_error := Some e\<rparr>"
  let ?x = "if xb_client b then xp_drop G x else x"
  obtain r x1 where c: "xp_create G ?x = (r, x1)" by fastforce
  have "leases ?x \<subseteq> leases x" using drop_leases by simp
  then have l1: "leases x1 \<subseteq> leases x" using create_leases [of ?x] c by auto
  obtain q x2 where d: "discover_authoritative_idle G (xb_calls b) (xb_discovery_policy b) x1 = (q, x2)"
    by fastforce
  have l2: "leases x2 \<subseteq> leases x" using discovery_leases(1) [of "xb_calls b" "xb_discovery_policy b" x1] d l1 by auto
  have idle: "leases x2 = {}" if "q = Ok ()"
    using discovery_leases(2) [of "xb_calls b" "xb_discovery_policy b" x1] d that by simp
  have a: "xpc_accounted leases (b, y)" if "leases y \<subseteq> leases x" for y
    using accounted_less [OF assms that] .
  have dr: "leases (xp_drop G y) \<subseteq> leases x" if "leases y \<subseteq> leases x" for y
    using drop_leases that by blast
  show ?thesis
    using c d l1 l2 idle
    by (auto simp: reconcile_terminal_generation_def Let_def a dr accounted_cleared
        split: result.split option.split)
qed

lemma handle_accounted:
  "xpc_accounted leases (b, x) \<Longrightarrow> xpc_accounted leases (snd (handle_call_error G e b x))"
  using reconcile_accounted by (simp add: handle_call_error_def)

end

context xpc_helper
begin

lemma rollback_call_leases:
  assumes "tracked n (xp_rollback G f) x = (r, y)"
  shows "leases y \<subseteq> leases x \<and>
    (\<forall>st. r = Ok st \<longrightarrow> require_helper_status st HelperIdle = Ok () \<longrightarrow> f \<notin> leases y)"
proof
  show "leases y \<subseteq> leases x"
    using tracked_leases [of "xp_rollback G f" leases x n] rollback_leases assms by auto
  show "\<forall>st. r = Ok st \<longrightarrow> require_helper_status st HelperIdle = Ok () \<longrightarrow> f \<notin> leases y"
    using tracked_Ok [of n "xp_rollback G f" x] rollback_idle [of f x] assms by fastforce
qed

lemma rolled_back_accounted:
  assumes "xpc_accounted leases (b, x)" and "xb_active b = Some f" and "leases y \<subseteq> leases x" and "f \<notin> leases y"
  shows "leases y = {}"
proof -
  have "leases y \<subseteq> {f}" using assms(1-3) unfolding xpc_accounted_def fst_conv snd_conv by simp blast
  then show ?thesis using assms(4) by blast
qed

lemma after_error_accounted:
  assumes "xpc_accounted leases (b, x)" and "xb_active b = Some f"
  shows "xpc_accounted leases (snd (rollback_after_helper_error G f e b x))"
proof (cases "live_client b")
  case (Err e')
  then show ?thesis using assms by (simp add: rollback_after_helper_error_def)
next
  case live: (Ok u)
  obtain r y where c: "tracked (xb_calls b) (xp_rollback G f) x = (r, y)" by fastforce
  note l = rollback_call_leases [OF c]
  have a: "xpc_accounted leases (b, y)" using accounted_less [OF assms(1) conjunct1 [OF l]] .
  show ?thesis
  proof (cases r)
    case (Err e')
    have "snd (rollback_after_helper_error G f e b x) =
        (if call_terminates_generation e' then snd (reconcile_terminal_generation G e b y) else (b, y))"
      by (simp add: rollback_after_helper_error_def live c Err split: prod.split)
    then show ?thesis using a reconcile_accounted [OF a, of e] by simp
  next
    case (Ok st)
    have "leases y = {}" if "require_helper_status st HelperIdle = Ok ()"
      using rolled_back_accounted [OF assms conjunct1 [OF l]] conjunct2 [OF l] Ok that by simp
    moreover have "snd (rollback_after_helper_error G f e b x) =
        (if is_typed_not_ready st then (snd (freeze_without_replacement SidecarUnavailable b), y)
         else case require_helper_status st HelperIdle of
                Ok _ \<Rightarrow> (clear_frozen_owner b, y)
              | Err e' \<Rightarrow> (b\<lparr>xb_recovery_required := True, xb_reconciliation_error := Some e'\<rparr>, y))"
      by (simp add: rollback_after_helper_error_def live c Ok split: result.split)
    ultimately show ?thesis
      using a by (simp add: freeze_without_replacement_def accounted_cleared split: result.split)
  qed
qed

lemma recover_accounted:
  assumes "xpc_accounted leases (b, x)" and "recover_active G b x = (r, b', x')"
  shows "xpc_accounted leases (b', x') \<and> (is_ok r \<longrightarrow> xb_active b' = xb_active b)"
  using assms(2) unfolding recover_active_def
proof (elim case_resultE case_runE, goal_cases)
  case (3 owner u e y)
  then have "leases y \<subseteq> leases x"
    using tracked_leases [of "xp_recover G owner" leases x "xb_calls b"] recover_leases by auto
  from handle_accounted [OF accounted_less [OF assms(1) this], of e] 3(4) show ?case
    by (auto split: prod.splits)
next
  case (4 owner u st y)
  then have "leases y \<subseteq> leases x"
    using tracked_leases [of "xp_recover G owner" leases x "xb_calls b"] recover_leases by auto
  from accounted_less [OF assms(1) this] 4(4) show ?case
    by (auto simp: freeze_without_replacement_def split: if_splits option.splits)
qed (use assms(1) in auto)

lemma apply_reference_accounted:
  assumes "xpc_accounted leases (b, x)" and "xb_active b = Some f"
  shows "xpc_accounted leases (snd (xb_apply_reference G f b x))"
proof (cases "live_client b")
  case (Err e)
  then show ?thesis using assms by (simp add: xb_apply_reference_def)
next
  case live: (Ok u)
  obtain r y where c: "tracked (xb_calls b) (xp_apply G f) x = (r, y)" by fastforce
  have "leases (snd (tracked (xb_calls b) (xp_apply G f) x)) \<subseteq> insert f (leases x)"
    by (rule tracked_leases [where L = "\<lambda>x. insert f (leases x)"]) (rule apply_leases subset_insertI)+
  then have a: "xpc_accounted leases (b, y)" using accounted_named [OF assms] c by simp
  show ?thesis
  proof (cases r)
    case (Err e)
    then show ?thesis using handle_accounted [OF a, of e] by (simp add: xb_apply_reference_def live c)
  next
    case (Ok st)
    then have "snd (xb_apply_reference G f b x) =
        (if is_typed_not_ready st then snd (xb_frozen b y)
         else case require_helper_status st HelperApplied of
                Err e \<Rightarrow> snd (rollback_after_helper_error G f e b y) | Ok _ \<Rightarrow> (b, y))"
      by (simp add: xb_apply_reference_def live c split: result.split)
    then show ?thesis
      using a after_error_accounted [OF a assms(2)] by (simp add: accounted_frozen split: result.split)
  qed
qed

lemma begin_accounted:
  assumes "xpc_accounted leases (b, x)"
  shows "xpc_accounted leases (snd (xb_begin G w (xpc_reference w) b x)) \<and>
    (is_ok (fst (xb_begin G w (xpc_reference w) b x)) \<longrightarrow>
       xb_active (fst (snd (xb_begin G w (xpc_reference w) b x))) = Some (xpc_reference w))"
proof (cases "xb_active b \<noteq> None \<or> xb_active_owner b \<noteq> None")
  case True
  then show ?thesis using assms by (simp add: xb_begin_def)
next
  case False
  let ?b = "b\<lparr>xb_active := Some (xpc_reference w), xb_active_owner := Some w\<rparr>"
  have none: "leases x = {}" using assms False by (auto simp: xpc_accounted_def)
  obtain r y where c: "tracked (xb_calls b) (xp_begin G w) x = (r, y)" by fastforce
  have "leases (snd (tracked (xb_calls b) (xp_begin G w) x)) \<subseteq> insert (xpc_reference w) (leases x)"
    by (rule tracked_leases [where L = "\<lambda>x. insert (xpc_reference w) (leases x)"]) (rule begin_leases subset_insertI)+
  then have "leases y \<subseteq> {xpc_reference w}" using c none by simp
  then have a: "xpc_accounted leases (?b, y)" by (simp add: xpc_accounted_def)
  have a0: "xpc_accounted leases (?b, x)" using none by (simp add: xpc_accounted_def)
  have loc: "leases y = {}" if "r = Err (LocalError e)" for e
    using c that none begin_local [of w x e] by (auto simp: tracked_def split: option.splits)
  have act: "xb_active ?b = Some (xpc_reference w)" by simp
  have n: "xpc_accounted leases (b\<lparr>xb_active := None, xb_active_owner := None\<rparr>, y)" if "leases y = {}"
    using that by (simp add: xpc_accounted_def)
  show ?thesis
  proof (cases "live_client ?b")
    case (Err e)
    then show ?thesis using False a0 by (simp add: xb_begin_def Let_def)
  next
    case (Ok u)
    then have step: "xb_begin G w (xpc_reference w) b x =
      (case r of
         Err (LocalError e) \<Rightarrow> (Err e, ?b\<lparr>xb_active := None, xb_active_owner := None\<rparr>, y)
       | Err (Terminal e) \<Rightarrow> xb_failed (handle_call_error G (Terminal e) ?b y)
       | Ok st \<Rightarrow>
           if is_typed_not_ready st then xb_frozen ?b y
           else (case require_helper_status st HelperPrepared of
                   Err e \<Rightarrow> xb_failed (rollback_after_helper_error G (xpc_reference w) e ?b y)
                 | Ok _ \<Rightarrow> (Ok (), ?b, y)))"
      using False c by (simp add: xb_begin_def Let_def split: result.split RouteHelperCallError.split)
    show ?thesis
    proof (cases r)
      case r: (Err e)
      show ?thesis
      proof (cases e)
        case (Terminal c)
        then show ?thesis using r handle_accounted [OF a, of "Terminal c"] by (simp add: step)
      next
        case (LocalError c)
        then show ?thesis using r n [OF loc] by (simp add: step)
      qed
    next
      case (Ok st)
      then show ?thesis
        using a after_error_accounted [OF a act]
        by (simp add: step accounted_frozen split: result.split)
    qed
  qed
qed

end

context xpc_helper
begin

lemma apply_accounted:
  assumes "xpc_accounted leases (b, x)"
  shows "xpc_accounted leases (snd (xb_apply G profile op tunnel revision mihomo b x))"
proof -
  obtain r b' x' where run: "xb_apply G profile op tunnel revision mihomo b x = (r, b', x')"
    using prod_cases3 by blast
  let ?w = "xpc_owner profile op tunnel revision mihomo"
  let ?f = "xpc_reference ?w"
  note bg = begin_accounted [OF assms, of ?w]
  have "xpc_accounted leases (b', x')"
    using run unfolding xb_apply_def Let_def
  proof (elim case_resultE case_ifE case_run2E, goal_cases)
    case (5 u v w e b2 x2)
    then show ?case using recover_accounted [OF assms] by blast
  next
    case (6 u v w st b2 x2)
    then show ?case using recover_accounted [OF assms] by blast
  next
    case (7 u v w st b2 x2)
    then have "xpc_accounted leases (b2, x2)" "xb_active b2 = Some ?f"
      using recover_accounted [OF assms, of "Ok st" b2 x2] by auto
    from apply_reference_accounted [OF this] 7 show ?case by simp
  next
    case (8 u v w st b2 x2)
    then show ?case using recover_accounted [OF assms] by blast
  next
    case (9 u v w e b2 x2)
    then show ?case using bg by simp
  next
    case (10 u v w y b2 x2)
    then have "xpc_accounted leases (b2, x2)" "xb_active b2 = Some ?f" using bg by simp_all
    from apply_reference_accounted [OF this] 10 show ?case by simp
  qed (use assms in auto)
  then show ?thesis using run by simp
qed

lemma heartbeat_call_accounted:
  assumes "xpc_accounted leases (b, x)" and "xb_heartbeat_call G op b x = (r, b', x')"
  shows "xpc_accounted leases (b', x')"
proof (cases "xb_active b \<noteq> None \<and> lr_operation_id (the (xb_active b)) = op \<and> live_client b = Ok ()")
  case False
  then show ?thesis
    using assms by (cases "live_client b") (auto simp: xb_heartbeat_call_def split: option.splits if_splits)
next
  case True
  then obtain f where f: "xb_active b = Some f" "lr_operation_id f = op" "live_client b = Ok ()" by auto
  obtain q y where c: "tracked (xb_calls b) (xp_heartbeat G f) x = (q, y)" by fastforce
  then have "leases y \<subseteq> leases x"
    using tracked_leases [of "xp_heartbeat G f" leases x "xb_calls b"] heartbeat_leases by auto
  note a = accounted_less [OF assms(1) this]
  show ?thesis
  proof (cases q)
    case (Err e)
    then have "xb_failed (handle_call_error G e b y) = (r, b', x')"
      using assms(2) f c by (simp add: xb_heartbeat_call_def)
    then have "snd (handle_call_error G e b y) = (b', x')" by (metis snd_failed snd_conv)
    then show ?thesis using handle_accounted [OF a, of e] by simp
  next
    case (Ok st)
    then have "(if is_typed_not_ready st then xb_frozen b y
        else case require_helper_status st HelperApplied of
               Err e \<Rightarrow> (Err e, b\<lparr>xb_recovery_required := True\<rparr>, y) | Ok _ \<Rightarrow> (Ok (), b, y)) = (r, b', x')"
      using assms(2) f c by (simp add: xb_heartbeat_call_def)
    then show ?thesis
      by (elim case_ifE case_resultE) (use a in \<open>auto simp: xb_frozen_def freeze_without_replacement_def\<close>)
  qed
qed

lemma rollback_call_accounted:
  assumes "xpc_accounted leases (b, x)" and "xb_active b = Some f" and "xb_rollback_call G f b x = (r, b', x')"
  shows "xpc_accounted leases (b', x')"
  using assms(3) unfolding xb_rollback_call_def
proof (elim case_resultE case_runE, goal_cases)
  case (2 u e y)
  from handle_accounted [OF accounted_less [OF assms(1) conjunct1 [OF rollback_call_leases [OF 2(2)]]], of e] 2(3)
  show ?case by (metis snd_failed snd_conv)
next
  case (3 u st y)
  note l = rollback_call_leases [OF 3(2)]
  have "leases y = {}" if "require_helper_status st HelperIdle = Ok ()"
    using rolled_back_accounted [OF assms(1,2) conjunct1 [OF l]] conjunct2 [OF l] that by simp
  with accounted_less [OF assms(1) conjunct1 [OF l]] 3(3) show ?case
    by (auto simp: xb_frozen_def freeze_without_replacement_def xpc_accounted_def split: if_splits result.splits)
qed (use assms(1) in auto)

lemma heartbeat_accounted:
  assumes "xpc_accounted leases (b, x)"
  shows "xpc_accounted leases (snd (xb_heartbeat G op b x))"
proof -
  obtain r b' x' where run: "xb_heartbeat G op b x = (r, b', x')" using prod_cases3 by blast
  have "xpc_accounted leases (b', x')"
    using run unfolding xb_heartbeat_def
  proof (elim case_resultE case_ifE case_run2E, goal_cases)
    case (3 u st b2 x2)
    then show ?case using recover_accounted [OF assms 3(3)] heartbeat_call_accounted by blast
  qed (use assms recover_accounted [OF assms] heartbeat_call_accounted [OF assms] in blast)+
  then show ?thesis using run by simp
qed

lemma rollback_accounted:
  assumes "xpc_accounted leases (b, x)"
  shows "xpc_accounted leases (snd (xb_rollback G op b x))"
proof -
  obtain r b' x' where run: "xb_rollback G op b x = (r, b', x')" using prod_cases3 by blast
  have "xpc_accounted leases (b', x')"
    using run unfolding xb_rollback_def
  proof (elim case_resultE case_ifE case_optionE case_run2E, goal_cases)
    case (5 u f y b2 x2)
    have "xpc_accounted leases (b2, x2)" "xb_active b2 = Some f"
      using recover_accounted [OF assms 5(5)] 5(2) by simp_all
    from rollback_call_accounted [OF this 5(6)] show ?case .
  next
    case (6 u f)
    from rollback_call_accounted [OF assms 6(2) 6(5)] show ?case .
  qed (use assms recover_accounted [OF assms] in blast)+
  then show ?thesis using run by simp
qed

end

lemma xpc_live_inert:
  assumes "xb_retired b"
  shows "snd (xb_apply G profile op tunnel revision mihomo b x) = (b, x)"
    "snd (xb_heartbeat G op b x) = (b, x)" "snd (xb_rollback G op b x) = (b, x)"
  using assms by (simp_all add: xb_apply_def xb_heartbeat_def xb_rollback_def live_client_def)

lemma xpc_retired_iff: "xb_disposition b = BoundaryRetired \<longleftrightarrow> xb_retired b"
  by (simp add: xb_disposition_def split: option.split)

lemma xpc_retire_cases:
  "xpc_retire G s =
     (case xb_disposition (fst s) of
        BoundaryBusy \<Rightarrow> (ResultBusy, s)
      | BoundaryRecoveryOnly \<Rightarrow> (ResultRecoveryOnly, s)
      | BoundaryRetired \<Rightarrow> (ResultAlreadyRetired, s)
      | BoundaryReusable \<Rightarrow>
          (ResultRetired (ProductionRouteRetirementReceipt_issued (xb_retirement_issuer (fst s))
             (xb_native_generation (fst s))),
           (fst s)\<lparr>xb_client := False, xb_retired := True\<rparr>, xp_drop G (snd s)))"
  by (auto simp: xpc_retire_def xb_try_retire_def xb_disposition_def split: option.split)

lemma xpc_reusable: "xb_disposition b = BoundaryReusable \<Longrightarrow> xb_active b = None"
  by (simp add: xb_disposition_def split: if_splits option.splits)

sublocale xpc_helper \<subseteq> xpc: route_boundary "\<lambda>s. xb_disposition (fst s)" "xpc_retire G" "xpc_move G"
    "\<lambda>s. leases (snd s) \<noteq> {}" "xpc_accounted leases"
proof
  fix s s' :: "XpcProductionRouteBoundary \<times> 'x"
  assume "xpc_move G s s'" "xpc_accounted leases s"
  then show "xpc_accounted leases s'"
    by cases (auto intro: apply_accounted heartbeat_accounted rollback_accounted)
next
  fix s :: "XpcProductionRouteBoundary \<times> 'x"
  assume a: "xpc_accounted leases s"
  show "xpc_accounted leases (snd (xpc_retire G s))"
  proof (cases s)
    case (Pair b x)
    then show ?thesis
      using a accounted_less [OF a [unfolded Pair] drop_leases]
      by (cases "xb_disposition b") (simp_all add: xpc_retire_cases)
  qed
next
  fix s :: "XpcProductionRouteBoundary \<times> 'x"
  assume "xpc_accounted leases s" "xb_disposition (fst s) = BoundaryReusable"
  then show "\<not> leases (snd s) \<noteq> {}"
    using xpc_reusable [of "fst s"] unfolding xpc_accounted_def by simp
next
  fix s s' :: "XpcProductionRouteBoundary \<times> 'x" and r
  assume g: "xpc_retire G s = (ResultRetired r, s')"
  then have "xb_disposition (fst s) = BoundaryReusable"
    "s' = ((fst s)\<lparr>xb_client := False, xb_retired := True\<rparr>, xp_drop G (snd s))"
    by (simp_all add: xpc_retire_cases split: ProductionRouteDisposition.splits)
  then show "xb_disposition (fst s) = BoundaryReusable \<and> xb_disposition (fst s') = BoundaryRetired \<and>
      (leases (snd s') \<noteq> {} \<longrightarrow> leases (snd s) \<noteq> {})"
    using drop_leases [of "snd s"] by (auto simp: xpc_retired_iff)
next
  fix s s' :: "XpcProductionRouteBoundary \<times> 'x"
  assume "xb_disposition (fst s) = BoundaryRetired" "xpc_move G s s'"
  then show "s' = s" using xpc_live_inert by (auto simp: xpc_retired_iff elim!: xpc_move.cases)
next
  fix s :: "XpcProductionRouteBoundary \<times> 'x"
  assume "xb_disposition (fst s) = BoundaryRetired"
  then show "xpc_retire G s = (ResultAlreadyRetired, s)" by (simp add: xpc_retire_cases)
qed

context xpc_helper
begin

lemmas receipt_absence = xpc.receipt_proves_absence

lemma connect_accounted:
  assumes "connect_with_factory G policy counter x = (Ok b, counter', y)"
  shows "xpc_accounted leases (b, y)"
proof -
  obtain z where z: "discover_authoritative_idle G 0 policy z = (Ok (), y)" "xb_active b = None" "xb_active_owner b = None"
    using assms unfolding connect_with_factory_def
    by (elim case_runE) (auto split: prod.splits result.splits)
  then show ?thesis using discovery_leases(2) [of 0 policy z] by (simp add: xpc_accounted_def)
qed

end

text \<open>
  Claim C10. A retirement receipt of the boundary over XPC is honest: for every helper and transport that
  obey their contract, whatever an older process left at the helper, after any sequence of applications,
  heartbeats, rollbacks and retirement attempts with any replies, timeouts and replacements of the
  native client, the boundary issues a receipt only when the helper has no lease left; then no later
  call changes anything and no second receipt is given.
\<close>

theorem xpc_receipt_proves_absence:
  assumes "xpc_helper G leases" and "connect_with_factory G policy counter x0 = (Ok b0, counter', x1)"
    and "boundary_history (xpc_retire G) (xpc_move G) (b0, x1) (b, x)"
    and "xpc_retire G (b, x) = (ResultRetired r, s)"
    and "boundary_history (xpc_retire G) (xpc_move G) s t"
  shows "leases x = {} \<and> t = s \<and> leases (snd t) = {} \<and> fst (xpc_retire G t) = ResultAlreadyRetired"
  using xpc_helper.receipt_absence [OF assms(1) xpc_helper.connect_accounted [OF assms(1,2)] assms(3-5)]
  by auto

subsection \<open>A mutation is never replayed\<close>

text \<open>The calls that reach a native generation, with its creation and destruction.\<close>

datatype xpc_call = CallCreate | CallDestroy | CallDiscover | CallBegin RouteLeaseOwner
  | CallRecover RouteLeaseOwner | CallApply RouteLeaseReference | CallRollback RouteLeaseReference
  | CallHeartbeat RouteLeaseReference

locale xpc_logged =
  fixes G :: "'x RouteHelperGenerations" and log :: "'x \<Rightarrow> xpc_call list"
  assumes log_create: "log (snd (xp_create G x)) = log x @ [CallCreate]"
    and log_drop: "log (xp_drop G x) = log x @ [CallDestroy]"
    and log_discover: "log (snd (xp_discover G x)) = log x @ [CallDiscover]"
    and log_begin: "log (snd (xp_begin G w x)) = log x @ [CallBegin w]"
    and log_recover: "log (snd (xp_recover G w x)) = log x @ [CallRecover w]"
    and log_apply: "log (snd (xp_apply G f x)) = log x @ [CallApply f]"
    and log_rollback: "log (snd (xp_rollback G f x)) = log x @ [CallRollback f]"
    and log_heartbeat: "log (snd (xp_heartbeat G f x)) = log x @ [CallHeartbeat f]"
    and log_timer: "log (xt_start G n x) = log x" "log (snd (xt_expired G x)) = log x"
      "log (snd (xt_wait G n x)) = log x"

text \<open>What a replacement of the native generation may send: no request but bounded discovery.\<close>

definition replacement :: "nat \<Rightarrow> xpc_call list \<Rightarrow> bool" where
  "replacement n cs \<longleftrightarrow>
     cs = [] \<or>
     (\<exists>d k m. cs = replicate d CallDestroy @ CallCreate # replicate k CallDiscover @ replicate m CallDestroy \<and>
        d \<le> 1 \<and> k \<le> n \<and> m \<le> 1)"

context xpc_logged
begin

lemma tracked_log:
  assumes "log (snd (call x)) = log x @ [c]"
  obtains (refused) "tracked n call x = (Err (LocalError InvalidStateTransition), x)"
  | (sent) r y where "tracked n call x = (r, y)" and "call x = (r, y)" and "log y = log x @ [c]"
proof (cases "checked_add n 1")
  case None
  then show thesis using refused by (simp add: tracked_def)
next
  case (Some m)
  obtain r y where c: "call x = (r, y)" by fastforce
  show thesis
  proof (rule sent)
    show "tracked n call x = (r, y)" using Some c by (simp add: tracked_def)
    show "call x = (r, y)" by (rule c)
    show "log y = log x @ [c]" using assms c by simp
  qed
qed

lemma timer_log: "xt_expired G x = (t, y) \<Longrightarrow> log y = log x" "xt_wait G d x = (t, y) \<Longrightarrow> log y = log x"
  using log_timer(2) [of x] log_timer(3) [of d x] by simp_all

lemma discover_loop_log:
  assumes "discover_loop G n mb bo left x = (r, y)"
  shows "\<exists>k \<le> left. log y = log x @ replicate k CallDiscover"
  using assms
proof (induction left arbitrary: bo x)
  case 0
  then have "log y = log x" by (auto split: prod.splits dest: timer_log)
  then show ?case by simp
next
  case (Suc left)
  obtain ex x1 where e: "xt_expired G x = (ex, x1)" by fastforce
  note l1 = timer_log(1) [OF e]
  show ?case
  proof (cases ex)
    case True
    then have "y = x1" using Suc.prems e by simp
    then show ?thesis using l1 by (intro exI [of _ 0]) simp
  next
    case run: False
    show ?thesis
    proof (cases rule: tracked_log [where call = "xp_discover G" and x = x1 and n = n, OF log_discover])
      case 1
      then have "y = x1" using Suc.prems e run by simp
      then show ?thesis using l1 by (intro exI [of _ 0]) simp
    next
      case (2 q x2)
      have one: "log x2 = log x @ replicate 1 CallDiscover" using 2 l1 by simp
      show ?thesis
      proof (cases q)
        case (Err c)
        then have "y = x2" using Suc.prems e run 2 by simp
        then show ?thesis using one by (intro exI [of _ 1]) simp
      next
        case (Ok st)
        obtain go x3 where w: "xt_wait G bo x2 = (go, x3)" by fastforce
        obtain ex' x4 where e': "xt_expired G x2 = (ex', x4)" by fastforce
        consider "discover_loop G n mb (min (2 * bo) mb) left x3 = (r, y)" | "log y = log x2"
          using Suc.prems e run 2(1) Ok w e' timer_log(2) [OF w] timer_log(1) [OF e']
          by (cases "is_typed_not_ready st"; cases "left = 0"; cases go; cases ex') auto
        then show ?thesis
        proof cases
          case 1
          from Suc.IH [OF this] obtain k where "k \<le> left" "log y = log x3 @ replicate k CallDiscover" by blast
          then show ?thesis using one timer_log(2) [OF w] by (intro exI [of _ "Suc k"]) simp
        next
          case 2
          then show ?thesis using one by (intro exI [of _ 1]) simp
        qed
      qed
    qed
  qed
qed

lemma discovery_log:
  assumes "discover_authoritative_idle G n p x = (r, y)"
  shows "\<exists>k \<le> dp_maximum_attempts p. log y = log x @ replicate k CallDiscover"
  using discover_loop_log [OF assms [unfolded discover_authoritative_idle_def]] log_timer(1) by simp

lemma reconcile_log:
  assumes "reconcile_terminal_generation G e b x = (e', b', y)"
  shows "\<exists>cs. log y = log x @ cs \<and> replacement (dp_maximum_attempts (xb_discovery_policy b)) cs"
proof -
  let ?x = "if xb_client b then xp_drop G x else x"
  let ?d = "if xb_client b then 1 else 0 :: nat"
  obtain r x1 where c: "xp_create G ?x = (r, x1)" by fastforce
  have l1: "log x1 = log x @ replicate ?d CallDestroy @ [CallCreate]"
    using log_create [of ?x] c log_drop [of x] by (cases "xb_client b") simp_all
  obtain q x2 where d: "discover_authoritative_idle G (xb_calls b) (xb_discovery_policy b) x1 = (q, x2)"
    by fastforce
  obtain k where k: "k \<le> dp_maximum_attempts (xb_discovery_policy b)" "log x2 = log x1 @ replicate k CallDiscover"
    using discovery_log [OF d] by blast
  have "y \<in> {x1, xp_drop G x1, x2, xp_drop G x2}"
    using assms c d
    by (auto simp: reconcile_terminal_generation_def Let_def split: result.splits option.splits if_splits)
  then have "\<exists>k' m. k' \<le> dp_maximum_attempts (xb_discovery_policy b) \<and> m \<le> 1 \<and>
      log y = log x @ replicate ?d CallDestroy @ CallCreate # replicate k' CallDiscover @ replicate m CallDestroy"
  proof (elim insertE emptyE)
    assume "y = x1" then show ?thesis using l1 by (intro exI [of _ 0]) simp
  next
    assume "y = xp_drop G x1"
    then show ?thesis using l1 log_drop by (intro exI [of _ 0] exI [of _ 1]) simp
  next
    assume "y = x2" then show ?thesis using l1 k by (intro exI [of _ k] exI [of _ 0]) simp
  next
    assume "y = xp_drop G x2"
    then show ?thesis using l1 k log_drop by (intro exI [of _ k] exI [of _ 1]) simp
  qed
  moreover have "?d \<le> 1" by simp
  ultimately show ?thesis unfolding replacement_def by blast
qed

lemma handle_log:
  assumes "handle_call_error G e b x = (e', b', y)"
  shows "\<exists>cs. log y = log x @ cs \<and> replacement (dp_maximum_attempts (xb_discovery_policy b)) cs"
proof (cases "call_terminates_generation e")
  case True
  then show ?thesis using assms reconcile_log by (simp add: handle_call_error_def)
next
  case False
  then have "y = x" using assms by (simp add: handle_call_error_def)
  then show ?thesis by (intro exI [of _ "[]"]) (simp add: replacement_def)
qed

end

text \<open>\<open>sends n as l l'\<close>: some of the requests \<open>as\<close> in this order, then at most one replacement.\<close>

definition sends :: "nat \<Rightarrow> xpc_call list \<Rightarrow> xpc_call list \<Rightarrow> xpc_call list \<Rightarrow> bool" where
  "sends n as l l' \<longleftrightarrow> (\<exists>ms cs. l' = l @ ms @ cs \<and> subseq ms as \<and> replacement n cs)"

lemma sends_none: "sends n as l l"
  unfolding sends_def by (intro exI [of _ "[]"]) (simp add: replacement_def)

lemma sends_one: "sends n (c # as) l (l @ [c])"
  unfolding sends_def by (intro exI [of _ "[c]"] exI [of _ "[]"]) (simp add: replacement_def)

lemma sends_then: "sends n as (l @ [c]) l' \<Longrightarrow> sends n (c # as) l l'"
  unfolding sends_def by (metis append.assoc append_Cons append_Nil subseq_Cons2)

lemma sends_replaced: "l' = l @ cs \<Longrightarrow> replacement n cs \<Longrightarrow> sends n as l l'"
  unfolding sends_def by (intro exI [of _ "[]"] exI [of _ cs]) simp

lemma sends_more: "sends n as l l' \<Longrightarrow> subseq as bs \<Longrightarrow> sends n bs l l'"
  unfolding sends_def by (blast intro: subseq_order.trans)

context xpc_logged
begin

abbreviation sent :: "XpcProductionRouteBoundary \<Rightarrow> xpc_call list \<Rightarrow> 'x \<Rightarrow> 'x \<Rightarrow> bool" where
  "sent b as x y \<equiv> sends (dp_maximum_attempts (xb_discovery_policy b)) as (log x) (log y)"

lemma sent_step:
  assumes "tracked n call x = (r, y)" and "\<And>x. log (snd (call x)) = log x @ [c]" and "sent b as y z"
  shows "sent b (c # as) x z"
  using assms(1)
proof (cases rule: tracked_log [where call = call and x = x and n = n, OF assms(2)])
  case 1
  then show ?thesis using assms(1,3) sends_more [of _ as _ _ "c # as"] by auto
next
  case (2 r' y')
  then show ?thesis using assms(1,3) sends_then by simp
qed

lemma handle_sent:
  assumes "xb_failed (handle_call_error G e b x) = (r, b', y)"
  shows "sent b as x y"
proof -
  obtain e' where "handle_call_error G e b x = (e', b', y)"
    using assms by (auto simp: xb_failed_def split: prod.splits)
  from handle_log [OF this] sends_replaced show ?thesis by blast
qed

lemma frozen_same: "xb_frozen b x = (r, b', y) \<Longrightarrow> y = x"
  by (simp add: xb_frozen_def freeze_without_replacement_def)

lemma after_error_sent:
  assumes "xb_failed (rollback_after_helper_error G f e b x) = (r, b', y)"
  shows "sent b [CallRollback f] x y"
proof (cases "live_client b")
  case (Err e')
  then show ?thesis using assms by (simp add: rollback_after_helper_error_def xb_failed_def sends_none)
next
  case live: (Ok u)
  obtain q z where c: "tracked (xb_calls b) (xp_rollback G f) x = (q, z)" by fastforce
  have "sent b [] z y"
  proof (cases "\<exists>c. q = Err c \<and> call_terminates_generation c")
    case True
    then obtain b2 e2 where "reconcile_terminal_generation G e b z = (e2, b2, y)"
      using assms live c by (auto simp: rollback_after_helper_error_def xb_failed_def split: prod.splits)
    from reconcile_log [OF this] sends_replaced show ?thesis by blast
  next
    case False
    then have "y = z"
      using assms live c
      by (cases q) (auto simp: rollback_after_helper_error_def xb_failed_def split: if_splits result.splits)
    then show ?thesis by (simp add: sends_none)
  qed
  from sent_step [OF c log_rollback this] show ?thesis .
qed

lemma apply_reference_sent:
  assumes "xb_apply_reference G f b x = (r, b', y)"
  shows "sent b [CallApply f, CallRollback f] x y"
  using assms unfolding xb_apply_reference_def
proof (elim case_resultE case_runE, goal_cases)
  case (2 u e z)
  from sent_step [OF 2(2) log_apply handle_sent [OF 2(3)]] show ?case .
next
  case (3 u st z)
  from 3(3) have "sent b [CallRollback f] z y"
    by (elim case_ifE case_resultE) (auto dest: frozen_same intro: sends_none after_error_sent)
  from sent_step [OF 3(2) log_apply this] show ?case .
qed (simp add: sends_none)

lemma begin_sent:
  assumes "xb_begin G w f b x = (r, b', y)"
  shows "sent b [CallBegin w, CallRollback f] x y \<and>
    (is_ok r \<longrightarrow> log y = log x @ [CallBegin w] \<and> xb_discovery_policy b' = xb_discovery_policy b)"
proof (cases "xb_active b \<noteq> None \<or> xb_active_owner b \<noteq> None")
  case True
  then show ?thesis using assms by (auto simp: xb_begin_def sends_none)
next
  case False
  let ?b = "b\<lparr>xb_active := Some f, xb_active_owner := Some w\<rparr>"
  show ?thesis
  proof (cases "live_client ?b")
    case (Err e)
    then have "r = Err e" "y = x" using assms False by (simp_all add: xb_begin_def Let_def)
    then show ?thesis by (simp add: sends_none)
  next
    case live: (Ok u)
    obtain q z where c: "tracked (xb_calls b) (xp_begin G w) x = (q, z)" by fastforce
    have "sent b [CallRollback f] z y \<and>
      (is_ok r \<longrightarrow> z = y \<and> is_ok q \<and> xb_discovery_policy b' = xb_discovery_policy b)"
    proof (cases q)
      case q: (Err e)
      show ?thesis
      proof (cases e)
        case (Terminal c')
        then have f: "xb_failed (handle_call_error G (Terminal c') ?b z) = (r, b', y)"
          using assms False live c q by (simp add: xb_begin_def Let_def)
        then show ?thesis using handle_sent [OF f] by (auto simp: xb_failed_def split: prod.splits)
      next
        case (LocalError c')
        then show ?thesis using assms False live c q by (auto simp: xb_begin_def Let_def sends_none)
      qed
    next
      case (Ok st)
      then have f: "(if is_typed_not_ready st then xb_frozen ?b z
          else case require_helper_status st HelperPrepared of
                 Err e \<Rightarrow> xb_failed (rollback_after_helper_error G f e ?b z) | Ok _ \<Rightarrow> (Ok (), ?b, z)) = (r, b', y)"
        using assms False live c by (simp add: xb_begin_def Let_def)
      then show ?thesis
      proof (elim case_ifE case_resultE, goal_cases)
        case 1
        then show ?case
          using frozen_same [OF 1(2)] by (auto simp: sends_none xb_frozen_def freeze_without_replacement_def)
      next
        case (2 e)
        then show ?case
          using after_error_sent [OF 2(3)] not_ok_failed(1) [of "rollback_after_helper_error G f e ?b z"] by simp
      next
        case (3 v)
        then show ?case using Ok by (auto simp: sends_none)
      qed
    qed
    moreover have "log y = log x @ [CallBegin w]" if "z = y" "is_ok q"
      using that c log_begin [of w x] by (auto simp: tracked_def is_ok_iff split: option.splits)
    ultimately show ?thesis using sent_step [OF c log_begin] by blast
  qed
qed

lemma recover_sent:
  assumes "recover_active G b x = (r, b', y)" and "xb_active_owner b = Some w"
  shows "sent b [CallRecover w] x y \<and>
    (is_ok r \<longrightarrow> log y = log x @ [CallRecover w] \<and> xb_discovery_policy b' = xb_discovery_policy b)"
proof (cases "live_client b")
  case (Err e)
  then show ?thesis using assms by (auto simp: recover_active_def ok_or_def sends_none)
next
  case live: (Ok u)
  obtain q z where c: "tracked (xb_calls b) (xp_recover G w) x = (q, z)" by fastforce
  show ?thesis
  proof (cases q)
    case (Err e)
    then have f: "\<exists>e'. handle_call_error G e b z = (e', b', y)" "\<not> is_ok r"
      using assms live c by (auto simp: recover_active_def ok_or_def split: prod.splits)
    then have "sent b [] z y" using handle_log sends_replaced by blast
    from sent_step [OF c log_recover this] f(2) show ?thesis by simp
  next
    case (Ok st)
    then have "y = z" "is_ok r \<longrightarrow> xb_discovery_policy b' = xb_discovery_policy b"
      using assms live c
      by (auto simp: recover_active_def ok_or_def freeze_without_replacement_def split: if_splits option.splits)
    moreover have "log z = log x @ [CallRecover w]"
      using c Ok log_recover [of w x] by (auto simp: tracked_def split: option.splits)
    ultimately show ?thesis using sends_one [of _ "CallRecover w" "[]"] by simp
  qed
qed

end

text \<open>
  Claim C11. No request that changes routes is ever repeated: for all native clients and clocks, one
  \<open>apply\<close> sends the recovery, the begin, the application and the rollback of its own lease at most once
  each and in this order, whatever they answer; when one of them ends the native generation, what
  follows is at most one replacement, which only asks the new generation for its state, as often as the
  discovery policy allows.
\<close>

theorem mutation_is_never_replayed:
  assumes "xpc_logged G log" and "xb_apply G profile op tunnel revision mihomo b x = (r, b', x')"
    and "w = xpc_owner profile op tunnel revision mihomo"
  shows "\<exists>ms cs. log x' = log x @ ms @ cs \<and>
    subseq ms [CallRecover w, CallBegin w, CallApply (xpc_reference w), CallRollback (xpc_reference w)] \<and>
    replacement (dp_maximum_attempts (xb_discovery_policy b)) cs"
proof -
  let ?f = "xpc_reference w"
  let ?n = "dp_maximum_attempts (xb_discovery_policy b)"
  note L = assms(1)
  have "sends ?n [CallRecover w, CallBegin w, CallApply ?f, CallRollback ?f] (log x) (log x')"
    using assms(2) unfolding xb_apply_def Let_def assms(3) [symmetric]
  proof (elim case_resultE case_ifE case_run2E, goal_cases)
    case (5 u v w' e b2 x2)
    then have "sends ?n [CallRecover w] (log x) (log x2)"
      using xpc_logged.recover_sent [OF L, of b x "Err e" b2 x2 w] by simp
    then show ?case using 5 sends_more by fastforce
  next
    case (6 u v w' st b2 x2)
    then have "sends ?n [CallRecover w] (log x) (log x2)"
      using xpc_logged.recover_sent [OF L, of b x "Ok st" b2 x2 w] by (simp add: sends_one)
    then show ?case using 6 sends_more by fastforce
  next
    case (7 u v w' st b2 x2)
    then have "log x2 = log x @ [CallRecover w]" "xb_discovery_policy b2 = xb_discovery_policy b"
      using xpc_logged.recover_sent [OF L, of b x "Ok st" b2 x2 w] by simp_all
    then have "sends ?n [CallRecover w, CallApply ?f, CallRollback ?f] (log x) (log x')"
      using xpc_logged.apply_reference_sent [OF L, of ?f b2 x2] 7 sends_then by simp
    then show ?case by (rule sends_more) simp
  next
    case (8 u v w' st b2 x2)
    then have "sends ?n [CallRecover w] (log x) (log x2)"
      using xpc_logged.recover_sent [OF L, of b x "Ok st" b2 x2 w] by (simp add: sends_one)
    then show ?case using 8 sends_more by fastforce
  next
    case (9 u v w' e b2 x2)
    then have "sends ?n [CallBegin w, CallRollback ?f] (log x) (log x')"
      using xpc_logged.begin_sent [OF L, of w ?f b x "Err e" b2 x2] by simp
    then show ?case by (rule sends_more) simp
  next
    case (10 u v w' y b2 x2)
    then have "log x2 = log x @ [CallBegin w]" "xb_discovery_policy b2 = xb_discovery_policy b"
      using xpc_logged.begin_sent [OF L, of w ?f b x "Ok y" b2 x2] by simp_all
    then have "sends ?n [CallBegin w, CallApply ?f, CallRollback ?f] (log x) (log x')"
      using xpc_logged.apply_reference_sent [OF L, of ?f b2 x2] 10 sends_then by simp
    then show ?case by (rule sends_more) simp
  qed (auto simp: sends_none)
  then show ?thesis by (simp add: sends_def)
qed

subsection \<open>The generations of the tests\<close>

text \<open>
  \<open>MockGeneration\<close> answers from scripts; its counters are kept as one log.  \<open>mw_leases\<close> is what the
  scripted answers stand for: a lease that was begun or applied, until a rollback of it or a discovery
  answers idle.
\<close>

record MockGenerationState =
  mg_discover :: "RouteHelperStatus call_result list"
  mg_begin :: "RouteHelperStatus call_result list"
  mg_recover :: "RouteHelperStatus call_result list"
  mg_apply :: "RouteHelperStatus call_result list"
  mg_rollback :: "RouteHelperStatus call_result list"
  mg_heartbeat :: "RouteHelperStatus call_result list"

record MockFactory =
  mw_generation :: MockGenerationState
  mw_generations :: "MockGenerationState list"
  mw_waits :: "nat list"
  mw_log :: "xpc_call list"
  mw_leases :: "RouteLeaseReference list"

definition MockGenerationState_scripted ::
  "RouteHelperStatus call_result list \<Rightarrow> RouteHelperStatus call_result list \<Rightarrow>
     RouteHelperStatus call_result list \<Rightarrow> MockGenerationState" where
  "MockGenerationState_scripted discover begun applied =
     \<lparr>mg_discover = discover, mg_begin = begun, mg_recover = [], mg_apply = applied, mg_rollback = [],
      mg_heartbeat = []\<rparr>"

definition MockGenerationState_next :: "RouteHelperStatus call_result list \<Rightarrow> RouteHelperStatus call_result" where
  "MockGenerationState_next queue =
     (case queue of r # _ \<Rightarrow> r | [] \<Rightarrow> Err (LocalError InvalidStateTransition))"

definition mock_logged :: "xpc_call \<Rightarrow> MockFactory \<Rightarrow> MockFactory" where
  "mock_logged c m = m\<lparr>mw_log := mw_log m @ [c]\<rparr>"

definition mock_on :: "(MockGenerationState \<Rightarrow> MockGenerationState) \<Rightarrow> MockFactory \<Rightarrow> MockFactory" where
  "mock_on f m = m\<lparr>mw_generation := f (mw_generation m)\<rparr>"

definition MockFactory_create :: "MockFactory \<Rightarrow> unit net_result \<times> MockFactory" where
  "MockFactory_create m =
     (let m = mock_logged CallCreate m in
      case mw_generations m of
        [] \<Rightarrow> (Err SidecarUnavailable, m)
      | g # gs \<Rightarrow> (Ok (), m\<lparr>mw_generation := g, mw_generations := gs\<rparr>))"

definition MockGeneration_discover :: "MockFactory \<Rightarrow> RouteHelperStatus call_result \<times> MockFactory" where
  "MockGeneration_discover m =
     (let r = MockGenerationState_next (mg_discover (mw_generation m));
          m = mock_on (\<lambda>g. g\<lparr>mg_discover := tl (mg_discover g)\<rparr>) (mock_logged CallDiscover m)
      in (r, case r of
               Ok st \<Rightarrow> if require_authoritative_idle st = Ok () then m\<lparr>mw_leases := []\<rparr> else m
             | Err _ \<Rightarrow> m))"

definition MockGeneration_begin ::
  "RouteLeaseOwner \<Rightarrow> MockFactory \<Rightarrow> RouteHelperStatus call_result \<times> MockFactory" where
  "MockGeneration_begin owner m =
     (let r = MockGenerationState_next (mg_begin (mw_generation m));
          m = mock_on (\<lambda>g. g\<lparr>mg_begin := tl (mg_begin g)\<rparr>) (mock_logged (CallBegin owner) m)
      in (r, case r of
               Err (LocalError _) \<Rightarrow> m
             | _ \<Rightarrow> m\<lparr>mw_leases := xpc_reference owner # mw_leases m\<rparr>))"

definition MockGeneration_recover ::
  "RouteLeaseOwner \<Rightarrow> MockFactory \<Rightarrow> RouteHelperStatus call_result \<times> MockFactory" where
  "MockGeneration_recover owner m =
     (MockGenerationState_next (mg_recover (mw_generation m)),
      mock_on (\<lambda>g. g\<lparr>mg_recover := tl (mg_recover g)\<rparr>) (mock_logged (CallRecover owner) m))"

definition MockGeneration_apply ::
  "RouteLeaseReference \<Rightarrow> MockFactory \<Rightarrow> RouteHelperStatus call_result \<times> MockFactory" where
  "MockGeneration_apply reference m =
     (let m' = mock_on (\<lambda>g. g\<lparr>mg_apply := tl (mg_apply g)\<rparr>) (mock_logged (CallApply reference) m)
      in (MockGenerationState_next (mg_apply (mw_generation m)),
          m'\<lparr>mw_leases := reference # mw_leases m'\<rparr>))"

definition MockGeneration_rollback ::
  "RouteLeaseReference \<Rightarrow> MockFactory \<Rightarrow> RouteHelperStatus call_result \<times> MockFactory" where
  "MockGeneration_rollback reference m =
     (let r = MockGenerationState_next (mg_rollback (mw_generation m));
          m = mock_on (\<lambda>g. g\<lparr>mg_rollback := tl (mg_rollback g)\<rparr>) (mock_logged (CallRollback reference) m)
      in (r, case r of
               Ok st \<Rightarrow>
                 if require_helper_status st HelperIdle = Ok ()
                 then m\<lparr>mw_leases := removeAll reference (mw_leases m)\<rparr> else m
             | Err _ \<Rightarrow> m))"

definition MockGeneration_heartbeat ::
  "RouteLeaseReference \<Rightarrow> MockFactory \<Rightarrow> RouteHelperStatus call_result \<times> MockFactory" where
  "MockGeneration_heartbeat reference m =
     (MockGenerationState_next (mg_heartbeat (mw_generation m)),
      mock_on (\<lambda>g. g\<lparr>mg_heartbeat := tl (mg_heartbeat g)\<rparr>) (mock_logged (CallHeartbeat reference) m))"

definition RecordingTimer_wait :: "nat \<Rightarrow> MockFactory \<Rightarrow> bool \<times> MockFactory" where
  "RecordingTimer_wait delay m = (True, m\<lparr>mw_waits := mw_waits m @ [delay]\<rparr>)"

definition Mock_impl :: "MockFactory RouteHelperGenerations" where
  "Mock_impl =
     \<lparr>xp_create = MockFactory_create, xp_drop = mock_logged CallDestroy, xp_discover = MockGeneration_discover,
      xp_begin = MockGeneration_begin, xp_recover = MockGeneration_recover, xp_apply = MockGeneration_apply,
      xp_rollback = MockGeneration_rollback, xp_heartbeat = MockGeneration_heartbeat,
      xt_start = \<lambda>_ m. m, xt_expired = \<lambda>m. (False, m), xt_wait = RecordingTimer_wait\<rparr>"

lemmas mock_defs = Mock_impl_def MockFactory_create_def MockGeneration_discover_def MockGeneration_begin_def
  MockGeneration_recover_def MockGeneration_apply_def MockGeneration_rollback_def
  MockGeneration_heartbeat_def RecordingTimer_wait_def mock_logged_def mock_on_def Let_def

interpretation mock: xpc_helper Mock_impl "\<lambda>m. set (mw_leases m)"
  by unfold_locales
    (auto simp: mock_defs split: result.splits list.splits RouteHelperCallError.splits)

interpretation mock_log: xpc_logged Mock_impl mw_log
  by unfold_locales
    (auto simp: mock_defs split: result.splits list.splits RouteHelperCallError.splits)

subsection \<open>A lost begin\<close>

text \<open>
  The scenario of the test \<open>mutating_transport_failure_reconciles_once_without_replay\<close>: the begin times
  out, the replacement is not ready at first and then idle.
\<close>

definition xpc_mock_status ::
  "RouteHelperState \<Rightarrow> string option \<Rightarrow> NetworkErrorCode option \<Rightarrow> RouteHelperStatus" where
  "xpc_mock_status state operation_id error_code =
     \<lparr>hs_protocol_version = ROUTE_HELPER_PROTOCOL_VERSION, hs_state = state,
      hs_operation_id = operation_id, hs_error_code = error_code\<rparr>"

definition lost_begin :: MockFactory where
  "lost_begin =
     \<lparr>mw_generation = MockGenerationState_scripted [] [] [],
      mw_generations =
        [MockGenerationState_scripted [Ok (xpc_mock_status HelperIdle None None)] [Err (Terminal OperationTimedOut)] [],
         MockGenerationState_scripted
           [Ok (xpc_mock_status HelperFailedClosed None (Some SidecarUnavailable)),
            Ok (xpc_mock_status HelperIdle None None)] [] []],
      mw_waits = [], mw_log = [], mw_leases = []\<rparr>"

definition xpc_policy :: DiscoveryPolicy where
  "xpc_policy = \<lparr>dp_total_timeout = 1000, dp_initial_backoff = 0, dp_maximum_backoff = 0, dp_maximum_attempts = 3\<rparr>"

definition xpc_boundary :: XpcProductionRouteBoundary where
  "xpc_boundary =
     \<lparr>xb_client = True, xb_calls = 0, xb_native_generation = 1,
      xb_retirement_issuer = \<lparr>ri_boundary_incarnation = 1\<rparr>, xb_discovery_policy = xpc_policy,
      xb_active = None, xb_active_owner = None, xb_recovery_required = False,
      xb_mutations_blocked = False, xb_reconciliation_error = None, xb_retired = False\<rparr>"

definition xpc_lease :: RouteLeaseOwner where
  "xpc_lease = sample_lease\<lparr>lo_lease_id := ''operation-1''\<rparr>"

definition xpc_profile :: NetworkProfile where
  "xpc_profile = sample_profile_v1\<lparr>pr_site := \<lparr>site_id = ''site.1'', site_display_name = ''Office'',
     site_private_cidrs = [''10.0.0.0/8'']\<rparr>\<rparr>"

definition xpc_snapshot :: MihomoTunSnapshot where
  "xpc_snapshot = \<lparr>mt_active_mihomo_tun_interfaces = [''utun9'']\<rparr>"

definition connected_mock :: MockFactory where
  "connected_mock = snd (snd (connect_with_factory Mock_impl xpc_policy 1 lost_begin))"

lemma xpc_connected: "connect_with_factory Mock_impl xpc_policy 1 lost_begin = (Ok xpc_boundary, 2, connected_mock)"
proof -
  have "fst (connect_with_factory Mock_impl xpc_policy 1 lost_begin) = Ok xpc_boundary"
    "fst (snd (connect_with_factory Mock_impl xpc_policy 1 lost_begin)) = 2"
    by code_simp+
  then show ?thesis by (metis connected_mock_def prod.collapse)
qed

lemma xpc_lease_owner:
  "xpc_owner xpc_profile ''operation-1'' (lo_tunnel sample_lease) 7 xpc_snapshot = xpc_lease"
  by (simp add: xpc_owner_def xpc_profile_def xpc_snapshot_def xpc_lease_def sample_lease_def)

lemma xpc_lease_valid: "RouteLeaseOwner_validate xpc_lease = Ok ()"
proof -
  have "valid_identifier ''operation-1''" by code_simp
  then show ?thesis
    using sample_lease_valid by (simp add: RouteLeaseOwner_validate_def xpc_lease_def split: if_splits)
qed

lemma xpc_snapshot_valid: "MihomoTunSnapshot_validate_for (tf_interface_name (lo_tunnel sample_lease)) xpc_snapshot = Ok ()"
  by code_simp

lemma lost_begin_run:
  "fst (xb_begin Mock_impl xpc_lease (xpc_reference xpc_lease) xpc_boundary connected_mock) = Err OperationTimedOut"
  "fst (snd (xb_begin Mock_impl xpc_lease (xpc_reference xpc_lease) xpc_boundary connected_mock)) =
     xpc_boundary\<lparr>xb_native_generation := 2\<rparr>"
  "mw_log (snd (snd (xb_begin Mock_impl xpc_lease (xpc_reference xpc_lease) xpc_boundary connected_mock))) =
     mw_log connected_mock @ [CallBegin xpc_lease, CallDestroy, CallCreate, CallDiscover, CallDiscover]"
  by code_simp+

lemma lost_begin_apply:
  "xb_apply Mock_impl xpc_profile ''operation-1'' (lo_tunnel sample_lease) 7 xpc_snapshot xpc_boundary connected_mock =
   xb_begin Mock_impl xpc_lease (xpc_reference xpc_lease) xpc_boundary connected_mock"
proof -
  have "live_client xpc_boundary = Ok ()" "xb_recovery_required xpc_boundary = False"
    by (simp_all add: live_client_def xpc_boundary_def)
  moreover obtain b x where
    "xb_begin Mock_impl xpc_lease (xpc_reference xpc_lease) xpc_boundary connected_mock = (Err OperationTimedOut, b, x)"
    using lost_begin_run(1) by (metis prod.collapse)
  ultimately show ?thesis
    by (simp add: xb_apply_def Let_def xpc_lease_owner xpc_lease_valid xpc_snapshot_valid)
qed

theorem mutation_is_never_replayed_witness:
  "\<exists>r b x ms cs. xb_apply Mock_impl xpc_profile ''operation-1'' (lo_tunnel sample_lease) 7 xpc_snapshot
       xpc_boundary connected_mock = (r, b, x) \<and>
     mw_log x = mw_log connected_mock @ ms @ cs \<and> replacement 3 cs \<and>
     subseq ms [CallRecover xpc_lease, CallBegin xpc_lease, CallApply (xpc_reference xpc_lease),
       CallRollback (xpc_reference xpc_lease)]"
proof -
  obtain r b x where run: "xb_apply Mock_impl xpc_profile ''operation-1'' (lo_tunnel sample_lease) 7 xpc_snapshot
       xpc_boundary connected_mock = (r, b, x)"
    using prod_cases3 by blast
  have "dp_maximum_attempts (xb_discovery_policy xpc_boundary) = 3" by (simp add: xpc_boundary_def xpc_policy_def)
  with mutation_is_never_replayed [OF mock_log.xpc_logged_axioms run xpc_lease_owner [symmetric]] run
  show ?thesis by auto
qed

text \<open>After the replacement the boundary retires, on its second native generation.\<close>

theorem xpc_receipt_proves_absence_witness:
  "\<exists>x r s. xpc_retire Mock_impl (xpc_boundary\<lparr>xb_native_generation := 2\<rparr>, x) = (ResultRetired r, s) \<and>
     rr_native_generation r = 2 \<and> mw_leases x = [] \<and> mw_leases (snd s) = []"
proof -
  let ?b = "xpc_boundary\<lparr>xb_native_generation := 2\<rparr>"
  let ?H = "boundary_history (xpc_retire Mock_impl) (xpc_move Mock_impl)"
  let ?s = "snd (xb_apply Mock_impl xpc_profile ''operation-1'' (lo_tunnel sample_lease) 7 xpc_snapshot
    xpc_boundary connected_mock)"
  have s: "?s = (?b, snd ?s)" using lost_begin_run(2) by (simp add: lost_begin_apply prod_eq_iff)
  have h: "?H (xpc_boundary, connected_mock) (?b, snd ?s)"
    by (subst s [symmetric]) (rule history_move [OF history_refl], rule xpc_move_apply)
  have "xb_disposition ?b = BoundaryReusable" by (simp add: xb_disposition_def xpc_boundary_def)
  then obtain r t where r: "xpc_retire Mock_impl (?b, snd ?s) = (ResultRetired r, t)" "rr_native_generation r = 2"
    by (simp add: xpc_retire_cases ProductionRouteRetirementReceipt_issued_def)
  from xpc_receipt_proves_absence [OF mock.xpc_helper_axioms xpc_connected h r(1) history_refl] r
  show ?thesis by (intro exI [of _ "snd ?s"] exI [of _ r] exI [of _ t]) simp
qed

end
