(* ===== verification/Production_Controller.thy ===== *)
theory Production_Controller
  imports Production_Session "HOL-Library.AList"
begin

section \<open>The production controller\<close>

text \<open>
  \<open>networking/production_controller.rs\<close>: the actor that owns the sidecar process of the production
  data plane, and the handle its clients hold.  The runtime (\<open>AsyncProductionRuntime\<close>) is a record of
  operations on a world \<open>'x\<close>.  A wait that \<open>tokio::time::timeout\<close> bounds answers \<open>None\<close> when the time
  is over, so that the runtime decides whether it was late.  The actor serves one command at a time: a
  history is the list of the commands in the order in which it takes them from its channel, with the
  operations of the handles between them.  A token (\<open>Arc<AtomicBool>\<close>) is a number, its identity; the
  numbers of the raised tokens stand for the flags, and what the runtime reads of a flag is part of its
  answer.  Instants and durations are milliseconds.  The channel itself and the zeroing of memory are
  not modelled.
\<close>

definition DIAGNOSTIC_CAPACITY :: nat where
  "DIAGNOSTIC_CAPACITY = 128"

definition STOP_TIMEOUT :: nat where
  "STOP_TIMEOUT = 5000"

record 'x AsyncProductionRuntime =
  ar_start :: "SidecarLaunchContext \<Rightarrow> 'x \<Rightarrow> SidecarHandshake net_result \<times> 'x"
  ar_request :: "nat \<Rightarrow> IpcRequest \<Rightarrow> nat \<Rightarrow> 'x \<Rightarrow> IpcResponse net_result option \<times> 'x"
  ar_status :: "'x \<Rightarrow> SidecarProcessStatus net_result \<times> 'x"
  ar_stop :: "nat \<Rightarrow> 'x \<Rightarrow> unit net_result option \<times> 'x"

datatype ProductionEventKind = EvStarted | EvRequestCompleted | EvCancelled | EvTimedOut | EvRestarting
  | EvCrashLoop | EvStopped | EvFailed

record ProductionEvent =
  pe_sequence :: u64
  pe_operation_id :: "string option"
  pe_kind :: ProductionEventKind
  pe_error :: "NetworkErrorCode option"

datatype ControllerAbsenceKind = NeverSpawned | Reaped

record ControllerRetirementReceipt =
  cr_runtime_generation :: u64
  cr_absence :: ControllerAbsenceKind

record CancellationRegistration =
  cg_request_id :: string
  cg_cancellable :: bool
  cg_token :: nat

text \<open>What the handles and the actor share, with the allocator of tokens and the flags set so far.\<close>

record ControllerCancellations =
  cc_registered :: "(string \<times> CancellationRegistration) list"
  cc_next_token :: nat
  cc_raised :: "nat list"

datatype ControllerMode = ModeReusable | ModeBrokerBound TunnelBrokerSessionReference bool

datatype ControllerStartOutcome = OutcomeReusable | OutcomeBrokerBound ControllerStartReceipt

record ProductionController =
  pc_context :: "SidecarLaunchContext option"
  pc_expected_auth_proof :: string
  pc_mode :: ControllerMode
  pc_state :: SidecarLifecycleState
  pc_cancellations :: ControllerCancellations
  pc_events :: "ProductionEvent list"
  pc_next_sequence :: u64
  pc_crashes :: u8
  pc_retry_at :: "nat option"
  pc_stop_timeout :: nat
  pc_runtime_generation :: u64
  pc_absence :: "ControllerAbsenceKind option"
  pc_retired :: bool

fun broker_bound :: "ControllerMode \<Rightarrow> bool" where
  "broker_bound ModeReusable = False"
| "broker_bound (ModeBrokerBound _ _) = True"

subsection \<open>The handle\<close>

definition register_cancellation ::
  "string \<Rightarrow> IpcRequest \<Rightarrow> ControllerCancellations \<Rightarrow> nat net_result \<times> ControllerCancellations" where
  "register_cancellation operation_id request h =
     (let token = cc_next_token h;
          registration = \<lparr>cg_request_id = rq_request_id request,
            cg_cancellable = (case rq_payload request of
                ConnectTransport _ \<Rightarrow> True | SampleHealth \<Rightarrow> True | _ \<Rightarrow> False),
            cg_token = token\<rparr>;
          h = h\<lparr>cc_next_token := Suc token\<rparr>
      in if map_of (cc_registered h) operation_id \<noteq> None then (Err InvalidStateTransition, h)
         else (Ok token, h\<lparr>cc_registered := AList.update operation_id registration (cc_registered h)\<rparr>))"

definition remove_cancellation ::
  "string \<Rightarrow> nat \<Rightarrow> ControllerCancellations \<Rightarrow> ControllerCancellations" where
  "remove_cancellation operation_id token h =
     (case map_of (cc_registered h) operation_id of
        None \<Rightarrow> h
      | Some registration \<Rightarrow>
          if cg_token registration = token
          then h\<lparr>cc_registered := AList.delete operation_id (cc_registered h)\<rparr> else h)"

definition handle_cancel ::
  "string \<Rightarrow> ControllerCancellations \<Rightarrow> unit net_result \<times> ControllerCancellations" where
  "handle_cancel operation_id h =
     (case map_of (cc_registered h) operation_id of
        None \<Rightarrow> (Err OperationCancelled, h)
      | Some registration \<Rightarrow>
          if \<not> cg_cancellable registration then (Err InvalidStateTransition, h)
          else (Ok (), h\<lparr>cc_raised := cg_token registration # cc_raised h\<rparr>))"

text \<open>A command the actor takes.  \<open>StartBound\<close> says whether the caller is still there for the answer, and
  \<open>Poll\<close> carries the instant at which it is served.\<close>

datatype ControllerCommand = CommandStart | CommandStartBound bool
  | CommandRequest string IpcRequest nat nat
  | CommandPoll nat | CommandHealth string IpcRequest nat nat
  | CommandDiagnostics | CommandShutdown | CommandRetire

definition handle_request ::
  "string \<Rightarrow> IpcRequest \<Rightarrow> nat \<Rightarrow> ControllerCancellations \<Rightarrow>
     ControllerCommand net_result \<times> ControllerCancellations" where
  "handle_request operation_id request timeout h =
     (if operation_id = [] \<or> timeout = 0 then (Err InvalidConfiguration, h)
      else case IpcRequest_validate_protocol request of
        Err e \<Rightarrow> (Err e, h)
      | Ok _ \<Rightarrow>
     (case register_cancellation operation_id request h of
        (Err e, h) \<Rightarrow> (Err e, h)
      | (Ok token, h) \<Rightarrow> (Ok (CommandRequest operation_id request token timeout), h)))"

definition handle_sample_health ::
  "string \<Rightarrow> IpcRequest \<Rightarrow> nat \<Rightarrow> ControllerCancellations \<Rightarrow>
     ControllerCommand net_result \<times> ControllerCancellations" where
  "handle_sample_health operation_id request timeout h =
     (if operation_id = [] \<or> timeout = 0 \<or> rq_payload request \<noteq> SampleHealth
      then (Err InvalidConfiguration, h)
      else case IpcRequest_validate_protocol request of
        Err e \<Rightarrow> (Err e, h)
      | Ok _ \<Rightarrow>
     (case register_cancellation operation_id request h of
        (Err e, h) \<Rightarrow> (Err e, h)
      | (Ok token, h) \<Rightarrow> (Ok (CommandHealth operation_id request token timeout), h)))"

subsection \<open>The actor\<close>

definition spawn_controller_actor ::
  "SidecarLaunchContext \<Rightarrow> string \<Rightarrow> nat \<Rightarrow> ControllerMode \<Rightarrow> ProductionController" where
  "spawn_controller_actor context expected_auth_proof stop_timeout mode =
     \<lparr>pc_context = Some context, pc_expected_auth_proof = expected_auth_proof, pc_mode = mode,
      pc_state = Stopped,
      pc_cancellations = \<lparr>cc_registered = [], cc_next_token = 0, cc_raised = []\<rparr>,
      pc_events = [], pc_next_sequence = 1, pc_crashes = 0, pc_retry_at = None,
      pc_stop_timeout = stop_timeout, pc_runtime_generation = 0,
      pc_absence = (if broker_bound mode then None else Some NeverSpawned), pc_retired = False\<rparr>"

definition spawn_production_controller :: "SidecarLaunchContext \<Rightarrow> string \<Rightarrow> ProductionController" where
  "spawn_production_controller context expected_auth_proof =
     spawn_controller_actor context expected_auth_proof STOP_TIMEOUT ModeReusable"

definition spawn_broker_bound_production_controller :: "BoundSidecarLaunch \<Rightarrow> ProductionController" where
  "spawn_broker_bound_production_controller bound_launch =
     (case BoundSidecarLaunch_into_parts bound_launch of
        (reference, context, expected_auth_proof) \<Rightarrow>
          spawn_controller_actor context expected_auth_proof STOP_TIMEOUT (ModeBrokerBound reference False))"

definition record_event ::
  "ProductionEventKind \<Rightarrow> string option \<Rightarrow> NetworkErrorCode option \<Rightarrow> ProductionController \<Rightarrow>
     ProductionController" where
  "record_event kind operation_id error c =
     (let events = (if length (pc_events c) = DIAGNOSTIC_CAPACITY then tl (pc_events c) else pc_events c);
          event = \<lparr>pe_sequence = pc_next_sequence c, pe_operation_id = operation_id, pe_kind = kind,
                   pe_error = error\<rparr>
      in c\<lparr>pc_events := events @ [event], pc_next_sequence := saturating_add (pc_next_sequence c) 1\<rparr>)"

definition stop_runtime_bounded ::
  "'x AsyncProductionRuntime \<Rightarrow> string option \<Rightarrow> ProductionController \<Rightarrow> 'x \<Rightarrow>
     unit net_result \<times> ProductionController \<times> 'x" where
  "stop_runtime_bounded R operation_id c x =
     (case ar_stop R (pc_stop_timeout c) x of (answer, x) \<Rightarrow>
      let result = (case answer of Some result \<Rightarrow> result | None \<Rightarrow> Err OperationTimedOut) in
      case result of
        Err error \<Rightarrow>
          (result, record_event EvFailed operation_id (Some error)
             (c\<lparr>pc_absence := None, pc_state := CrashLoop\<rparr>), x)
      | Ok _ \<Rightarrow>
          (result, c\<lparr>pc_absence := Some (if pc_runtime_generation c = 0
                      then (if broker_bound (pc_mode c) then Reaped else NeverSpawned) else Reaped),
                    pc_state := Stopped\<rparr>, x))"

text \<open>Stopping after an error that is reported as it is: \<open>let _ = self.stop_runtime_bounded(..).await\<close> with the
  event recorded next.\<close>

definition stop_and_record ::
  "'x AsyncProductionRuntime \<Rightarrow> string option \<Rightarrow> ProductionEventKind \<Rightarrow> NetworkErrorCode \<Rightarrow>
     ProductionController \<Rightarrow> 'x \<Rightarrow> ProductionController \<times> 'x" where
  "stop_and_record R operation_id kind error c x =
     (case stop_runtime_bounded R operation_id c x of
        (_, c, x) \<Rightarrow> (record_event kind operation_id (Some error) c, x))"

definition claim_generation :: "ProductionController \<Rightarrow> ProductionController net_result" where
  "claim_generation c =
     (if broker_bound (pc_mode c) \<and> (pc_runtime_generation c \<noteq> 0 \<or> pc_absence c \<noteq> None)
      then Err InvalidStateTransition
      else case checked_add (pc_runtime_generation c) 1 of
        None \<Rightarrow> Err InvalidStateTransition
      | Some generation \<Rightarrow> Ok (c\<lparr>pc_runtime_generation := generation\<rparr>))"

definition start_outcome ::
  "ProductionController \<Rightarrow> SidecarHandshake \<Rightarrow> ControllerStartOutcome net_result" where
  "start_outcome c handshake =
     (case pc_mode c of
        ModeReusable \<Rightarrow> Ok OutcomeReusable
      | ModeBrokerBound reference _ \<Rightarrow>
          (case ControllerStartReceipt_issue (pc_runtime_generation c) reference handshake
                  (pc_expected_auth_proof c) None of
             Err e \<Rightarrow> Err e
           | Ok receipt \<Rightarrow> Ok (OutcomeBrokerBound receipt)))"

definition controller_start ::
  "'x AsyncProductionRuntime \<Rightarrow> bool \<Rightarrow> ProductionController \<Rightarrow> 'x \<Rightarrow>
     ControllerStartOutcome net_result \<times> ProductionController \<times> 'x" where
  "controller_start R reset_crash_history c x =
     (if pc_state c \<noteq> Stopped then (Err InvalidStateTransition, c, x)
      else case claim_generation c of
        Err e \<Rightarrow> (Err e, c, x)
      | Ok c \<Rightarrow>
     (let c = c\<lparr>pc_absence := None, pc_state := Starting\<rparr> in
      case pc_context c of
        None \<Rightarrow> (Err InvalidStateTransition, c, x)
      | Some context \<Rightarrow>
     (case ar_start R context x of
        (Err primary, x) \<Rightarrow> (Err primary, stop_and_record R None EvFailed primary c x)
      | (Ok handshake, x) \<Rightarrow>
          if sh_protocol_version handshake \<noteq> NETWORK_IPC_PROTOCOL_VERSION
          then (Err UnsupportedProtocolVersion,
                stop_and_record R None EvFailed UnsupportedProtocolVersion c x)
          else if sh_instance_id handshake \<noteq> lc_instance_id context \<or>
                  sh_auth_proof handshake \<noteq> pc_expected_auth_proof c
          then (Err AuthenticationFailed, stop_and_record R None EvFailed AuthenticationFailed c x)
          else case start_outcome c handshake of
            Err error \<Rightarrow> (Err error, stop_and_record R None EvFailed error c x)
          | Ok outcome \<Rightarrow>
              let c = c\<lparr>pc_state := Running, pc_retry_at := None\<rparr>;
                  c = (if reset_crash_history then c\<lparr>pc_crashes := 0\<rparr> else c)
              in (Ok outcome, record_event EvStarted None None c, x))))"

definition controller_start_broker_bound ::
  "'x AsyncProductionRuntime \<Rightarrow> ProductionController \<Rightarrow> 'x \<Rightarrow>
     ControllerStartReceipt net_result \<times> ProductionController \<times> 'x" where
  "controller_start_broker_bound R c x =
     (case pc_mode c of
        ModeReusable \<Rightarrow> (Err InvalidStateTransition, c, x)
      | ModeBrokerBound reference start_consumed \<Rightarrow>
          if start_consumed then (Err InvalidStateTransition, c, x)
          else case controller_start R True (c\<lparr>pc_mode := ModeBrokerBound reference True\<rparr>) x of
            (Err e, c, x) \<Rightarrow> (Err e, c, x)
          | (Ok outcome, c, x) \<Rightarrow>
              (case outcome of
                 OutcomeBrokerBound receipt \<Rightarrow> (Ok receipt, c, x)
               | OutcomeReusable \<Rightarrow> (Err InvalidStateTransition, c, x)))"

definition controller_execute ::
  "'x AsyncProductionRuntime \<Rightarrow> string \<Rightarrow> IpcRequest \<Rightarrow> nat \<Rightarrow> nat \<Rightarrow> ProductionController \<Rightarrow> 'x \<Rightarrow>
     IpcResponse net_result \<times> ProductionController \<times> 'x" where
  "controller_execute R operation_id request cancel timeout c x =
     (if pc_state c \<noteq> Running then (Err InvalidStateTransition, c, x)
      else case IpcRequest_validate_protocol request of
        Err e \<Rightarrow> (Err e, c, x)
      | Ok _ \<Rightarrow>
     (case ar_request R timeout request cancel x of
        (None, x) \<Rightarrow>
          (Err OperationTimedOut, stop_and_record R (Some operation_id) EvTimedOut OperationTimedOut c x)
      | (Some (Err error), x) \<Rightarrow>
          (Err error,
           if error = OperationCancelled
           then (record_event EvCancelled (Some operation_id) (Some error) c, x)
           else stop_and_record R (Some operation_id)
             (if error = OperationTimedOut then EvTimedOut else EvFailed) error c x)
      | (Some (Ok response), x) \<Rightarrow>
          (case IpcResponse_validate_protocol request response of
             Err error \<Rightarrow> (Err error, stop_and_record R (Some operation_id) EvFailed error c x)
           | Ok _ \<Rightarrow>
               (Ok response, record_event EvRequestCompleted (Some operation_id)
                  (case rp_result response of Err e \<Rightarrow> Some (ie_code e) | Ok _ \<Rightarrow> None) c, x))))"

definition restart_delay_ms :: "u8 \<Rightarrow> u64" where
  "restart_delay_ms crashes =
     (let exponent = unat (min (saturating_sub crashes 1) 7)
      in min (saturating_mul 100 (push_bit exponent 1)) 10000)"

text \<open>What \<open>poll\<close> does once the runtime says that its process has exited.\<close>

definition controller_exited ::
  "nat \<Rightarrow> ProductionController \<Rightarrow> SidecarLifecycleState net_result \<times> ProductionController" where
  "controller_exited now c =
     (let c = c\<lparr>pc_absence := Some Reaped\<rparr> in
      if broker_bound (pc_mode c)
      then (Err SidecarUnavailable,
            record_event EvCrashLoop None (Some SidecarUnavailable)
              (c\<lparr>pc_state := CrashLoop, pc_retry_at := None\<rparr>))
      else let c = c\<lparr>pc_crashes := saturating_add (pc_crashes c) 1\<rparr> in
      if 3 < pc_crashes c
      then (Err SidecarUnavailable,
            record_event EvCrashLoop None (Some SidecarUnavailable) (c\<lparr>pc_state := CrashLoop\<rparr>))
      else (Ok Backoff,
            record_event EvRestarting None (Some SidecarUnavailable)
              (c\<lparr>pc_state := Backoff,
                 pc_retry_at := Some (now + unat (restart_delay_ms (pc_crashes c)))\<rparr>)))"

definition controller_poll ::
  "'x AsyncProductionRuntime \<Rightarrow> nat \<Rightarrow> ProductionController \<Rightarrow> 'x \<Rightarrow>
     SidecarLifecycleState net_result \<times> ProductionController \<times> 'x" where
  "controller_poll R now c x =
     (if pc_state c = Backoff
      then if (case pc_retry_at c of None \<Rightarrow> False | Some deadline \<Rightarrow> deadline \<le> now)
           then case controller_start R False (record_event EvRestarting None None (c\<lparr>pc_state := Stopped\<rparr>)) x of
               (Err e, c, x) \<Rightarrow> (Err e, c, x)
             | (Ok _, c, x) \<Rightarrow> (Ok (pc_state c), c, x)
           else (Ok (pc_state c), c, x)
      else if pc_state c \<noteq> Running then (Ok (pc_state c), c, x)
      else case ar_status R x of
        (Err error, x) \<Rightarrow> (Err error, stop_and_record R None EvFailed error c x)
      | (Ok status, x) \<Rightarrow>
          (case status of
             ProcessRunning \<Rightarrow> (Ok (pc_state c), c\<lparr>pc_crashes := 0, pc_absence := None\<rparr>, x)
           | ProcessExited _ \<Rightarrow> (case controller_exited now c of (r, c) \<Rightarrow> (r, c, x))))"

definition clear_cancellations :: "ProductionController \<Rightarrow> ProductionController" where
  "clear_cancellations c =
     c\<lparr>pc_cancellations := (pc_cancellations c)\<lparr>cc_registered := []\<rparr>\<rparr>"

definition controller_shutdown ::
  "'x AsyncProductionRuntime \<Rightarrow> ProductionController \<Rightarrow> 'x \<Rightarrow>
     unit net_result \<times> ProductionController \<times> 'x" where
  "controller_shutdown R c x =
     (case stop_runtime_bounded R None c x of
        (stop_result, c, x) \<Rightarrow>
          let c = clear_cancellations (c\<lparr>pc_crashes := 0, pc_retry_at := None\<rparr>)
          in case stop_result of
            Ok _ \<Rightarrow> (Ok (), record_event EvStopped None None c, x)
          | Err error \<Rightarrow> (Err error, c, x))"

text \<open>The second half of \<open>retire\<close>, from the question whether absence is proved; the secrets go with the receipt.\<close>

definition controller_finish_retirement ::
  "ProductionController \<Rightarrow> ControllerRetirementReceipt net_result \<times> ProductionController" where
  "controller_finish_retirement c =
     (case pc_absence c of
        None \<Rightarrow> (Err SidecarUnavailable, c)
      | Some absence \<Rightarrow>
          if (if broker_bound (pc_mode c) then absence \<noteq> Reaped
              else (pc_runtime_generation c = 0) \<noteq> (absence = NeverSpawned))
          then (Err InvalidStateTransition, c)
          else let c = c\<lparr>pc_retired := True, pc_retry_at := None, pc_context := None,
                         pc_expected_auth_proof := []\<rparr>
          in if pc_context c \<noteq> None \<or> pc_expected_auth_proof c \<noteq> [] then (Err AuthenticationFailed, c)
             else (Ok \<lparr>cr_runtime_generation = pc_runtime_generation c, cr_absence = absence\<rparr>, c))"

definition controller_retire ::
  "'x AsyncProductionRuntime \<Rightarrow> ProductionController \<Rightarrow> 'x \<Rightarrow>
     ControllerRetirementReceipt net_result \<times> ProductionController \<times> 'x" where
  "controller_retire R c x =
     (if pc_retired c \<or> pc_state c \<noteq> Stopped \<or> cc_registered (pc_cancellations c) \<noteq> []
      then (Err InvalidStateTransition, c, x)
      else if pc_absence c = None
      then case stop_runtime_bounded R None c x of
          (Err e, c, x) \<Rightarrow> (Err e, c, x)
        | (Ok _, c, x) \<Rightarrow> (case controller_finish_retirement c of (r, c) \<Rightarrow> (r, c, x))
      else (case controller_finish_retirement c of (r, c) \<Rightarrow> (r, c, x)))"

subsection \<open>The loop of the actor\<close>

datatype ControllerResponse = ResponseUnit "unit net_result"
  | ResponseStart "ControllerStartReceipt net_result"
  | ResponseIpc "IpcResponse net_result"
  | ResponseState "SidecarLifecycleState net_result"
  | ResponseEvents "ProductionEvent list"
  | ResponseRetire "ControllerRetirementReceipt net_result"

text \<open>A request and a health sample are served alike: executed, then taken out of the register.\<close>

definition serve_request ::
  "'x AsyncProductionRuntime \<Rightarrow> string \<Rightarrow> IpcRequest \<Rightarrow> nat \<Rightarrow> nat \<Rightarrow> ProductionController \<Rightarrow> 'x \<Rightarrow>
     ControllerResponse \<times> ProductionController \<times> 'x" where
  "serve_request R operation_id request cancel timeout c x =
     (case (if pc_retired c then (Err InvalidStateTransition, c, x)
            else controller_execute R operation_id request cancel timeout c x) of
        (result, c, x) \<Rightarrow>
          (ResponseIpc result,
           c\<lparr>pc_cancellations := remove_cancellation operation_id cancel (pc_cancellations c)\<rparr>, x))"

definition serve_start_bound ::
  "'x AsyncProductionRuntime \<Rightarrow> bool \<Rightarrow> ProductionController \<Rightarrow> 'x \<Rightarrow>
     ControllerResponse \<times> ProductionController \<times> 'x" where
  "serve_start_bound R claimed c x =
     (case (if pc_retired c then (Err InvalidStateTransition, c, x)
            else controller_start_broker_bound R c x) of
        (result, c, x) \<Rightarrow>
          if is_ok result \<and> \<not> claimed
          then case stop_runtime_bounded R None c x of
              (Ok _, c, x) \<Rightarrow> (ResponseStart result, record_event EvStopped None None c, x)
            | (Err _, c, x) \<Rightarrow> (ResponseStart result, c, x)
          else (ResponseStart result, c, x))"

fun controller_serve ::
  "'x AsyncProductionRuntime \<Rightarrow> ControllerCommand \<Rightarrow> ProductionController \<Rightarrow> 'x \<Rightarrow>
     ControllerResponse \<times> ProductionController \<times> 'x" where
  "controller_serve R CommandStart c x =
     (if pc_retired c \<or> pc_mode c \<noteq> ModeReusable then (ResponseUnit (Err InvalidStateTransition), c, x)
      else case controller_start R True c x of
        (Err e, c, x) \<Rightarrow> (ResponseUnit (Err e), c, x)
      | (Ok outcome, c, x) \<Rightarrow>
          (ResponseUnit (case outcome of OutcomeReusable \<Rightarrow> Ok ()
             | OutcomeBrokerBound _ \<Rightarrow> Err InvalidStateTransition), c, x))"
| "controller_serve R (CommandStartBound claimed) c x = serve_start_bound R claimed c x"
| "controller_serve R (CommandRequest operation_id request cancel timeout) c x =
     serve_request R operation_id request cancel timeout c x"
| "controller_serve R (CommandPoll now) c x =
     (case (if pc_retired c then (Err InvalidStateTransition, c, x) else controller_poll R now c x) of
        (r, c, x) \<Rightarrow> (ResponseState r, c, x))"
| "controller_serve R (CommandHealth operation_id request cancel timeout) c x =
     serve_request R operation_id request cancel timeout c x"
| "controller_serve R CommandDiagnostics c x = (ResponseEvents (pc_events c), c, x)"
| "controller_serve R CommandShutdown c x =
     (case (if pc_retired c then (Err InvalidStateTransition, c, x) else controller_shutdown R c x) of
        (r, c, x) \<Rightarrow> (ResponseUnit r, c, x))"
| "controller_serve R CommandRetire c x =
     (case controller_retire R c x of (r, c, x) \<Rightarrow> (ResponseRetire r, c, x))"

text \<open>After the last handle is gone.\<close>

definition controller_close ::
  "'x AsyncProductionRuntime \<Rightarrow> ProductionController \<Rightarrow> 'x \<Rightarrow> ProductionController \<times> 'x" where
  "controller_close R c x =
     (case (if \<not> pc_retired c \<and> (pc_state c \<noteq> Stopped \<or> pc_absence c = None)
            then snd (stop_runtime_bounded R None c x) else (c, x)) of
        (c, x) \<Rightarrow> (clear_cancellations c, x))"

text \<open>
  One step of the controller with its handles: the actor serves a command, a handle admits a request or a
  health sample, cancels an operation, or takes its own operation out of the register.
\<close>

datatype ControllerStep = Serve ControllerCommand | HandleRequest string IpcRequest nat
  | HandleHealth string IpcRequest nat | HandleCancel string | HandleRelease string nat

fun controller_step ::
  "'x AsyncProductionRuntime \<Rightarrow> ControllerStep \<Rightarrow> ProductionController \<times> 'x \<Rightarrow> ProductionController \<times> 'x" where
  "controller_step R (Serve command) (c, x) = snd (controller_serve R command c x)"
| "controller_step R (HandleRequest operation_id request timeout) (c, x) =
     (c\<lparr>pc_cancellations := snd (handle_request operation_id request timeout (pc_cancellations c))\<rparr>, x)"
| "controller_step R (HandleHealth operation_id request timeout) (c, x) =
     (c\<lparr>pc_cancellations := snd (handle_sample_health operation_id request timeout (pc_cancellations c))\<rparr>, x)"
| "controller_step R (HandleCancel operation_id) (c, x) =
     (c\<lparr>pc_cancellations := snd (handle_cancel operation_id (pc_cancellations c))\<rparr>, x)"
| "controller_step R (HandleRelease operation_id token) (c, x) =
     (c\<lparr>pc_cancellations := remove_cancellation operation_id token (pc_cancellations c)\<rparr>, x)"

subsection \<open>Facts about the operations\<close>

lemma record_event_fields [simp]:
  "pc_context (record_event k op e c) = pc_context c"
  "pc_expected_auth_proof (record_event k op e c) = pc_expected_auth_proof c"
  "pc_mode (record_event k op e c) = pc_mode c"
  "pc_state (record_event k op e c) = pc_state c"
  "pc_cancellations (record_event k op e c) = pc_cancellations c"
  "pc_crashes (record_event k op e c) = pc_crashes c"
  "pc_retry_at (record_event k op e c) = pc_retry_at c"
  "pc_stop_timeout (record_event k op e c) = pc_stop_timeout c"
  "pc_runtime_generation (record_event k op e c) = pc_runtime_generation c"
  "pc_absence (record_event k op e c) = pc_absence c"
  "pc_retired (record_event k op e c) = pc_retired c"
  by (simp_all add: record_event_def Let_def)

lemma clear_cancellations_fields [simp]:
  "pc_context (clear_cancellations c) = pc_context c"
  "pc_expected_auth_proof (clear_cancellations c) = pc_expected_auth_proof c"
  "pc_mode (clear_cancellations c) = pc_mode c"
  "pc_state (clear_cancellations c) = pc_state c"
  "pc_crashes (clear_cancellations c) = pc_crashes c"
  "pc_stop_timeout (clear_cancellations c) = pc_stop_timeout c"
  "pc_runtime_generation (clear_cancellations c) = pc_runtime_generation c"
  "pc_absence (clear_cancellations c) = pc_absence c"
  "pc_retired (clear_cancellations c) = pc_retired c"
  "cc_registered (pc_cancellations (clear_cancellations c)) = []"
  by (simp_all add: clear_cancellations_def)

lemma stop_cases:
  obtains (Reaps) x' where "ar_stop R (pc_stop_timeout c) x = (Some (Ok ()), x')"
    and "stop_runtime_bounded R op c x =
      (Ok (), c\<lparr>pc_absence := Some (if pc_runtime_generation c = 0
                  then (if broker_bound (pc_mode c) then Reaped else NeverSpawned) else Reaped),
                pc_state := Stopped\<rparr>, x')"
  | (Fails) e x' where "snd (ar_stop R (pc_stop_timeout c) x) = x'"
    and "fst (ar_stop R (pc_stop_timeout c) x) \<noteq> Some (Ok ())"
    and "stop_runtime_bounded R op c x =
      (Err e, record_event EvFailed op (Some e) (c\<lparr>pc_absence := None, pc_state := CrashLoop\<rparr>), x')"
proof -
  obtain answer x' where stop: "ar_stop R (pc_stop_timeout c) x = (answer, x')"
    by (cases "ar_stop R (pc_stop_timeout c) x")
  show thesis
  proof (cases "case answer of Some result \<Rightarrow> result | None \<Rightarrow> Err OperationTimedOut")
    case (Err e)
    then have "answer \<noteq> Some (Ok ())" by auto
    with Err show thesis by (intro Fails [of x' e]) (simp_all add: stop_runtime_bounded_def stop)
  next
    case (Ok u)
    then have "answer = Some (Ok ())" by (cases answer) auto
    with stop show thesis by (intro Reaps [of x']) (simp_all add: stop_runtime_bounded_def)
  qed
qed

text \<open>What stopping leaves alone, whatever the runtime answers.\<close>

lemma stop_frame:
  assumes "stop_runtime_bounded R op c x = (r, c', x')"
  shows "pc_context c' = pc_context c" "pc_expected_auth_proof c' = pc_expected_auth_proof c"
    "pc_mode c' = pc_mode c" "pc_crashes c' = pc_crashes c" "pc_retired c' = pc_retired c"
    "pc_runtime_generation c' = pc_runtime_generation c" "pc_cancellations c' = pc_cancellations c"
    "pc_stop_timeout c' = pc_stop_timeout c" "pc_state c' = (if is_ok r then Stopped else CrashLoop)"
    "x' = snd (ar_stop R (pc_stop_timeout c) x)"
  using assms by (cases rule: stop_cases [where R = R and op = op and c = c and x = x]; auto)+

lemma stop_and_record_frame:
  assumes "stop_and_record R op k e c x = (c', x')"
  shows "pc_context c' = pc_context c" "pc_expected_auth_proof c' = pc_expected_auth_proof c"
    "pc_mode c' = pc_mode c" "pc_crashes c' = pc_crashes c" "pc_retired c' = pc_retired c"
    "pc_runtime_generation c' = pc_runtime_generation c" "pc_cancellations c' = pc_cancellations c"
    "pc_stop_timeout c' = pc_stop_timeout c" "pc_state c' \<in> {Stopped, CrashLoop}"
    "x' = snd (ar_stop R (pc_stop_timeout c) x)"
  using assms by (cases rule: stop_cases [where R = R and op = op and c = c and x = x];
    auto simp: stop_and_record_def)+

lemma claim_generation_Ok:
  assumes "claim_generation c = Ok c'"
  shows "c' = c\<lparr>pc_runtime_generation := pc_runtime_generation c + 1\<rparr> \<and>
    unat (pc_runtime_generation c') = unat (pc_runtime_generation c) + 1 \<and>
    (broker_bound (pc_mode c) \<longrightarrow> pc_runtime_generation c = 0 \<and> pc_absence c = None)"
  using assms
  by (auto simp: claim_generation_def checked_add_def unat_word_ariths(1) split: if_splits)

text \<open>The ways in which a start ends: refused with nothing done, without a launch context, stopped after the runtime
  was entered, or running.\<close>

definition entered :: "ProductionController \<Rightarrow> ProductionController" where
  "entered c = c\<lparr>pc_runtime_generation := pc_runtime_generation c + 1, pc_absence := None, pc_state := Starting\<rparr>"

definition started :: "bool \<Rightarrow> ProductionController \<Rightarrow> ProductionController" where
  "started reset c =
     record_event EvStarted None None
       (if reset then (entered c)\<lparr>pc_state := Running, pc_retry_at := None, pc_crashes := 0\<rparr>
        else (entered c)\<lparr>pc_state := Running, pc_retry_at := None\<rparr>)"

lemma start_cases:
  assumes "controller_start R reset c x = (r, c', x')"
  obtains (Refused) e where "r = Err e" and "c' = c" and "x' = x"
  | (Contextless) e where "r = Err e" and "pc_context c = None" and "c' = entered c" and "x' = x"
      and "pc_state c = Stopped" and "claim_generation c = Ok (c\<lparr>pc_runtime_generation := pc_runtime_generation c + 1\<rparr>)"
  | (Stopped) ctx e k x1 where "r = Err e" and "pc_context c = Some ctx"
      and "snd (ar_start R ctx x) = x1" and "(c', x') = stop_and_record R None EvFailed k (entered c) x1"
      and "pc_state c = Stopped" and "claim_generation c = Ok (c\<lparr>pc_runtime_generation := pc_runtime_generation c + 1\<rparr>)"
  | (Running) ctx handshake outcome where "r = Ok outcome" and "pc_context c = Some ctx"
      and "ar_start R ctx x = (Ok handshake, x')"
      and "sh_protocol_version handshake = NETWORK_IPC_PROTOCOL_VERSION"
      and "sh_instance_id handshake = lc_instance_id ctx"
      and "sh_auth_proof handshake = pc_expected_auth_proof c"
      and "start_outcome (entered c) handshake = Ok outcome"
      and "c' = started reset c"
      and "pc_state c = Stopped" and "claim_generation c = Ok (c\<lparr>pc_runtime_generation := pc_runtime_generation c + 1\<rparr>)"
proof (cases "claim_generation c")
  case (Err e)
  then show thesis
    using assms Refused by (auto simp: controller_start_def split: if_splits)
next
  case (Ok c1)
  from claim_generation_Ok [OF this]
  have c1: "c1 = c\<lparr>pc_runtime_generation := pc_runtime_generation c + 1\<rparr>" by simp
  show thesis
  proof (cases "pc_state c = SidecarLifecycleState.Stopped")
    case False
    with assms Refused show thesis by (auto simp: controller_start_def)
  next
    case stopped: True
    show thesis
    proof (cases "pc_context c")
      case None
      with assms stopped Ok c1 Contextless show thesis
        by (auto simp: controller_start_def Let_def entered_def)
    next
      case (Some ctx)
      obtain a x1 where start: "ar_start R ctx x = (a, x1)" by (cases "ar_start R ctx x")
      have claim: "claim_generation c = Ok (c\<lparr>pc_runtime_generation := pc_runtime_generation c + 1\<rparr>)"
        using Ok c1 by simp
      have run: "controller_start R reset c x = (case a of
          Err primary \<Rightarrow> (Err primary, stop_and_record R None EvFailed primary (entered c) x1)
        | Ok handshake \<Rightarrow>
            if sh_protocol_version handshake \<noteq> NETWORK_IPC_PROTOCOL_VERSION
            then (Err UnsupportedProtocolVersion,
                  stop_and_record R None EvFailed UnsupportedProtocolVersion (entered c) x1)
            else if sh_instance_id handshake \<noteq> lc_instance_id ctx \<or>
                    sh_auth_proof handshake \<noteq> pc_expected_auth_proof c
            then (Err AuthenticationFailed,
                  stop_and_record R None EvFailed AuthenticationFailed (entered c) x1)
            else case start_outcome (entered c) handshake of
              Err error \<Rightarrow> (Err error, stop_and_record R None EvFailed error (entered c) x1)
            | Ok outcome \<Rightarrow> (Ok outcome, started reset c, x1))"
        by (cases a; cases reset)
          (simp_all add: controller_start_def Let_def entered_def started_def stopped Some start claim
            cong: result.case_cong if_cong)
      have fail: thesis
        if "(Err e, stop_and_record R None EvFailed e (entered c) x1) = (r, c', x')" for e
        using Stopped [of e ctx x1 e] that by (simp add: Some start stopped claim)
      show thesis
      proof (cases a)
        case (Err e)
        with run assms fail [of e] show thesis by simp
      next
        case (Ok h)
        show thesis
          using assms unfolding run Ok result.case
        proof (elim case_ifE case_resultE, goal_cases)
          case 1 then show ?case by (intro fail)
        next
          case 2 then show ?case by (intro fail)
        next
          case 3 then show ?case by (intro fail)
        next
          case (4 outcome) then show ?case
            using Running [of outcome ctx h] Some start stopped claim Ok by simp
        qed
      qed
    qed
  qed
qed

subsection \<open>Absence is proved before it is reported\<close>

text \<open>
  What the controller relies on: a stop that succeeds and an exit that is reported have reaped the child.
  Nothing is assumed of a start, a request or a stop that fails or is late.
\<close>

locale production_runtime =
  fixes R :: "'x AsyncProductionRuntime" and child :: "'x \<Rightarrow> bool"
  assumes stop_reaps: "ar_stop R t x = (Some (Ok ()), x') \<Longrightarrow> \<not> child x'"
    and exit_reaps: "ar_status R x = (Ok (ProcessExited b), x') \<Longrightarrow> \<not> child x'"

definition absence_accounted :: "('x \<Rightarrow> bool) \<Rightarrow> ProductionController \<Rightarrow> 'x \<Rightarrow> bool" where
  "absence_accounted child c x \<longleftrightarrow>
     (pc_state c = Running \<longrightarrow> pc_runtime_generation c \<noteq> 0) \<and>
     (case pc_absence c of None \<Rightarrow> True
      | Some k \<Rightarrow> \<not> child x \<and> pc_state c \<noteq> Running \<and>
          (k = NeverSpawned \<longleftrightarrow> \<not> broker_bound (pc_mode c) \<and> pc_runtime_generation c = 0))"

lemma accounted_unknown:
  "pc_absence c = None \<Longrightarrow> pc_state c = Running \<longrightarrow> pc_runtime_generation c \<noteq> 0 \<Longrightarrow>
     absence_accounted child c x"
  by (simp add: absence_accounted_def)

lemma accounted_running:
  "absence_accounted child c x \<Longrightarrow> pc_state c = Running \<Longrightarrow>
     pc_absence c = None \<and> pc_runtime_generation c \<noteq> 0"
  by (auto simp: absence_accounted_def split: option.splits)

lemma accounted_cong:
  assumes "pc_absence c' = pc_absence c" and "pc_state c' \<noteq> Running \<or> pc_state c' = pc_state c"
    and "broker_bound (pc_mode c') = broker_bound (pc_mode c)"
    and "pc_runtime_generation c' = pc_runtime_generation c"
  shows "absence_accounted child c x \<Longrightarrow> absence_accounted child c' x"
  using assms by (auto simp: absence_accounted_def split: option.splits)

lemma accounted_bookkeeping [simp]:
  "absence_accounted child (record_event k op e c) x = absence_accounted child c x"
  "absence_accounted child (c\<lparr>pc_cancellations := h\<rparr>) x = absence_accounted child c x"
  by (simp_all add: absence_accounted_def split: option.split)

context production_runtime
begin

lemma stop_accounted:
  assumes "stop_runtime_bounded R op c x = (r, c', x')"
  shows "absence_accounted child c' x'"
  using assms stop_reaps [of "pc_stop_timeout c" x x']
  by (cases rule: stop_cases [where R = R and op = op and c = c and x = x])
    (auto simp: absence_accounted_def)

lemma stop_and_record_accounted:
  assumes "stop_and_record R op k e c x = (c', x')"
  shows "absence_accounted child c' x'"
proof -
  obtain r c1 where "stop_runtime_bounded R op c x = (r, c1, x')" "c' = record_event k op (Some e) c1"
    using assms by (auto simp: stop_and_record_def split: prod.splits)
  then show ?thesis using stop_accounted by simp
qed

lemma start_accounted:
  assumes "controller_start R reset c x = (r, c', x')" and "absence_accounted child c x"
  shows "absence_accounted child c' x'"
  using assms(1)
proof (cases rule: start_cases)
  case (Stopped ctx e k x1)
  then show ?thesis using stop_and_record_accounted by metis
next
  case (Running ctx handshake outcome)
  from claim_generation_Ok [OF Running(10)] have "pc_runtime_generation c + 1 \<noteq> 0" by auto
  with Running(8) show ?thesis by (simp add: accounted_unknown entered_def started_def)
qed (use assms(2) in \<open>simp_all add: accounted_unknown entered_def\<close>)

lemma execute_accounted:
  assumes "controller_execute R op request cancel timeout c x = (r, c', x')" and "absence_accounted child c x"
  shows "absence_accounted child c' x'"
proof (cases "pc_state c = Running \<and> IpcRequest_validate_protocol request = Ok ()")
  case False
  with assms show ?thesis by (auto simp: controller_execute_def split: if_splits result.splits)
next
  case True
  with accounted_running [OF assms(2)] have unknown: "pc_absence c = None" "pc_runtime_generation c \<noteq> 0" by auto
  have running: "pc_state c = Running" "IpcRequest_validate_protocol request = Ok ()" using True by auto
  obtain a x1 where a: "ar_request R timeout request cancel x = (a, x1)"
    by (cases "ar_request R timeout request cancel x")
  show ?thesis
    using assms(1)
    by (cases a; cases "the a")
      (auto simp: controller_execute_def running a unknown intro: accounted_unknown
        dest: stop_and_record_accounted split: if_splits result.splits)
qed

lemma exited_accounted:
  assumes "controller_exited now c = (r, c')" and "\<not> child x"
    and "pc_runtime_generation c \<noteq> 0"
  shows "absence_accounted child c' x"
  using assms by (auto simp: controller_exited_def Let_def absence_accounted_def split: if_splits)

lemma poll_accounted:
  assumes "controller_poll R now c x = (r, c', x')" and ok: "absence_accounted child c x"
  shows "absence_accounted child c' x'"
  using assms(1) unfolding controller_poll_def
proof (elim case_run2E case_runE case_ifE, goal_cases)
  case (1 e c1 x1)
  then show ?case using start_accounted [OF 1(3)] accounted_cong [OF _ _ _ _ ok] by auto
next
  case (2 v c1 x1)
  then show ?case using start_accounted [OF 2(3)] accounted_cong [OF _ _ _ _ ok] by auto
next
  case (5 e x1)
  then show ?case using stop_and_record_accounted by auto
next
  case (6 status x1)
  from accounted_running [OF ok] 6(2) have "pc_runtime_generation c \<noteq> 0" by simp
  with 6 exit_reaps exited_accounted show ?case
    by (auto intro: accounted_unknown split: SidecarProcessStatus.splits prod.splits)
qed (use ok in auto)

lemma shutdown_accounted:
  assumes "controller_shutdown R c x = (r, c', x')"
  shows "absence_accounted child c' x'"
proof -
  obtain r1 c1 where "stop_runtime_bounded R None c x = (r1, c1, x')"
    "pc_absence c' = pc_absence c1" "pc_state c' = pc_state c1" "pc_mode c' = pc_mode c1"
    "pc_runtime_generation c' = pc_runtime_generation c1"
    using assms by (auto simp: controller_shutdown_def Let_def split: prod.splits result.splits)
  then show ?thesis by (auto intro: accounted_cong [OF _ _ _ _ stop_accounted])
qed

lemma finish_accounted:
  assumes "controller_finish_retirement c = (r, c')" and "absence_accounted child c x"
  shows "absence_accounted child c' x"
  using assms by (auto simp: controller_finish_retirement_def absence_accounted_def Let_def
      split: option.splits if_splits)

lemma retire_accounted:
  assumes "controller_retire R c x = (r, c', x')" and ok: "absence_accounted child c x"
  shows "absence_accounted child c' x'"
  using assms(1) unfolding controller_retire_def
proof (elim case_run2E case_ifE, goal_cases)
  case (2 e c1 x1)
  then show ?case using stop_accounted by auto
next
  case (3 v c1 x1)
  then show ?case using finish_accounted [OF _ stop_accounted] by (auto split: prod.splits)
next
  case 4
  then show ?case using finish_accounted [OF _ ok] by (auto split: prod.splits)
qed (use ok in auto)

lemma start_broker_bound_accounted:
  assumes "controller_start_broker_bound R c x = (r, c', x')" and ok: "absence_accounted child c x"
  shows "absence_accounted child c' x'"
proof (cases "pc_mode c")
  case ModeReusable
  with assms show ?thesis by (simp add: controller_start_broker_bound_def)
next
  case (ModeBrokerBound reference consumed)
  let ?c = "c\<lparr>pc_mode := ModeBrokerBound reference True\<rparr>"
  have "absence_accounted child ?c x" by (rule accounted_cong [OF _ _ _ _ ok]) (simp_all add: ModeBrokerBound)
  then show ?thesis
    using assms ModeBrokerBound start_accounted [of True ?c x]
    by (auto simp: controller_start_broker_bound_def split: if_splits prod.splits result.splits
        ControllerStartOutcome.splits)
qed

lemma serve_accounted:
  assumes "absence_accounted child c x"
  shows "case snd (controller_serve R command c x) of (c', x') \<Rightarrow> absence_accounted child c' x'"
proof (cases command)
  case CommandStart
  then show ?thesis using assms start_accounted [of True c x]
    by (auto split: prod.splits result.splits)
next
  case (CommandStartBound claimed)
  then show ?thesis using assms start_broker_bound_accounted [of c x] stop_accounted
    by (auto simp: serve_start_bound_def split: prod.splits result.splits if_splits)
qed (use assms execute_accounted poll_accounted shutdown_accounted retire_accounted in
  \<open>auto simp: serve_request_def split: prod.splits if_splits\<close>)

lemma step_accounted:
  assumes "controller_step R step (c, x) = (c', x')" and "absence_accounted child c x"
  shows "absence_accounted child c' x'"
proof (cases step)
  case (Serve command)
  then show ?thesis using assms serve_accounted [OF assms(2), of command] by simp
qed (use assms in auto)

lemma steps_accounted:
  assumes "fold (controller_step R) steps (c, x) = (c', x')" and "absence_accounted child c x"
  shows "absence_accounted child c' x'"
  using assms
proof (induction steps arbitrary: c x)
  case (Cons step steps)
  obtain c1 x1 where "controller_step R step (c, x) = (c1, x1)" by fastforce
  with Cons step_accounted show ?case by simp
qed simp

end

lemma spawn_accounted:
  assumes "broker_bound mode \<or> \<not> child x"
  shows "absence_accounted child (spawn_controller_actor ctx auth_proof stop_timeout mode) x"
  using assms by (auto simp: absence_accounted_def spawn_controller_actor_def)

lemma retire_Ok:
  assumes "controller_retire R c x = (Ok receipt, c', x')"
  shows "pc_retired c'" "pc_context c' = None" "pc_expected_auth_proof c' = []"
    "pc_absence c' = Some (cr_absence receipt)"
    "pc_runtime_generation c' = cr_runtime_generation receipt" "pc_mode c' = pc_mode c"
  using assms stop_frame(3) [of R None c x]
  by (auto simp: controller_retire_def controller_finish_retirement_def Let_def
      split: if_splits prod.splits result.splits option.splits)

text \<open>Retirement leaves an actor that answers and does nothing else.\<close>

lemma retired_step:
  assumes "pc_retired c"
  shows "\<exists>h. controller_step R step (c, x) = (c\<lparr>pc_cancellations := h\<rparr>, x)"
proof (cases step)
  case (Serve command)
  then show ?thesis
    using assms by (cases command)
      (auto simp: serve_start_bound_def serve_request_def controller_retire_def
        intro: exI [of _ "pc_cancellations c"])
qed auto

lemma retired_steps:
  assumes "pc_retired c"
  shows "\<exists>h. fold (controller_step R) steps (c, x) = (c\<lparr>pc_cancellations := h\<rparr>, x)"
  using assms
proof (induction steps arbitrary: c)
  case Nil
  then show ?case by (auto intro: exI [of _ "pc_cancellations c"])
next
  case (Cons step steps)
  obtain h where h: "controller_step R step (c, x) = (c\<lparr>pc_cancellations := h\<rparr>, x)"
    using retired_step [OF Cons.prems, of R step x] by blast
  have "pc_retired (c\<lparr>pc_cancellations := h\<rparr>)" using Cons.prems by simp
  from Cons.IH [OF this] h show ?case by simp
qed

text \<open>
  Claim C15. A retirement receipt of the controller is a proof of absence and it is final.  For every
  runtime whose successful stops and reported exits have reaped the child, after any sequence of
  commands, admissions, cancellations, time-outs and failures, a receipt is issued only when no child is
  left, it says that none was ever spawned exactly for a reusable controller of generation zero, and
  from then on no step and no teardown reaches the runtime again, the launch secrets stay erased and no
  second receipt is given.
\<close>

theorem retirement_is_final:
  assumes "production_runtime R child" and "broker_bound mode \<or> \<not> child x0"
    and "fold (controller_step R) steps (spawn_controller_actor ctx auth_proof stop_timeout mode, x0) = (c, x)"
    and "controller_retire R c x = (Ok receipt, c', x')"
    and "fold (controller_step R) later (c', x') = (c'', x'')"
  shows "\<not> child x' \<and> x'' = x' \<and> snd (controller_close R c'' x'') = x' \<and>
    (cr_absence receipt = NeverSpawned \<longleftrightarrow> \<not> broker_bound (pc_mode c) \<and> cr_runtime_generation receipt = 0) \<and>
    pc_context c'' = None \<and> pc_expected_auth_proof c'' = [] \<and>
    controller_retire R c'' x'' = (Err InvalidStateTransition, c'', x'')"
proof -
  note ok = retire_Ok [OF assms(4)]
  have "absence_accounted child c' x'"
    by (rule production_runtime.retire_accounted [OF assms(1,4)
          production_runtime.steps_accounted [OF assms(1,3) spawn_accounted [where child = child, OF assms(2)]]])
  moreover obtain h where "c'' = c'\<lparr>pc_cancellations := h\<rparr>" "x'' = x'"
    using retired_steps [OF ok(1), of R later x'] assms(5) by auto
  ultimately show ?thesis
    using ok by (simp add: absence_accounted_def controller_close_def controller_retire_def)
qed

text \<open>
  Every controller that is not yet retired can be, whatever state it is in: a stop that succeeds in time lets a
  shutdown succeed, and a retirement after it needs no other call to the runtime.
\<close>

lemma shutdown_retires:
  assumes "\<not> pc_retired c" and "ar_stop R (pc_stop_timeout c) x = (Some (Ok ()), x')"
  shows "\<exists>c1 c2 receipt. controller_shutdown R c x = (Ok (), c1, x') \<and>
    controller_retire R c1 x' = (Ok receipt, c2, x') \<and>
    cr_runtime_generation receipt = pc_runtime_generation c"
  using assms
  by (simp add: controller_shutdown_def stop_runtime_bounded_def Let_def controller_retire_def
      controller_finish_retirement_def)

subsection \<open>A broker-bound launch is used once\<close>

text \<open>The runtime with a count of the calls that enter its start.\<close>

locale counted_runtime =
  fixes R :: "'x AsyncProductionRuntime" and starts :: "'x \<Rightarrow> nat"
  assumes count_start: "starts (snd (ar_start R ctx x)) = Suc (starts x)"
    and count_request: "starts (snd (ar_request R t request token x)) = starts x"
    and count_status: "starts (snd (ar_status R x)) = starts x"
    and count_stop: "starts (snd (ar_stop R t x)) = starts x"

definition launch_right ::
  "TunnelBrokerSessionReference \<Rightarrow> SidecarLaunchContext \<Rightarrow> string \<Rightarrow> nat \<Rightarrow> ProductionController \<Rightarrow> nat \<Rightarrow> bool" where
  "launch_right reference ctx auth_proof n c entries \<longleftrightarrow>
     (case pc_mode c of
        ModeReusable \<Rightarrow> False
      | ModeBrokerBound bound consumed \<Rightarrow> bound = reference \<and>
          n \<le> entries \<and> entries \<le> (if consumed then Suc n else n)) \<and>
     pc_state c \<noteq> Backoff \<and>
     (case pc_context c of None \<Rightarrow> True | Some own \<Rightarrow> own = ctx \<and> pc_expected_auth_proof c = auth_proof)"

lemma launch_right_cong:
  assumes "launch_right reference ctx auth_proof n c entries" and "pc_mode c' = pc_mode c"
    and "pc_state c' \<noteq> Backoff \<or> pc_state c' = pc_state c"
    and "pc_context c' = pc_context c" and "pc_expected_auth_proof c' = pc_expected_auth_proof c"
  shows "launch_right reference ctx auth_proof n c' entries"
  using assms(1,3) unfolding launch_right_def assms(2,4,5) by auto

lemma launch_right_bookkeeping [simp]:
  "launch_right reference ctx auth_proof n (record_event k op e c) m = launch_right reference ctx auth_proof n c m"
  "launch_right reference ctx auth_proof n (c\<lparr>pc_cancellations := h\<rparr>) m = launch_right reference ctx auth_proof n c m"
  "launch_right reference ctx auth_proof n (clear_cancellations c) m = launch_right reference ctx auth_proof n c m"
  by (simp_all add: launch_right_def split: option.split)

lemma launch_right_bound: "launch_right reference ctx auth_proof n c m \<Longrightarrow> broker_bound (pc_mode c)"
  by (cases "pc_mode c") (auto simp: launch_right_def)

lemma start_outcome_bound:
  assumes "start_outcome c handshake = Ok (OutcomeBrokerBound receipt)"
    and "pc_mode c = ModeBrokerBound reference consumed"
  shows "rc_runtime_generation receipt = pc_runtime_generation c \<and> rc_broker_reference receipt = reference \<and>
    sh_instance_id handshake = tb_sidecar_instance_id reference"
  using assms(1) unfolding start_outcome_def assms(2) ControllerMode.case ControllerStartReceipt_issue_def
  by (simp split: result.splits if_splits) auto

text \<open>
  What becomes of an accepted start: the process runs for the caller that takes the receipt; otherwise the
  runtime is told to stop, and only a stop that succeeds counts as a proof of absence.
\<close>

definition start_settled ::
  "'x AsyncProductionRuntime \<Rightarrow> bool \<Rightarrow> nat \<Rightarrow> 'x \<Rightarrow> ProductionController \<Rightarrow> 'x \<Rightarrow> bool" where
  "start_settled R claimed t x1 c x \<longleftrightarrow>
     (if claimed then x = x1 \<and> pc_state c = Running
      else x = snd (ar_stop R t x1) \<and>
        pc_absence c = (if fst (ar_stop R t x1) = Some (Ok ()) then Some Reaped else None))"

context counted_runtime
begin

lemma stop_right:
  assumes "stop_runtime_bounded R op c x = (r, c', x')"
    and "launch_right reference ctx auth_proof n c (starts x)"
  shows "launch_right reference ctx auth_proof n c' (starts x')"
proof -
  have "launch_right reference ctx auth_proof n c' (starts x)"
    by (rule launch_right_cong [OF assms(2)]) (use stop_frame [OF assms(1)] in auto)
  then show ?thesis using stop_frame(10) [OF assms(1)] count_stop [of "pc_stop_timeout c" x] by simp
qed

lemma stop_and_record_right:
  assumes "stop_and_record R op k e c x = (c', x')"
    and "launch_right reference ctx auth_proof n c (starts x)"
  shows "launch_right reference ctx auth_proof n c' (starts x')"
proof -
  have "launch_right reference ctx auth_proof n c' (starts x)"
    by (rule launch_right_cong [OF assms(2)]) (use stop_and_record_frame [OF assms(1)] in auto)
  then show ?thesis using stop_and_record_frame(10) [OF assms(1)] count_stop [of "pc_stop_timeout c" x] by simp
qed

text \<open>The one start: the right is consumed before the runtime is entered.\<close>

lemma start_broker_bound_right:
  assumes run: "controller_start_broker_bound R c x = (r, c', x')"
    and right: "launch_right reference ctx auth_proof n c (starts x)"
  shows "launch_right reference ctx auth_proof n c' (starts x') \<and>
    (\<forall>receipt. r = Ok receipt \<longrightarrow> starts x = n \<and> pc_state c' = Running \<and>
       pc_runtime_generation c' = 1 \<and> pc_stop_timeout c' = pc_stop_timeout c \<and>
       rc_runtime_generation receipt = 1 \<and> rc_broker_reference receipt = reference \<and>
       (\<exists>handshake. ar_start R ctx x = (Ok handshake, x') \<and>
          sh_instance_id handshake = tb_sidecar_instance_id reference \<and> sh_auth_proof handshake = auth_proof))"
proof -
  obtain consumed where mode: "pc_mode c = ModeBrokerBound reference consumed"
    using right by (auto simp: launch_right_def split: ControllerMode.splits)
  show ?thesis
  proof (cases consumed)
    case True
    with mode run right show ?thesis by (auto simp: controller_start_broker_bound_def)
  next
    case False
    let ?c = "c\<lparr>pc_mode := ModeBrokerBound reference True\<rparr>"
    have fresh: "starts x = n" and spent: "launch_right reference ctx auth_proof n ?c (starts x)"
      using right mode False by (auto simp: launch_right_def split: option.splits)
    obtain s c1 x1 where start: "controller_start R True ?c x = (s, c1, x1)" by (metis prod_cases3)
    have here: "c' = c1 \<and> x' = x1 \<and> (\<forall>receipt. r = Ok receipt \<longrightarrow> s = Ok (OutcomeBrokerBound receipt))"
      using run mode False start
      by (auto simp: controller_start_broker_bound_def split: result.splits ControllerStartOutcome.splits)
    from start show ?thesis
    proof (cases rule: start_cases)
      case (Refused e)
      with here spent show ?thesis by simp
    next
      case (Contextless e)
      with here spent show ?thesis by (simp add: launch_right_def entered_def)
    next
      case (Stopped context' e k x2)
      have "launch_right reference ctx auth_proof n (entered ?c) (starts x2)"
        using spent fresh Stopped(2) count_start [of context' x] Stopped(3)
        by (auto simp: launch_right_def entered_def)
      from stop_and_record_right [OF Stopped(4) [symmetric] this] here Stopped(1) show ?thesis by simp
    next
      case (Running context' handshake outcome)
      have own: "context' = ctx" "pc_expected_auth_proof c = auth_proof"
        using Running(2) spent by (simp_all add: launch_right_def)
      have count: "starts x1 = Suc n" using count_start [of context' x] Running(3) fresh by simp
      have zero: "pc_runtime_generation c = 0" using claim_generation_Ok [OF Running(10)] by simp
      have end': "c' = c1" "x' = x1" using here by simp_all
      have kept: "launch_right reference ctx auth_proof n c1 (starts x1)"
        using Running(2,8) own count by (simp add: launch_right_def started_def entered_def)
      have last: "pc_state c1 = Running" "pc_runtime_generation c1 = 1" "pc_stop_timeout c1 = pc_stop_timeout c"
        using Running(8) zero by (simp_all add: started_def entered_def)
      have "starts x = n \<and> pc_state c1 = Running \<and> pc_runtime_generation c1 = 1 \<and>
          pc_stop_timeout c1 = pc_stop_timeout c \<and> rc_runtime_generation receipt = 1 \<and>
          rc_broker_reference receipt = reference \<and>
          (\<exists>handshake. ar_start R ctx x = (Ok handshake, x1) \<and>
             sh_instance_id handshake = tb_sidecar_instance_id reference \<and> sh_auth_proof handshake = auth_proof)"
        if "r = Ok receipt" for receipt
      proof -
        have "outcome = OutcomeBrokerBound receipt" using here Running(1) that by simp
        then have "rc_runtime_generation receipt = 1 \<and> rc_broker_reference receipt = reference \<and>
            sh_instance_id handshake = tb_sidecar_instance_id reference"
          using start_outcome_bound [of "entered ?c" handshake receipt reference True] Running(7) zero
          by (simp add: entered_def)
        moreover have "ar_start R ctx x = (Ok handshake, x1)" "sh_auth_proof handshake = auth_proof"
          using Running(3,6) own by simp_all
        ultimately show ?thesis using fresh last by blast
      qed
      with kept show ?thesis unfolding end' by blast
    qed
  qed
qed

lemma execute_right:
  assumes "controller_execute R op request cancel timeout c x = (r, c', x')"
    and right: "launch_right reference ctx auth_proof n c (starts x)"
  shows "launch_right reference ctx auth_proof n c' (starts x')"
proof (cases "pc_state c = Running \<and> IpcRequest_validate_protocol request = Ok ()")
  case False
  with assms show ?thesis by (auto simp: controller_execute_def split: if_splits result.splits)
next
  case True
  then have running: "pc_state c = Running" "IpcRequest_validate_protocol request = Ok ()" by auto
  obtain a x1 where a: "ar_request R timeout request cancel x = (a, x1)"
    by (cases "ar_request R timeout request cancel x")
  have here: "launch_right reference ctx auth_proof n c (starts x1)"
    using right count_request [of timeout request cancel x] a by simp
  show ?thesis
    using assms(1) here
    by (cases a; cases "the a")
      (auto simp: controller_execute_def running a dest: stop_and_record_right [OF _ here]
        split: if_splits result.splits)
qed

lemma poll_right:
  assumes run: "controller_poll R now c x = (r, c', x')"
    and right: "launch_right reference ctx auth_proof n c (starts x)"
  shows "launch_right reference ctx auth_proof n c' (starts x')"
proof (cases "pc_state c = Running")
  case False
  then have "c' = c" "x' = x" using run right by (auto simp: controller_poll_def launch_right_def)
  with right show ?thesis by simp
next
  case True
  obtain a x1 where a: "ar_status R x = (a, x1)" by (cases "ar_status R x")
  have here: "launch_right reference ctx auth_proof n c (starts x1)"
    using right count_status [of x] a by simp
  have "broker_bound (pc_mode c)" using right by (rule launch_right_bound)
  show ?thesis
  proof (cases a)
    case (Err e)
    with run True a have "stop_and_record R None EvFailed e c x1 = (c', x')" by (simp add: controller_poll_def)
    from stop_and_record_right [OF this here] show ?thesis .
  next
    case (Ok status)
    with run True a \<open>broker_bound (pc_mode c)\<close>
    have "x' = x1" "pc_mode c' = pc_mode c" "pc_context c' = pc_context c"
      "pc_expected_auth_proof c' = pc_expected_auth_proof c" "pc_state c' \<noteq> Backoff"
      by (auto simp: controller_poll_def controller_exited_def Let_def split: SidecarProcessStatus.splits)
    then show ?thesis using launch_right_cong [OF here, of c'] by simp
  qed
qed

lemma shutdown_right:
  assumes "controller_shutdown R c x = (r, c', x')"
    and right: "launch_right reference ctx auth_proof n c (starts x)"
  shows "launch_right reference ctx auth_proof n c' (starts x')"
proof -
  obtain r1 c1 where stop: "stop_runtime_bounded R None c x = (r1, c1, x')"
    and c': "pc_mode c' = pc_mode c1" "pc_state c' = pc_state c1" "pc_context c' = pc_context c1"
      "pc_expected_auth_proof c' = pc_expected_auth_proof c1"
    using assms(1) by (auto simp: controller_shutdown_def Let_def split: prod.splits result.splits)
  show ?thesis by (rule launch_right_cong [OF stop_right [OF stop right]]) (simp_all add: c')
qed

lemma finish_right:
  assumes "controller_finish_retirement c = (r, c')"
    and "launch_right reference ctx auth_proof n c m"
  shows "launch_right reference ctx auth_proof n c' m"
proof -
  have "c' = c \<or> pc_mode c' = pc_mode c \<and> pc_state c' = pc_state c \<and> pc_context c' = None"
    using assms(1) by (auto simp: controller_finish_retirement_def Let_def split: option.splits if_splits)
  then show ?thesis using assms(2) by (elim disjE) (simp_all add: launch_right_def)
qed

lemma retire_right:
  assumes "controller_retire R c x = (r, c', x')"
    and right: "launch_right reference ctx auth_proof n c (starts x)"
  shows "launch_right reference ctx auth_proof n c' (starts x')"
  using assms(1) unfolding controller_retire_def
proof (elim case_run2E case_ifE, goal_cases)
  case (2 e c1 x1)
  then show ?case using stop_right [OF _ right] by simp
next
  case (3 v c1 x1)
  then show ?case using finish_right [OF _ stop_right [OF 3(3) right]] by (auto split: prod.splits)
next
  case 4
  then show ?case using finish_right [OF _ right] by (auto split: prod.splits)
qed (use right in simp)

lemma serve_start_bound_right:
  assumes run: "serve_start_bound R claimed c x = (response, c', x')"
    and right: "launch_right reference ctx auth_proof n c (starts x)"
  shows "launch_right reference ctx auth_proof n c' (starts x') \<and>
    (\<forall>receipt. response = ResponseStart (Ok receipt) \<longrightarrow> starts x = n \<and>
       rc_runtime_generation receipt = 1 \<and> rc_broker_reference receipt = reference \<and>
       (\<exists>handshake x1. ar_start R ctx x = (Ok handshake, x1) \<and>
          sh_instance_id handshake = tb_sidecar_instance_id reference \<and> sh_auth_proof handshake = auth_proof \<and>
          start_settled R claimed (pc_stop_timeout c) x1 c' x'))"
proof (cases "pc_retired c")
  case True
  with run right show ?thesis by (auto simp: serve_start_bound_def)
next
  case False
  obtain r c1 x1 where start: "controller_start_broker_bound R c x = (r, c1, x1)" by (metis prod_cases3)
  note one = start_broker_bound_right [OF start right]
  show ?thesis
  proof (cases "is_ok r \<and> \<not> claimed")
    case stop: True
    then obtain receipt where r: "r = Ok receipt" by (auto simp: is_ok_iff)
    obtain r2 c2 x2 where s: "stop_runtime_bounded R None c1 x1 = (r2, c2, x2)" by (metis prod_cases3)
    have c': "response = ResponseStart r" "x' = x2" "pc_absence c' = pc_absence c2"
        "launch_right reference ctx auth_proof n c' (starts x2)"
      using run False start stop s stop_right [OF s one [THEN conjunct1]]
      by (auto simp: serve_start_bound_def split: result.splits)
    have t: "pc_runtime_generation c1 = 1" "pc_stop_timeout c1 = pc_stop_timeout c" using one r by blast+
    have "start_settled R claimed (pc_stop_timeout c) x1 c' x'"
    proof (cases rule: stop_cases [where R = R and op = None and c = c1 and x = x1])
      case (Reaps y)
      then show ?thesis using s c'(2,3) t stop by (simp add: start_settled_def)
    next
      case (Fails e y)
      then show ?thesis using s c'(2,3) t stop by (auto simp: start_settled_def)
    qed
    moreover have "starts x = n \<and> rc_runtime_generation receipt = 1 \<and> rc_broker_reference receipt = reference \<and>
       (\<exists>handshake. ar_start R ctx x = (Ok handshake, x1) \<and>
          sh_instance_id handshake = tb_sidecar_instance_id reference \<and> sh_auth_proof handshake = auth_proof)"
      using one r by blast
    ultimately show ?thesis using c'(4) unfolding c'(1,2) r by blast
  next
    case keep: False
    with run False start have end': "response = ResponseStart r" "c' = c1" "x' = x1"
      by (auto simp: serve_start_bound_def)
    have "start_settled R claimed (pc_stop_timeout c) x1 c1 x1" if "r = Ok receipt" for receipt
    proof -
      have "claimed" using keep that by simp
      moreover have "pc_state c1 = Running" using one that by blast
      ultimately show ?thesis by (simp add: start_settled_def)
    qed
    then show ?thesis using one unfolding end' by blast
  qed
qed

lemma step_right:
  assumes run: "controller_step R step (c, x) = (c', x')"
    and right: "launch_right reference ctx auth_proof n c (starts x)"
  shows "launch_right reference ctx auth_proof n c' (starts x')"
proof (cases step)
  case (Serve command)
  obtain response where serve: "controller_serve R command c x = (response, c', x')"
    using run Serve by (cases "controller_serve R command c x") simp
  show ?thesis
  proof (cases command)
    case CommandStart
    with serve right launch_right_bound [OF right] show ?thesis by (auto split: if_splits)
  next
    case (CommandStartBound claimed)
    with serve serve_start_bound_right [OF _ right] show ?thesis by simp
  qed (use serve right execute_right [OF _ right] poll_right [OF _ right] shutdown_right [OF _ right]
      retire_right [OF _ right] in \<open>auto simp: serve_request_def split: prod.splits if_splits\<close>)
qed (use run right in auto)

lemma steps_right:
  assumes "fold (controller_step R) steps (c, x) = (c', x')"
    and "launch_right reference ctx auth_proof n c (starts x)"
  shows "launch_right reference ctx auth_proof n c' (starts x')"
  using assms
proof (induction steps arbitrary: c x)
  case (Cons step steps)
  obtain c1 x1 where step: "controller_step R step (c, x) = (c1, x1)" by fastforce
  from Cons.IH [of c1 x1] Cons.prems step step_right [OF step] show ?case by simp
qed simp

end

text \<open>
  Claim C16. A broker-bound launch is used at most once: whatever is asked of the controller and whatever
  the runtime answers, crashes included, the runtime is entered at most one time with the launch
  context.  A start receipt is given only by that entry, with generation one and the reference of the
  launch, and only for a handshake that carries the assigned instance and the expected proof.  If the
  caller is there, the process runs; if it is gone by then, the runtime is told to stop right after
  the start, and the controller claims the absence of the child exactly when that stop succeeded, in
  which case no child is left.
\<close>

theorem broker_launch_starts_once:
  assumes "counted_runtime R starts" and "production_runtime R child"
    and "fold (controller_step R) steps (spawn_broker_bound_production_controller bound, x0) = (c, x)"
    and "controller_serve R (CommandStartBound claimed) c x = (response, c', x')"
  shows "starts x' \<le> Suc (starts x0) \<and>
    (\<forall>receipt. response = ResponseStart (Ok receipt) \<longrightarrow>
       starts x = starts x0 \<and> rc_runtime_generation receipt = 1 \<and>
       rc_broker_reference receipt = bl_reference bound \<and>
       (\<exists>handshake x1. ar_start R (bl_context bound) x = (Ok handshake, x1) \<and>
          sh_instance_id handshake = tb_sidecar_instance_id (bl_reference bound) \<and>
          sh_auth_proof handshake = bl_expected_auth_proof bound \<and>
          (if claimed then x' = x1 \<and> pc_state c' = Running
           else x' = snd (ar_stop R (pc_stop_timeout c) x1) \<and>
             (if fst (ar_stop R (pc_stop_timeout c) x1) = Some (Ok ())
              then pc_absence c' = Some Reaped \<and> \<not> child x' else pc_absence c' = None))))"
proof -
  let ?right = "launch_right (bl_reference bound) (bl_context bound) (bl_expected_auth_proof bound) (starts x0)"
  have "?right (spawn_broker_bound_production_controller bound) (starts x0)"
    by (simp add: launch_right_def spawn_broker_bound_production_controller_def BoundSidecarLaunch_into_parts_def
        spawn_controller_actor_def)
  from counted_runtime.serve_start_bound_right [OF assms(1) _ counted_runtime.steps_right [OF assms(1,3) this]]
    assms(4)
  have one: "?right c' (starts x')"
    "\<forall>receipt. response = ResponseStart (Ok receipt) \<longrightarrow> starts x = starts x0 \<and>
       rc_runtime_generation receipt = 1 \<and> rc_broker_reference receipt = bl_reference bound \<and>
       (\<exists>handshake x1. ar_start R (bl_context bound) x = (Ok handshake, x1) \<and>
          sh_instance_id handshake = tb_sidecar_instance_id (bl_reference bound) \<and>
          sh_auth_proof handshake = bl_expected_auth_proof bound \<and>
          start_settled R claimed (pc_stop_timeout c) x1 c' x')"
    by simp_all
  have "starts x' \<le> Suc (starts x0)"
    using one(1) by (auto simp: launch_right_def split: ControllerMode.splits if_splits)
  moreover have "\<not> child (snd (ar_stop R t y))" if "fst (ar_stop R t y) = Some (Ok ())" for t y
    using production_runtime.stop_reaps [OF assms(2), of t y "snd (ar_stop R t y)"] that
    by (simp add: prod_eq_iff)
  ultimately show ?thesis using one(2) unfolding start_settled_def by (auto split: if_splits) metis+
qed

subsection \<open>Restarts are bounded\<close>

text \<open>The restarts made since \<open>n\<close> are bounded by the crashes seen, and the crashes by three.\<close>

definition restart_budget :: "nat \<Rightarrow> ProductionController \<Rightarrow> nat \<Rightarrow> bool" where
  "restart_budget n c entries \<longleftrightarrow>
     (case pc_state c of
        Running \<Rightarrow> entries \<le> n + unat (pc_crashes c) \<and> unat (pc_crashes c) \<le> 3
      | Backoff \<Rightarrow> entries < n + unat (pc_crashes c) \<and> unat (pc_crashes c) \<le> 3
      | _ \<Rightarrow> entries \<le> n + 3)"

lemma restart_budget_bound: "restart_budget n c entries \<Longrightarrow> entries \<le> n + 3"
  by (auto simp: restart_budget_def split: SidecarLifecycleState.splits)

lemma exited_budget:
  assumes "controller_exited now c = (r, c')" and "pc_state c = Running" and "restart_budget n c entries"
  shows "restart_budget n c' entries"
proof -
  have "unat (saturating_add (pc_crashes c) 1) = Suc (unat (pc_crashes c))"
    using assms(2,3) by (simp add: restart_budget_def sat_simps)
  with assms show ?thesis
    by (auto simp: controller_exited_def Let_def restart_budget_def word_less_nat_alt split: if_splits)
qed

context counted_runtime
begin

lemma restart_within_budget:
  assumes start: "controller_start R False (record_event EvRestarting None None (c\<lparr>pc_state := Stopped\<rparr>)) x = (r, c', x')"
    and "pc_state c = Backoff" and budget: "restart_budget n c (starts x)"
  shows "restart_budget n c' (starts x')"
proof -
  have room: "starts x < n + unat (pc_crashes c)" "unat (pc_crashes c) \<le> 3"
    using assms(2,3) by (simp_all add: restart_budget_def)
  show ?thesis
    using start
  proof (cases rule: start_cases)
    case (Stopped ctx e k x1)
    note frame = stop_and_record_frame [OF Stopped(4) [symmetric]]
    have "starts x' = Suc (starts x)"
      using frame(10) count_stop [of "pc_stop_timeout (entered (record_event EvRestarting None None
        (c\<lparr>pc_state := SidecarLifecycleState.Stopped\<rparr>)))" x1] count_start [of ctx x] Stopped(3) by simp
    with frame(9) room show ?thesis by (auto simp: restart_budget_def)
  next
    case (Running ctx handshake outcome)
    have "starts x' = Suc (starts x)" using count_start [of ctx x] Running(3) by simp
    with Running(8) room show ?thesis by (simp add: restart_budget_def started_def entered_def)
  qed (use room in \<open>simp_all add: restart_budget_def entered_def\<close>)
qed

lemma poll_within_budget:
  assumes run: "controller_poll R now c x = (r, c', x')" and budget: "restart_budget n c (starts x)"
    and dead: "fst (ar_status R x) \<noteq> Ok ProcessRunning"
  shows "restart_budget n c' (starts x')"
  using run unfolding controller_poll_def
proof (elim case_run2E case_runE case_ifE, goal_cases)
  case (1 e c1 x1)
  then show ?case using restart_within_budget [OF 1(3,1) budget] by simp
next
  case (2 v c1 x1)
  then show ?case using restart_within_budget [OF 2(3,1) budget] by simp
next
  case (5 e x1)
  then have stop: "stop_and_record R None EvFailed e c x1 = (c', x')" by simp
  have "starts x' = starts x"
    using stop_and_record_frame(10) [OF stop] count_stop [of "pc_stop_timeout c" x1] count_status [of x] 5(3) by simp
  with stop_and_record_frame(9) [OF stop] restart_budget_bound [OF budget] show ?case
    by (auto simp: restart_budget_def)
next
  case (6 status x1)
  then obtain b where "status = ProcessExited b" using dead by (cases status) auto
  with 6 have "controller_exited now c = (r, c')" "x' = x1" "pc_state c = Running" by (auto split: prod.splits)
  moreover have "starts x1 = starts x" using count_status [of x] 6(3) by simp
  ultimately show ?case using exited_budget [of now c r c' n "starts x"] budget by simp
qed (use budget in simp_all)

end

text \<open>A process that dies at once, however often it is started: no poll observes it alive.\<close>

locale crashing_runtime = counted_runtime +
  fixes dying :: "'a \<Rightarrow> bool"
  assumes dying_status: "dying x \<Longrightarrow> fst (ar_status R x) \<noteq> Ok ProcessRunning"
    and dying_start: "dying x \<Longrightarrow> dying (snd (ar_start R ctx x))"
    and dying_again: "dying x \<Longrightarrow> dying (snd (ar_status R x))"
    and dying_stop: "dying x \<Longrightarrow> dying (snd (ar_stop R t x))"
begin

lemma start_keeps_dying:
  assumes start: "controller_start R reset c x = (r, c', x')" and "dying x"
  shows "dying x'"
  using start
proof (cases rule: start_cases)
  case (Stopped ctx e k x1)
  have "dying x1" using dying_start [OF assms(2), of ctx] Stopped(3) by simp
  then show ?thesis using stop_and_record_frame(10) [OF Stopped(4) [symmetric]] dying_stop by simp
next
  case (Running ctx handshake outcome)
  then show ?thesis using dying_start [OF assms(2), of ctx] by simp
qed (use assms(2) in simp_all)

lemma poll_keeps_dying:
  assumes "controller_poll R now c x = (r, c', x')" and "dying x"
  shows "dying x'"
  using assms(1) unfolding controller_poll_def
proof (elim case_run2E case_runE case_ifE, goal_cases)
  case (1 e c1 x1)
  then show ?case using start_keeps_dying [OF 1(3) assms(2)] by simp
next
  case (2 v c1 x1)
  then show ?case using start_keeps_dying [OF 2(3) assms(2)] by simp
next
  case (5 e x1)
  then have stop: "stop_and_record R None EvFailed e c x1 = (c', x')" by simp
  have "dying x1" using dying_again [OF assms(2)] 5(3) by simp
  then show ?case using stop_and_record_frame(10) [OF stop] dying_stop by simp
next
  case (6 status x1)
  then show ?case using dying_again [OF assms(2)] by (auto split: SidecarProcessStatus.splits prod.splits)
qed (use assms(2) in simp_all)

lemma polls_within_budget:
  assumes "fold (controller_step R) (map (\<lambda>now. Serve (CommandPoll now)) instants) (c, x) = (c', x')"
    and "restart_budget n c (starts x)" and "dying x"
  shows "restart_budget n c' (starts x')"
  using assms
proof (induction instants arbitrary: c x)
  case (Cons now instants)
  obtain r c1 x1 where p: "(if pc_retired c then (Err InvalidStateTransition, c, x)
      else controller_poll R now c x) = (r, c1, x1)" by (metis prod_cases3)
  have "restart_budget n c1 (starts x1)" "dying x1"
    using p Cons.prems(2,3) poll_within_budget [of now c x r c1 x1 n] dying_status [of x]
      poll_keeps_dying [of now c x r c1 x1] by (auto split: if_splits)
  with Cons.IH [of c1 x1] Cons.prems(1) p show ?case by simp
qed simp

end

text \<open>
  Claim C36. Immediate crashes converge: from a running process with a clean crash history, if the process
  dies at once however often it is started, then any number of polls at any instants restarts it at most
  three times.
\<close>

theorem immediate_crashes_converge:
  assumes "crashing_runtime R starts dying" and "dying x" and "pc_state c = Running" and "pc_crashes c = 0"
    and "fold (controller_step R) (map (\<lambda>now. Serve (CommandPoll now)) instants) (c, x) = (c', x')"
  shows "starts x' \<le> starts x + 3"
proof -
  have "restart_budget (starts x) c (starts x)" using assms(3,4) by (simp add: restart_budget_def)
  from restart_budget_bound [OF crashing_runtime.polls_within_budget [OF assms(1,5) this assms(2)]]
  show ?thesis .
qed

subsection \<open>The runtime of the tests\<close>

text \<open>
  \<open>BrokerBoundRuntime\<close> of the tests, with a ghost field for the child it stands for: a start spawns it, a stop
  and a reported exit reap it.
\<close>

record BrokerBoundRuntime =
  br_starts :: nat
  br_stopped :: nat
  br_exited :: bool
  br_valid_handshake :: bool
  br_alive :: bool

definition br_start ::
  "(u8 list \<Rightarrow> u8 list \<Rightarrow> u8 list) \<Rightarrow> SidecarLaunchContext \<Rightarrow> BrokerBoundRuntime \<Rightarrow>
     SidecarHandshake net_result \<times> BrokerBoundRuntime" where
  "br_start hmac ctx x =
     (Ok \<lparr>sh_protocol_version = NETWORK_IPC_PROTOCOL_VERSION, sh_instance_id = lc_instance_id ctx,
          sh_auth_proof = (if br_valid_handshake x
             then sidecar_auth_proof hmac (lc_auth_token ctx) (lc_instance_id ctx) else ''invalid-proof'')\<rparr>,
      x\<lparr>br_starts := Suc (br_starts x), br_alive := True\<rparr>)"

definition br_status :: "BrokerBoundRuntime \<Rightarrow> SidecarProcessStatus net_result \<times> BrokerBoundRuntime" where
  "br_status x =
     (if br_exited x then (Ok (ProcessExited False), x\<lparr>br_alive := False\<rparr>) else (Ok ProcessRunning, x))"

definition br_stop :: "BrokerBoundRuntime \<Rightarrow> unit net_result \<times> BrokerBoundRuntime" where
  "br_stop x = (Ok (), x\<lparr>br_stopped := Suc (br_stopped x), br_alive := False\<rparr>)"

definition BrokerBoundRuntime_impl ::
  "(u8 list \<Rightarrow> u8 list \<Rightarrow> u8 list) \<Rightarrow> BrokerBoundRuntime AsyncProductionRuntime" where
  "BrokerBoundRuntime_impl hmac =
     \<lparr>ar_start = br_start hmac,
      ar_request = (\<lambda>_ _ _ x. (Some (Err InvalidStateTransition), x)),
      ar_status = br_status,
      ar_stop = (\<lambda>_ x. case br_stop x of (r, x) \<Rightarrow> (Some r, x))\<rparr>"

interpretation br_runtime: production_runtime "BrokerBoundRuntime_impl hmac" br_alive for hmac
  by unfold_locales (auto simp: BrokerBoundRuntime_impl_def br_stop_def br_status_def split: if_splits)

interpretation br_count: counted_runtime "BrokerBoundRuntime_impl hmac" br_starts for hmac
  by unfold_locales
    (auto simp: BrokerBoundRuntime_impl_def br_start_def br_stop_def br_status_def split: if_splits)

interpretation br_crash: crashing_runtime "BrokerBoundRuntime_impl hmac" br_starts br_exited for hmac
  by unfold_locales
    (auto simp: BrokerBoundRuntime_impl_def br_start_def br_stop_def br_status_def split: if_splits)

definition prepared_runtime :: BrokerBoundRuntime where
  "prepared_runtime =
     \<lparr>br_starts = 0, br_stopped = 0, br_exited = False, br_valid_handshake = True, br_alive = True\<rparr>"

lemma sample_bound_parts:
  "bl_reference sample_bound = st_reference sample_session"
  "lc_instance_id (bl_context sample_bound) = tb_sidecar_instance_id (st_reference sample_session)"
  "bl_expected_auth_proof sample_bound =
     sidecar_auth_proof sample_hmac (lc_auth_token (bl_context sample_bound)) (lc_instance_id (bl_context sample_bound))"
  by (simp_all add: sample_bound_def SidecarLaunchMaterial_bind_def sample_reference_valid Let_def
      with_private_key_def SidecarLaunchContext_new_def)

lemmas run_sample = BrokerBoundRuntime_impl_def br_start_def br_stop_def br_status_def prepared_runtime_def
  spawn_broker_bound_production_controller_def BoundSidecarLaunch_into_parts_def spawn_controller_actor_def
  serve_start_bound_def controller_start_broker_bound_def controller_start_def claim_generation_def
  start_outcome_def ControllerStartReceipt_issue_def record_event_def checked_add_def Let_def
  stop_runtime_bounded_def stop_and_record_def

definition sample_spawned :: ProductionController where
  "sample_spawned =
     spawn_controller_actor (bl_context sample_bound) (bl_expected_auth_proof sample_bound) STOP_TIMEOUT
       (ModeBrokerBound (bl_reference sample_bound) False)"

lemma sample_spawned: "spawn_broker_bound_production_controller sample_bound = sample_spawned"
  by (simp add: sample_spawned_def spawn_broker_bound_production_controller_def BoundSidecarLaunch_into_parts_def)

lemma sample_started:
  "\<exists>c. controller_serve (BrokerBoundRuntime_impl sample_hmac) (CommandStartBound True) sample_spawned
      prepared_runtime =
    (ResponseStart (Ok \<lparr>rc_runtime_generation = 1, rc_broker_reference = bl_reference sample_bound\<rparr>), c,
     prepared_runtime\<lparr>br_starts := 1\<rparr>) \<and>
    pc_state c = Running \<and> pc_runtime_generation c = 1 \<and> \<not> pc_retired c"
  using sample_bound_parts sample_reference_valid by (simp add: run_sample sample_spawned_def)

lemma sample_stop:
  "ar_stop (BrokerBoundRuntime_impl hmac) t x = (Some (Ok ()), snd (br_stop x))"
  by (simp add: BrokerBoundRuntime_impl_def br_stop_def)

text \<open>Started, shut down and retired; the commands sent later find nothing to do.\<close>

theorem retirement_is_final_witness:
  "\<exists>c x receipt c' x'.
     fold (controller_step (BrokerBoundRuntime_impl sample_hmac)) [Serve (CommandStartBound True), Serve CommandShutdown]
       (sample_spawned, prepared_runtime) = (c, x) \<and>
     controller_retire (BrokerBoundRuntime_impl sample_hmac) c x = (Ok receipt, c', x') \<and>
     cr_absence receipt = Reaped \<and> \<not> br_alive x' \<and>
     fold (controller_step (BrokerBoundRuntime_impl sample_hmac)) [Serve (CommandStartBound True), Serve CommandShutdown]
       (c', x') = (c', x')"
proof -
  let ?R = "BrokerBoundRuntime_impl sample_hmac" and ?steps = "[Serve (CommandStartBound True), Serve CommandShutdown]"
  let ?x0 = "prepared_runtime\<lparr>br_starts := 1\<rparr>"
  obtain c where c: "controller_serve ?R (CommandStartBound True) sample_spawned prepared_runtime =
      (ResponseStart (Ok \<lparr>rc_runtime_generation = 1, rc_broker_reference = bl_reference sample_bound\<rparr>), c, ?x0)"
    "pc_runtime_generation c = 1" "\<not> pc_retired c"
    using sample_started by blast
  obtain c1 c2 receipt where down: "controller_shutdown ?R c ?x0 = (Ok (), c1, snd (br_stop ?x0))"
    "controller_retire ?R c1 (snd (br_stop ?x0)) = (Ok receipt, c2, snd (br_stop ?x0))"
    "cr_runtime_generation receipt = pc_runtime_generation c"
    using shutdown_retires [OF c(3) sample_stop] by blast
  have run: "fold (controller_step ?R) ?steps (sample_spawned, prepared_runtime) = (c1, snd (br_stop ?x0))"
    using c(1,3) down(1) by simp
  have later: "fold (controller_step ?R) ?steps (c2, snd (br_stop ?x0)) = (c2, snd (br_stop ?x0))"
    using retire_Ok(1) [OF down(2)] by (simp add: serve_start_bound_def)
  have "broker_bound (ModeBrokerBound (bl_reference sample_bound) False) \<or> \<not> br_alive prepared_runtime" by simp
  from retirement_is_final [OF br_runtime.production_runtime_axioms this run [unfolded sample_spawned_def]
      down(2) later] down(3) c(2)
  have "\<not> br_alive (snd (br_stop ?x0))" "cr_absence receipt = Reaped"
    by (simp_all, cases "cr_absence receipt") simp_all
  with run down(2) later show ?thesis by blast
qed

text \<open>A caller that is gone: the one start is followed by the one stop, and no child is left.\<close>

lemma sample_unclaimed:
  "\<exists>c. controller_serve (BrokerBoundRuntime_impl sample_hmac) (CommandStartBound False) sample_spawned
      prepared_runtime =
    (ResponseStart (Ok \<lparr>rc_runtime_generation = 1, rc_broker_reference = bl_reference sample_bound\<rparr>), c,
     prepared_runtime\<lparr>br_starts := 1, br_stopped := 1, br_alive := False\<rparr>)"
  using sample_bound_parts sample_reference_valid by (simp add: run_sample sample_spawned_def)

theorem broker_launch_starts_once_witness:
  "\<exists>c. controller_serve (BrokerBoundRuntime_impl sample_hmac) (CommandStartBound False)
      sample_spawned prepared_runtime =
    (ResponseStart (Ok \<lparr>rc_runtime_generation = 1, rc_broker_reference = bl_reference sample_bound\<rparr>), c,
     prepared_runtime\<lparr>br_starts := 1, br_stopped := 1, br_alive := False\<rparr>) \<and> pc_absence c = Some Reaped"
proof -
  let ?R = "BrokerBoundRuntime_impl sample_hmac"
  let ?x = "prepared_runtime\<lparr>br_starts := 1, br_stopped := 1, br_alive := False\<rparr>"
  obtain c where c: "controller_serve ?R (CommandStartBound False) sample_spawned prepared_runtime =
      (ResponseStart (Ok \<lparr>rc_runtime_generation = 1, rc_broker_reference = bl_reference sample_bound\<rparr>), c, ?x)"
    using sample_unclaimed by blast
  have "fold (controller_step ?R) [] (spawn_broker_bound_production_controller sample_bound, prepared_runtime) =
      (sample_spawned, prepared_runtime)"
    by (simp add: sample_spawned)
  from broker_launch_starts_once [OF br_count.counted_runtime_axioms br_runtime.production_runtime_axioms this c]
  have "pc_absence c = Some Reaped" by (auto simp: sample_stop)
  with c show ?thesis by blast
qed

text \<open>A reusable controller whose process has exited: it restarts once and backs off again.\<close>

definition sample_running :: ProductionController where
  "sample_running =
     (spawn_production_controller (SidecarLaunchContext_new ''i'' [7]) (sidecar_auth_proof sample_hmac [7] ''i''))
       \<lparr>pc_state := Running, pc_runtime_generation := 1, pc_absence := None\<rparr>"

lemma sample_crash_loop:
  "case fold (controller_step (BrokerBoundRuntime_impl sample_hmac))
       (map (\<lambda>now. Serve (CommandPoll now)) [0, 100, 100])
       (sample_running, prepared_runtime\<lparr>br_exited := True\<rparr>) of
     (c, x) \<Rightarrow> pc_state c = Backoff \<and> br_starts x = 1"
  by (simp add: sample_running_def spawn_production_controller_def run_sample controller_poll_def controller_exited_def
      SidecarLaunchContext_new_def restart_delay_ms_def saturating_add_def saturating_sub_def saturating_mul_def
      DIAGNOSTIC_CAPACITY_def)

theorem immediate_crashes_converge_witness:
  "\<exists>c x. fold (controller_step (BrokerBoundRuntime_impl sample_hmac))
       (map (\<lambda>now. Serve (CommandPoll now)) [0, 100, 100])
       (sample_running, prepared_runtime\<lparr>br_exited := True\<rparr>) = (c, x) \<and>
     pc_state c = Backoff \<and> br_starts x = 1 \<and> br_starts x \<le> br_starts prepared_runtime + 3"
proof -
  obtain c x where run: "fold (controller_step (BrokerBoundRuntime_impl sample_hmac))
       (map (\<lambda>now. Serve (CommandPoll now)) [0, 100, 100])
       (sample_running, prepared_runtime\<lparr>br_exited := True\<rparr>) = (c, x)" "pc_state c = Backoff" "br_starts x = 1"
    using sample_crash_loop by (auto split: prod.splits)
  have "br_starts x \<le> br_starts (prepared_runtime\<lparr>br_exited := True\<rparr>) + 3"
    by (rule immediate_crashes_converge [OF br_crash.crashing_runtime_axioms _ _ _ run(1)])
      (simp_all add: sample_running_def spawn_production_controller_def spawn_controller_actor_def)
  with run show ?thesis by auto
qed

end
