(* ===== verification/Spec2Isabelle.thy ===== *)
theory Spec2Isabelle
  imports Route_Safety Policy Data_Plane Broker_Bound Xpc_Boundary Production_Controller
begin

section \<open>KyClash networking: a verification development\<close>

text \<open>
  KyClash adds a private network to a proxy client.  This library models the Rust code under
  \<open>src-tauri/src/networking\<close> that decides what the network does: which profiles and policies are accepted,
  which routes are installed and removed, who may change them, and what is left behind when a step
  fails.  File names below are relative to that directory.

  \<^bold>\<open>The program.\<close>  A signed policy (\<open>policy.rs\<close>) carries a profile (\<open>config.rs\<close>).  The data plane
  (\<open>data_plane.rs\<close>) brings a tunnel, a transport and routes up in the order of the state machine
  (\<open>state.rs\<close>, \<open>operation.rs\<close>).  The tunnel is a sidecar process (\<open>sidecar.rs\<close>) that speaks the protocol of
  \<open>ipc.rs\<close>; in production it is started by a privileged broker (\<open>tunnel_broker_client.rs\<close>), and the
  receipt of the start is the only authority for routes (\<open>production_session.rs\<close>); an actor owns the
  process until it is retired (\<open>production_controller.rs\<close>).  Routes are changed
  by a journalled transaction (\<open>route.rs\<close>), by the route helper of version 2 over XPC
  (\<open>route_helper.rs\<close>, \<open>route_helper_client.rs\<close>), or by the helper of version 3, which ties a lease to a
  hold of the broker (\<open>route_helper_v3.rs\<close>, \<open>route_helper_v3_client.rs\<close>, \<open>production_route_v3.rs\<close>,
  \<open>broker_bound_route_v3.rs\<close>).  The service replaces a route boundary only against a retirement receipt
  (\<open>production_service.rs\<close>).

  \<^bold>\<open>How code becomes definitions.\<close>  A struct is a record, an enum a datatype, with the Rust names; field
  names have a prefix, and constructors and functions that clash have a prefix or a suffix.  A method
  with \<open>&mut self\<close> returns its result and the new state; a trait is a record of operations on a state \<open>'x\<close>
  that stands for the world behind it, and every operation may fail in every state.  Errors are the
  constructor \<open>Err\<close> of \<open>result\<close>; \<open>?\<close> is a case distinction.  Integers have their width and the saturating
  or checked operations of the source.  Strings are lists of bytes.  Mutexes are not modelled: a
  method that takes one runs alone.  Libraries (URL, Base64, JSON, SHA-256, HMAC, Ed25519) and the C
  bridges are arguments; the properties that rely on them name what they rely on.

  \<^bold>\<open>The theories.\<close>
  \<^item> \<open>Prelude\<close>, \<open>Ip_Addr\<close>, \<open>Std_Fs\<close>: results, words, strings, addresses and prefixes, and a file system in
    which every call may fail.
  \<^item> \<open>Net_State\<close>: the transition table and operations.  A connected state is reached only through
    authentication, policy and tunnel; the event log is the history.
  \<^item> \<open>Route_Net\<close>, \<open>Route\<close>, \<open>File_Journal\<close>, \<open>Route_Safety\<close>: plans and conflicts, the orchestrator on any
    platform and journal (locales), the journal on disk.  Overlap is a common address; apply is all or
    nothing; after any failures or crash every route is claimed by the journal and recovery removes it.
    A repeated apply after a failed rollback reports success whatever that rollback removed.
  \<^item> \<open>Net_Config\<close>, \<open>Net_Config_V2\<close>, \<open>Net_Config_Facts\<close>: both profiles and what a valid one guarantees: private,
    disjoint ranges that form a plan, endpoints with one spelling, keys below the field prime.
  \<^item> \<open>Ipc\<close>, \<open>Sidecar\<close>: the protocol, its validation and the mock sidecar; the process controller with its
    restart window and handshake.
  \<^item> \<open>Policy\<close>: an accepted policy is signed by a trusted key, in its period, with a valid profile.
  \<^item> \<open>Data_Plane\<close>: connect, disconnect, fallback and reconnect on adapters that satisfy the locale
    \<open>data_plane_adapters\<close>, whose observations include the calls made and whether they succeeded: what a
    run leaves behind is stated by the calls of that run.
  \<^item> \<open>Route_Helper\<close>, \<open>Route_Helper_V3\<close>: leases of both versions and the lease journal.  Valid records are the
    reachable ones, events are never replayed, and every lease ends.
  \<^item> \<open>Tunnel_Broker\<close>, \<open>Production_Session\<close>: replies of the broker, the process handle, and the chain of
    identities from the launch to the authorisation of routes.
  \<^item> \<open>Production_Controller\<close>: the actor with all its commands and the cancellations its handles register, for
    every runtime in the locales \<open>production_runtime\<close>, \<open>counted_runtime\<close> and \<open>crashing_runtime\<close>.  A retirement
    receipt proves that no child is left and is final, a broker-bound launch is entered once, and
    immediate crashes lead to at most three restarts.
  \<^item> \<open>Production_Route_V3\<close>: the lifecycle of a broker-bound lease on the locale \<open>route_v3_world\<close>.  Routes
    exist only under a journalled hold, every session refines the lease journal and can be retired.
    \<open>recording\<close> observes the calls of a session on any adapters: all carry the tuple of its authority.
  \<^item> \<open>Route_Boundary\<close>: the contract of a route boundary (locale \<open>route_boundary\<close>): a receipt proves that no
    lease is left.  \<open>Broker_Bound\<close> and \<open>Xpc_Boundary\<close> show it for the two implementations, for every
    helper in the locales \<open>helper_v3\<close> and \<open>xpc_helper\<close>, by a sublocale each; a failed broker-bound application stays
    frozen until a confirmed rollback.  \<open>Route_Client_V3\<close> is the client of the version 3 helper.

  Each locale is interpreted on the adapters that the tests of the source use; where a law speaks of
  what a call leaves behind in the system, the adapter carries it in an extra field.

  \<^bold>\<open>Bounds.\<close>  No definition has fuel.  Loops of the source are structural or have a measure; the discovery
  of \<open>route_helper_client.rs\<close> recurses on the attempts its policy has left, and with none left it reports
  the deadline as the source does.

  \<^bold>\<open>Not modelled.\<close>  The service and the composition of production (\<open>production_service.rs\<close>,
  \<open>production_composition.rs\<close>) are threads, channels and timers around the parts above; of the
  controller, the bounded channel and the adapter to the stdio runtime are left out.
  \<open>policy_identity_store.rs\<close>, \<open>production_policy_catalog.rs\<close>, \<open>credentials.rs\<close> and \<open>sidecar_trust.rs\<close> store
  policies and keys with services of the platform; \<open>stdio_runtime.rs\<close> and \<open>process_runtime.rs\<close> run processes
  and pipes; \<open>macos_route.rs\<close> and \<open>route_helper_registration.rs\<close> call macOS.  The proxy application, its
  commands, the user interface, the Go sidecar and the lab tools are outside of this library.  Wall
  clocks are arguments or numbers; the interleaving of threads inside one component is not modelled.
\<close>

end
